(* ===== verification/Prelude.thy ===== *)
theory Prelude
  imports Main "HOL-Library.List_Lexorder" "HOL-Library.Char_ord" "HOL-Library.Multiset"
begin

text \<open>
  Shared vocabulary of the development: the Python exceptions the modelled code raises or
  catches, the Python \<open>str\<close> primitives the sources call (\<open>strip\<close>, \<open>startswith\<close>,
  \<open>index\<close>, \<open>split\<close>, \<open>lower\<close>), \<open>int()\<close> and \<open>str()\<close> on integers, and the
  \<open>stem\<close> and \<open>suffix\<close> of a path name, as executable HOL functions over \<open>string\<close>,
  with the lemmas about them that the component theories share. A Python character is modelled as a
  HOL \<open>char\<close>; the model is exact on ASCII text (see the root theory's header). Strings
  compare lexicographically (\<open>List_Lexorder\<close> over \<open>Char_ord\<close>), as Python's \<open>str\<close> does.
\<close>

named_theorems py_str_simps "evaluation equations of the Python string primitives"

section \<open>Exceptions\<close>

text \<open>
  The exceptions that reach a \<open>try\<close>/\<open>except\<close> of the sources. \<open>Raised\<close> stands for an
  exception raised inside an external library (the Markdown converter), carried with its
  message as the source's \<open>except Exception as e\<close> prints it.
\<close>

datatype py_error =
    ValueError
  | KeyError
  | OSError
  | UnicodeDecodeError
  | Raised string

section \<open>Characters\<close>

definition py_isspace :: "char \<Rightarrow> bool" where
  "py_isspace c \<longleftrightarrow>
     (let n = of_char c :: nat in (9 \<le> n \<and> n \<le> 13) \<or> (28 \<le> n \<and> n \<le> 32))"

definition is_upper_ascii :: "char \<Rightarrow> bool" where
  "is_upper_ascii c \<longleftrightarrow> CHR ''A'' \<le> c \<and> c \<le> CHR ''Z''"

definition is_lower_ascii :: "char \<Rightarrow> bool" where
  "is_lower_ascii c \<longleftrightarrow> CHR ''a'' \<le> c \<and> c \<le> CHR ''z''"

definition is_digit_ascii :: "char \<Rightarrow> bool" where
  "is_digit_ascii c \<longleftrightarrow> CHR ''0'' \<le> c \<and> c \<le> CHR ''9''"

definition py_lower_char :: "char \<Rightarrow> char" where
  "py_lower_char c = (if is_upper_ascii c then char_of (of_char c + (32::nat)) else c)"

definition py_lower :: "string \<Rightarrow> string" where
  "py_lower s = map py_lower_char s"

section \<open>Stripping\<close>

text \<open>
  \<open>s.strip(chars)\<close> removes every leading and every trailing character in \<open>chars\<close>;
  \<open>s.strip()\<close> removes whitespace. Both are \<open>py_strip_by\<close> of a predicate.
\<close>

definition py_strip_by :: "(char \<Rightarrow> bool) \<Rightarrow> string \<Rightarrow> string" where
  "py_strip_by P s = rev (dropWhile P (rev (dropWhile P s)))"

abbreviation py_strip :: "string \<Rightarrow> string" where
  "py_strip \<equiv> py_strip_by py_isspace"

section \<open>Searching and slicing\<close>

definition py_startswith :: "string \<Rightarrow> string \<Rightarrow> bool" where
  "py_startswith s p \<longleftrightarrow> take (length p) s = p"

fun find_at :: "string \<Rightarrow> string \<Rightarrow> nat \<Rightarrow> nat option" where
  "find_at sub [] i = (if sub = [] then Some i else None)"
| "find_at sub (c # cs) i =
     (if take (length sub) (c # cs) = sub then Some i else find_at sub cs (Suc i))"

text \<open>\<open>s.find(sub, start)\<close>, with \<open>None\<close> for Python's \<open>-1\<close>.\<close>

definition py_find :: "string \<Rightarrow> string \<Rightarrow> nat \<Rightarrow> nat option" where
  "py_find s sub start = (if length s < start then None else find_at sub (drop start s) start)"

text \<open>\<open>s.endswith(p)\<close>.\<close>

definition py_endswith :: "string \<Rightarrow> string \<Rightarrow> bool" where
  "py_endswith s p \<longleftrightarrow> py_startswith (rev s) (rev p)"

text \<open>\<open>s.index(sub, start)\<close>: as \<open>find\<close>, but a missing substring raises \<open>ValueError\<close>.\<close>

definition py_index :: "string \<Rightarrow> string \<Rightarrow> nat \<Rightarrow> py_error + nat" where
  "py_index s sub start = (case py_find s sub start of None \<Rightarrow> Inl ValueError | Some i \<Rightarrow> Inr i)"

text \<open>\<open>sub in s\<close>.\<close>

definition py_contains :: "string \<Rightarrow> string \<Rightarrow> bool" where
  "py_contains s sub \<longleftrightarrow> py_find s sub 0 \<noteq> None"

text \<open>The slice \<open>s[i:j]\<close> for \<open>0 \<le> i\<close>, \<open>0 \<le> j\<close>.\<close>

definition py_slice :: "string \<Rightarrow> nat \<Rightarrow> nat \<Rightarrow> string" where
  "py_slice s i j = take (j - i) (drop i s)"

section \<open>Splitting\<close>

text \<open>\<open>s.split(c)\<close> with an explicit one-character separator: never empty, and an empty
  piece wherever two separators meet or the string starts or ends with one.\<close>

fun py_split :: "char \<Rightarrow> string \<Rightarrow> string list" where
  "py_split c [] = [[]]"
| "py_split c (x # xs) =
     (if x = c then [] # py_split c xs else (let r = py_split c xs in (x # hd r) # tl r))"

text \<open>\<open>key, value = s.split(c, 1)\<close>, called only where \<open>c in s\<close>.\<close>

definition py_split1 :: "char \<Rightarrow> string \<Rightarrow> string \<times> string" where
  "py_split1 c s = (takeWhile (\<lambda>x. x \<noteq> c) s, tl (dropWhile (\<lambda>x. x \<noteq> c) s))"

text \<open>\<open>sep.join(words)\<close>.\<close>

fun py_join :: "string \<Rightarrow> string list \<Rightarrow> string" where
  "py_join sep [] = []"
| "py_join sep [w] = w"
| "py_join sep (w # ws) = w @ sep @ py_join sep ws"

section \<open>Integers\<close>

text \<open>\<open>int(s)\<close> on a string, base 10: surrounding whitespace is ignored, one optional sign,
  then ASCII digits with single underscores allowed between digits; anything else raises
  \<open>ValueError\<close>. \<open>str(i)\<close> prints the decimal digits, with a minus sign when negative.\<close>

definition digit_val :: "char \<Rightarrow> int" where
  "digit_val c = int (of_char c) - 48"

fun py_digits_ok :: "string \<Rightarrow> bool" where
  "py_digits_ok [] = False"
| "py_digits_ok [c] = is_digit_ascii c"
| "py_digits_ok (c # d # r) =
     (is_digit_ascii c \<and> (if d = CHR ''_'' then py_digits_ok r else py_digits_ok (d # r)))"

definition py_digits_val :: "string \<Rightarrow> int" where
  "py_digits_val s = foldl (\<lambda>n c. 10 * n + digit_val c) 0 (filter is_digit_ascii s)"

definition py_int :: "string \<Rightarrow> py_error + int" where
  "py_int s =
     (case py_strip s of
        [] \<Rightarrow> Inl ValueError
      | c # r \<Rightarrow>
          if c = CHR ''-'' then (if py_digits_ok r then Inr (- py_digits_val r) else Inl ValueError)
          else if c = CHR ''+'' then (if py_digits_ok r then Inr (py_digits_val r) else Inl ValueError)
          else if py_digits_ok (c # r) then Inr (py_digits_val (c # r)) else Inl ValueError)"

function nat_str :: "nat \<Rightarrow> string" where
  "nat_str n = (if n < 10 then [char_of (48 + n)] else nat_str (n div 10) @ [char_of (48 + n mod 10)])"
  by auto
termination by (relation "measure id") auto

definition py_str_int :: "int \<Rightarrow> string" where
  "py_str_int i = (if i < 0 then CHR ''-'' # nat_str (nat (- i)) else nat_str (nat i))"

declare nat_str.simps [simp del]

section \<open>Path names\<close>

text \<open>\<open>str.rfind\<close> of one character, and \<open>PurePath.stem\<close>: the name without its last
  suffix, where a suffix is a dot that is neither the first nor the last character.\<close>

definition last_index :: "char \<Rightarrow> string \<Rightarrow> nat option" where
  "last_index c s = (let is = filter (\<lambda>i. s ! i = c) [0..<length s] in if is = [] then None else Some (last is))"

definition py_stem :: "string \<Rightarrow> string" where
  "py_stem name =
     (case last_index CHR ''.'' name of
        Some i \<Rightarrow> if 0 < i \<and> i < length name - 1 then take i name else name
      | None \<Rightarrow> name)"

text \<open>\<open>PurePath.suffix\<close>: the last suffix of the name, the dot included, or the empty string.\<close>

definition py_suffix :: "string \<Rightarrow> string" where
  "py_suffix name =
     (case last_index CHR ''.'' name of
        Some i \<Rightarrow> if 0 < i \<and> i < length name - 1 then drop i name else []
      | None \<Rightarrow> [])"

declare py_isspace_def [py_str_simps] is_upper_ascii_def [py_str_simps]
  is_lower_ascii_def [py_str_simps] is_digit_ascii_def [py_str_simps]
  py_lower_char_def [py_str_simps] py_lower_def [py_str_simps]
  py_strip_by_def [py_str_simps] py_startswith_def [py_str_simps]
  py_find_def [py_str_simps] py_contains_def [py_str_simps] py_index_def [py_str_simps] py_slice_def [py_str_simps]
  py_split1_def [py_str_simps]

section \<open>Lemmas on the string primitives\<close>

text \<open>
  Stripping leaves no stripped character at either end, is idempotent, and cuts the string
  into a prefix and a suffix of stripped characters around its result; \<open>split\<close> and
  \<open>join\<close> are inverse; \<open>find\<close> returns the first occurrence at or after the start.
\<close>
lemma py_strip_by_ends:
  assumes "py_strip_by P s \<noteq> []"
  shows "\<not> P (hd (py_strip_by P s)) \<and> \<not> P (last (py_strip_by P s))"
proof -
  let ?t = "dropWhile P s"
  have ne: "dropWhile P (rev ?t) \<noteq> []"
    using assms unfolding py_strip_by_def by (metis rev.simps(1))
  then have t: "?t \<noteq> []" by (metis dropWhile.simps(1) rev.simps(1))
  have "\<not> P (last (py_strip_by P s))"
    using hd_dropWhile[OF ne] ne by (simp add: py_strip_by_def last_rev)
  moreover have "hd (py_strip_by P s) = hd ?t"
  proof -
    have "hd (dropWhile P (rev ?t)) \<in> set (rev ?t)"
      using ne hd_in_set set_dropWhileD by metis
    then have "last (dropWhile P (rev ?t)) = last (rev ?t)"
      using hd_dropWhile[OF ne] by (rule dropWhile_last)
    then show ?thesis using t by (simp add: py_strip_by_def hd_rev last_rev)
  qed
  ultimately show ?thesis using hd_dropWhile[OF t] by simp
qed

lemma py_strip_by_noop:
  "s = [] \<or> \<not> P (hd s) \<and> \<not> P (last s) \<Longrightarrow> py_strip_by P s = s"
  using dropWhile_eq_self_iff[of P s] dropWhile_eq_self_iff[of P "rev s"]
  by (auto simp: py_strip_by_def hd_rev)

lemma py_strip_by_idem: "py_strip_by P (py_strip_by P s) = py_strip_by P s"
  using py_strip_by_ends[of P s] by (blast intro: py_strip_by_noop)

lemma py_strip_by_set: "set (py_strip_by P s) \<subseteq> set s"
proof -
  have d: "set (dropWhile P xs) \<subseteq> set xs" for xs by (auto dest: set_dropWhileD)
  show ?thesis using d[of s] d[of "rev (dropWhile P s)"] by (simp add: py_strip_by_def)
qed

lemma py_strip_by_infix: "\<exists>a b. s = a @ py_strip_by P s @ b \<and> (\<forall>x\<in>set a. P x) \<and> (\<forall>x\<in>set b. P x)"
proof -
  let ?t = "dropWhile P s"
  have s: "s = takeWhile P s @ ?t" by simp
  have t: "rev ?t = takeWhile P (rev ?t) @ dropWhile P (rev ?t)" by simp
  hence "?t = py_strip_by P s @ rev (takeWhile P (rev ?t))"
    by (metis py_strip_by_def rev_append rev_rev_ident)
  hence "s = takeWhile P s @ py_strip_by P s @ rev (takeWhile P (rev ?t))"
    using s by simp
  moreover have "\<forall>x\<in>set (takeWhile P s). P x" by (auto dest: set_takeWhileD)
  moreover have "\<forall>x\<in>set (rev (takeWhile P (rev ?t))). P x" by (auto dest: set_takeWhileD)
  ultimately show ?thesis by blast
qed

lemma py_strip_by_length: "length (py_strip_by P s) \<le> length s"
  by (simp add: py_strip_by_def length_dropWhile_le order_trans[OF length_dropWhile_le])

lemma py_split_ne: "py_split c s \<noteq> []"
  by (induction s) (auto simp: Let_def)

lemma py_join_Cons_hd: "py_join sep ((x # w) # ws) = x # py_join sep (w # ws)"
  by (cases ws) auto

lemma py_split_join: "py_join [c] (py_split c s) = s"
proof (induction s)
  case Nil
  show ?case by simp
next
  case (Cons x xs)
  show ?case
  proof (cases "x = c")
    case True
    with Cons.IH show ?thesis using py_split_ne[of c xs]
      by (cases "py_split c xs") auto
  next
    case False
    with Cons.IH show ?thesis using py_split_ne[of c xs]
      by (cases "py_split c xs") (auto simp: Let_def py_join_Cons_hd)
  qed
qed

lemma py_split_pieces: "w \<in> set (py_split c s) \<Longrightarrow> c \<notin> set w"
proof (induction s arbitrary: w)
  case Nil
  then show ?case by simp
next
  case (Cons x xs)
  then show ?case using py_split_ne[of c xs]
    by (cases "py_split c xs") (auto simp: Let_def split: if_splits)
qed

lemma py_split_no_sep: "c \<notin> set s \<Longrightarrow> py_split c s = [s]"
  by (induction s) auto

lemma py_split_length: "length (py_split c s) = Suc (count_list s c)"
  by (induction s) (auto simp: Let_def py_split_ne)

lemma py_split1_join: "c \<in> set s \<Longrightarrow> fst (py_split1 c s) @ c # snd (py_split1 c s) = s"
  by (induction s) (auto simp: py_split1_def)

lemma py_split1_key: "c \<notin> set (fst (py_split1 c s))"
  by (auto simp: py_split1_def dest: set_takeWhileD)

lemma find_at_Some:
  "find_at sub s i = Some j \<Longrightarrow> i \<le> j \<and> take (length sub) (drop (j - i) s) = sub \<and> j - i + length sub \<le> length s
     \<and> (\<forall>k<j - i. take (length sub) (drop k s) \<noteq> sub)"
proof (induction sub s i rule: find_at.induct)
  case (1 sub i)
  then show ?case by (simp split: if_splits)
next
  case (2 sub c cs i)
  show ?case
  proof (cases "take (length sub) (c # cs) = sub")
    case True
    with "2.prems" show ?thesis by (auto dest: arg_cong[of _ _ length])
  next
    case False
    with "2.prems" have r: "find_at sub cs (Suc i) = Some j" by simp
    note IH = "2.IH"[OF False r]
    from IH have "Suc i \<le> j" by blast
    then have j: "j - i = Suc (j - Suc i)" by arith
    show ?thesis using IH False unfolding j by (auto simp: less_Suc_eq_0_disj)
  qed
qed

lemma find_at_None:
  "find_at sub s i = None \<Longrightarrow> \<forall>k\<le>length s. take (length sub) (drop k s) \<noteq> sub"
proof (induction sub s i rule: find_at.induct)
  case (1 sub i)
  then show ?case by (simp split: if_splits)
next
  case (2 sub c cs i)
  show ?case
  proof (intro allI impI)
    fix k assume k: "k \<le> length (c # cs)"
    show "take (length sub) (drop k (c # cs)) \<noteq> sub"
    proof (cases k)
      case 0
      with "2.prems" show ?thesis by (simp split: if_splits)
    next
      case (Suc k')
      with "2.prems" "2.IH" k show ?thesis by (simp split: if_splits)
    qed
  qed
qed

lemma find_at_shift: "find_at sub s (i + k) = map_option (\<lambda>j. j + k) (find_at sub s i)"
  by (induction sub s i rule: find_at.induct) auto

lemma py_find_append_start:
  "py_find (p @ s) sub (length p) = map_option (\<lambda>j. j + length p) (py_find s sub 0)"
  using find_at_shift[of sub s 0 "length p"] by (simp add: py_find_def)

lemma py_index_error: "py_index s sub st = Inl e \<Longrightarrow> e = ValueError"
  by (simp add: py_index_def split: option.splits)

lemma take_append_le: "n \<le> length xs \<Longrightarrow> take n (xs @ ys) = take n xs"
  by simp

lemma find_at_first:
  assumes "sub \<noteq> []"
    and "\<forall>k<length a. take (length sub) (drop k (a @ butlast sub)) \<noteq> sub"
  shows "find_at sub (a @ sub @ b) i = Some (i + length a)"
  using assms(2)
proof (induction a arbitrary: i)
  case Nil
  from assms(1) obtain c cs where eq: "sub @ b = c # cs" by (cases sub) auto
  have "take (length sub) (sub @ b) = sub" by simp
  then have "take (length sub) (c # cs) = sub" by (simp only: eq)
  then show ?case by (simp add: eq)
next
  case (Cons x a)
  let ?n = "length sub"
  have pre: "x # a @ sub @ b = (x # a @ butlast sub) @ [last sub] @ b"
    using assms(1) by simp
  have len: "?n \<le> length (x # a @ butlast sub)" using assms(1) by (cases sub) auto
  have "take ?n (x # a @ butlast sub) \<noteq> sub" using Cons.prems[rule_format, of 0] by simp
  moreover have "take ?n ((x # a @ butlast sub) @ [last sub] @ b) = take ?n (x # a @ butlast sub)"
    using len by (rule take_append_le)
  ultimately have ne: "take ?n (x # a @ sub @ b) \<noteq> sub" by (simp only: pre not_False_eq_True)
  have "\<forall>k<length a. take ?n (drop k (a @ butlast sub)) \<noteq> sub"
  proof (intro allI impI)
    fix k assume "k < length a"
    then show "take ?n (drop k (a @ butlast sub)) \<noteq> sub"
      using Cons.prems[rule_format, of "Suc k"] by simp
  qed
  from Cons.IH[OF this] ne show ?case by simp
qed

lemma py_contains_not_prefix:
  assumes "\<not> py_contains (a @ butlast sub) sub"
  shows "\<forall>k<length a. take (length sub) (drop k (a @ butlast sub)) \<noteq> sub"
proof -
  have "find_at sub (a @ butlast sub) 0 = None" using assms by (simp add: py_contains_def py_find_def)
  note none = find_at_None[OF this]
  show ?thesis
  proof (intro allI impI)
    fix k assume "k < length a"
    then have "k \<le> length (a @ butlast sub)" by simp
    from none[rule_format, OF this]
    show "take (length sub) (drop k (a @ butlast sub)) \<noteq> sub" .
  qed
qed

lemma py_find_first:
  "sub \<noteq> [] \<Longrightarrow> \<not> py_contains (a @ butlast sub) sub \<Longrightarrow> py_find (a @ sub @ b) sub 0 = Some (length a)"
  using find_at_first[of sub a b 0] py_contains_not_prefix[of a sub] by (simp add: py_find_def)

lemma py_contains_Nil: "py_contains [] sub \<longleftrightarrow> sub = []"
  by (simp add: py_contains_def py_find_def)

lemma py_contains_Cons:
  "py_contains (c # cs) sub \<longleftrightarrow> take (length sub) (c # cs) = sub \<or> py_contains cs sub"
  using find_at_shift[of sub cs 0 1] by (simp add: py_contains_def py_find_def)

lemma py_contains_iff: "py_contains s sub \<longleftrightarrow> (\<exists>a b. s = a @ sub @ b)"
proof
  assume "py_contains s sub"
  then obtain j where "find_at sub s 0 = Some j" by (auto simp: py_contains_def py_find_def)
  from find_at_Some[OF this]
  have "take (length sub) (drop j s) = sub" and "j + length sub \<le> length s" by auto
  then have "s = take j s @ sub @ drop (j + length sub) s"
    by (metis append_take_drop_id drop_drop add.commute)
  then show "\<exists>a b. s = a @ sub @ b" by blast
next
  assume "\<exists>a b. s = a @ sub @ b"
  then obtain a b where s: "s = a @ sub @ b" by blast
  have "py_contains (a @ sub @ b) sub"
  proof (induction a)
    case Nil
    show ?case
    proof (cases "sub @ b")
      case Nil
      then show ?thesis by (simp add: py_contains_Nil)
    next
      case (Cons y ys)
      have "take (length sub) (sub @ b) = sub" by simp
      then show ?thesis unfolding Cons by (simp add: py_contains_Cons)
    qed
  next
    case (Cons x a)
    then show ?case by (simp add: py_contains_Cons)
  qed
  then show "py_contains s sub" by (simp add: s)
qed

lemma py_contains_infix: "py_contains t sub \<Longrightarrow> py_contains (a @ t @ b) sub"
  by (auto simp: py_contains_iff) (metis append.assoc)

lemma py_startswith_iff: "py_startswith s p \<longleftrightarrow> (\<exists>b. s = p @ b)"
  by (auto simp: py_startswith_def) (metis append_take_drop_id)

section \<open>Lemmas on integers and path names\<close>

text \<open>\<open>int(str(i)) == i\<close>: printing an integer and parsing it back gives the integer.\<close>

lemma digit_char: "d < 10 \<Longrightarrow> is_digit_ascii (char_of (48 + d)) \<and> digit_val (char_of (48 + d)) = int d"
  by (auto simp: is_digit_ascii_def less_eq_char_def digit_val_def)

lemma nat_str_ne: "nat_str n \<noteq> []"
  by (subst nat_str.simps) simp

lemma nat_str_digits: "\<forall>c\<in>set (nat_str n). is_digit_ascii c"
proof (induction n rule: nat_str.induct)
  case (1 n)
  then show ?case using digit_char[of n] digit_char[of "n mod 10"]
    by (subst nat_str.simps) (auto simp: not_less)
qed

lemma py_digits_ok_all: "s \<noteq> [] \<Longrightarrow> \<forall>c\<in>set s. is_digit_ascii c \<Longrightarrow> py_digits_ok s"
proof (induction s rule: py_digits_ok.induct)
  case (3 c d r)
  have "d \<noteq> CHR ''_''" using 3(4) by (auto simp: is_digit_ascii_def less_eq_char_def)
  then show ?case using 3 by simp
qed simp_all

lemma py_digits_val_snoc:
  "is_digit_ascii c \<Longrightarrow> py_digits_val (s @ [c]) = 10 * py_digits_val s + digit_val c"
  by (simp add: py_digits_val_def)

lemma py_digits_val_nat_str: "py_digits_val (nat_str n) = int n"
proof (induction n rule: nat_str.induct)
  case (1 n)
  show ?case
  proof (cases "n < 10")
    case True
    then show ?thesis using digit_char[of n]
      by (subst nat_str.simps) (simp add: py_digits_val_def)
  next
    case False
    then have "py_digits_val (nat_str n) = 10 * int (n div 10) + int (n mod 10)"
      using 1 digit_char[of "n mod 10"] by (subst nat_str.simps) (simp add: py_digits_val_snoc)
    moreover have "int n = int (10 * (n div 10) + n mod 10)" by simp
    ultimately show ?thesis by (simp only: of_nat_add of_nat_mult)
  qed
qed

lemma digit_not_space: "is_digit_ascii c \<Longrightarrow> \<not> py_isspace c \<and> c \<noteq> CHR ''-'' \<and> c \<noteq> CHR ''+''"
  by (auto simp: is_digit_ascii_def py_isspace_def less_eq_char_def)

lemma py_int_nat_str: "py_int (nat_str n) = Inr (int n)"
proof -
  obtain c r where cr: "nat_str n = c # r" using nat_str_ne by (meson neq_Nil_conv)
  have dg: "\<forall>c\<in>set (nat_str n). is_digit_ascii c" by (rule nat_str_digits)
  then have "py_strip (nat_str n) = nat_str n"
    using digit_not_space nat_str_ne by (intro py_strip_by_noop) auto
  moreover have "c \<noteq> CHR ''-'' \<and> c \<noteq> CHR ''+''" using dg cr digit_not_space by auto
  ultimately show ?thesis
    using cr py_digits_ok_all[OF nat_str_ne dg] py_digits_val_nat_str[of n] by (simp add: py_int_def)
qed

lemma py_int_py_str_int: "py_int (py_str_int i) = Inr i"
proof (cases "i < 0")
  case True
  have dg: "\<forall>c\<in>set (nat_str (nat (- i))). is_digit_ascii c" by (rule nat_str_digits)
  have "last (CHR ''-'' # nat_str (nat (- i))) \<in> set (nat_str (nat (- i)))"
    using nat_str_ne by simp
  then have "py_strip (CHR ''-'' # nat_str (nat (- i))) = CHR ''-'' # nat_str (nat (- i))"
    using dg digit_not_space by (intro py_strip_by_noop) (auto simp: py_isspace_def)
  then show ?thesis
    using True py_digits_ok_all[OF nat_str_ne dg] py_digits_val_nat_str[of "nat (- i)"]
    by (simp add: py_int_def py_str_int_def)
next
  case False
  then show ?thesis using py_int_nat_str[of "nat i"] by (simp add: py_str_int_def)
qed

lemma py_int_examples:
  "py_int ''  42 '' = Inr 42 \<and> py_int ''1_000'' = Inr 1000 \<and> py_int ''+7'' = Inr 7 \<and>
   py_int ''-3'' = Inr (-3) \<and> py_int ''4.0'' = Inl ValueError \<and> py_int ''1__0'' = Inl ValueError \<and>
   py_int ''_1'' = Inl ValueError \<and> py_int [] = Inl ValueError \<and> py_str_int (-120) = ''-120''"
  by code_simp

lemma py_stem_suffix: "py_stem name @ py_suffix name = name"
  by (auto simp: py_stem_def py_suffix_def split: option.splits)

declare py_strip_by_idem [simp] py_split_ne [simp] py_split_join [simp]

end
