(* ===== verification/Frontmatter.thy ===== *)
theory Frontmatter
  imports Prelude "HOL-Library.AList"
begin

text \<open>
  The Metadata Block Parser: \<open>BlogGenerator.parse_post_metadata\<close>
  (src/outputs/06-markdown-blog-generator/blog_generator.py, lines 16--45).

  The source builds a Python \<open>dict\<close> of four defaults and assigns \<open>metadata[key] = value\<close>
  for every \<open>key: value\<close> line of the header. The dict is modelled as an association list
  updated by \<open>AList.update\<close>, which replaces a present key in place and appends a new one,
  as dict assignment does; its values are strings or, under the key \<open>tags\<close>, lists of
  strings (\<open>mvalue\<close>). \<open>datetime.now()\<close> is the parameter \<open>today\<close>. The
  \<open>try\<close>/\<open>except ValueError\<close> around \<open>content.index('---', 3)\<close> is the case split on
  \<open>py_index\<close>; any other exception would propagate, hence the result type
  \<open>py_error + metadata \<times> string\<close>.

  Lemmas: the typing invariant \<open>meta_wf\<close> (distinct keys, \<open>tags\<close> and only \<open>tags\<close> a
  list, the four defaults present) holds for every result; the parser never raises; and its
  behaviour on the three shapes of input (no header, unterminated header, header), with the
  lookup semantics of one header line.
\<close>

text \<open>A value of the metadata dict: a \<open>str\<close>, or the \<open>list\<close> of tags.\<close>

datatype mvalue = MStr string | MList "string list"

type_synonym metadata = "(string \<times> mvalue) list"

fun is_mlist :: "mvalue \<Rightarrow> bool" where
  "is_mlist (MList _) = True"
| "is_mlist (MStr _) = False"

definition default_metadata :: "string \<Rightarrow> metadata" where
  "default_metadata today =
     [(''title'', MStr ''Untitled''), (''date'', MStr today), (''tags'', MList []),
      (''author'', MStr ''Anonymous'')]"

text \<open>The characters of the value's second \<open>strip\<close> (line 36): the straight double and single quote.\<close>

definition is_quote :: "char \<Rightarrow> bool" where
  "is_quote c \<longleftrightarrow> c = CHR 0x22 \<or> c = CHR 0x27"

text \<open>One iteration of \<open>for line in frontmatter.split('\\n')\<close> (lines 32--41).\<close>

definition parse_header_line :: "metadata \<Rightarrow> string \<Rightarrow> metadata" where
  "parse_header_line m line =
     (if CHR '':'' \<in> set line then
        (let (k, v) = py_split1 CHR '':'' line;
             key = py_strip k;
             value = py_strip_by is_quote (py_strip v)
         in if key = ''tags'' then AList.update key (MList (map py_strip (py_split CHR '','' value))) m
            else AList.update key (MStr value) m)
      else m)"

definition parse_frontmatter :: "string \<Rightarrow> metadata \<Rightarrow> metadata" where
  "parse_frontmatter fm m = fold (\<lambda>line md. parse_header_line md line) (py_split CHR 0x0A fm) m"

definition parse_post_metadata :: "string \<Rightarrow> string \<Rightarrow> py_error + metadata \<times> string" where
  "parse_post_metadata today content =
     (let metadata = default_metadata today in
      if py_startswith content ''---'' then
        (case py_index content ''---'' 3 of
           Inl ValueError \<Rightarrow> Inr (metadata, content)
         | Inl e \<Rightarrow> Inl e
         | Inr end_index \<Rightarrow>
             Inr (parse_frontmatter (py_strip (py_slice content 3 end_index)) metadata,
                  py_strip (drop (end_index + 3) content)))
      else Inr (metadata, content))"

text \<open>The typing invariant of the metadata dict.\<close>

definition meta_wf :: "metadata \<Rightarrow> bool" where
  "meta_wf m \<longleftrightarrow> distinct (map fst m) \<and> (\<forall>(k, v)\<in>set m. (k = ''tags'') = is_mlist v)
     \<and> set [''title'', ''date'', ''tags'', ''author''] \<subseteq> fst ` set m"

section \<open>Lemmas\<close>

lemma update_set_sub: "set (AList.update k v al) \<subseteq> insert (k, v) (set al)"
  by (induction al) auto

lemma meta_wf_default: "meta_wf (default_metadata today)"
  by (simp add: meta_wf_def default_metadata_def)

lemma meta_wf_update: "meta_wf m \<Longrightarrow> (k = ''tags'') = is_mlist v \<Longrightarrow> meta_wf (AList.update k v m)"
  using update_set_sub[of k v m] by (auto simp: meta_wf_def distinct_update dom_update)

lemma parse_header_line_wf: "meta_wf m \<Longrightarrow> meta_wf (parse_header_line m line)"
  by (auto simp: parse_header_line_def Let_def split: prod.splits intro!: meta_wf_update)

lemma fold_header_lines_wf:
  "meta_wf m \<Longrightarrow> meta_wf (fold (\<lambda>line md. parse_header_line md line) ls m)"
  by (induction ls arbitrary: m) (simp_all add: parse_header_line_wf)

lemma parse_frontmatter_wf: "meta_wf m \<Longrightarrow> meta_wf (parse_frontmatter fm m)"
  by (simp add: parse_frontmatter_def fold_header_lines_wf)

lemma parse_post_metadata_cases:
  "parse_post_metadata today c = Inr (m, b) \<Longrightarrow>
     m = default_metadata today \<or> (\<exists>fm. m = parse_frontmatter fm (default_metadata today))"
  by (auto simp: parse_post_metadata_def Let_def split: if_splits sum.splits py_error.splits)

lemma parse_post_metadata_meta_wf:
  "parse_post_metadata today c = Inr (m, b) \<Longrightarrow> meta_wf m"
  using parse_post_metadata_cases[of today c m b] meta_wf_default parse_frontmatter_wf by blast

lemma meta_wf_lookup_str:
  assumes "meta_wf m" "k \<in> {''title'', ''date'', ''author''}"
  shows "\<exists>s. map_of m k = Some (MStr s)"
proof -
  from assms have "k \<in> fst ` set m" by (auto simp: meta_wf_def)
  then obtain v where v: "map_of m k = Some v" by (cases "map_of m k") (auto simp: map_of_eq_None_iff)
  then have "(k, v) \<in> set m" by (rule map_of_SomeD)
  with assms have "\<not> is_mlist v" by (auto simp: meta_wf_def)
  with v show ?thesis by (cases v) auto
qed

lemma meta_wf_lookup_tags:
  assumes "meta_wf m"
  shows "\<exists>ts. map_of m ''tags'' = Some (MList ts)"
proof -
  from assms have "''tags'' \<in> fst ` set m" by (auto simp: meta_wf_def)
  then obtain v where v: "map_of m ''tags'' = Some v"
    by (cases "map_of m ''tags''") (auto simp: map_of_eq_None_iff)
  then have "(''tags'', v) \<in> set m" by (rule map_of_SomeD)
  with assms have "is_mlist v" by (auto simp: meta_wf_def)
  with v show ?thesis by (cases v) auto
qed

text \<open>C5: every metadata dict the parser returns is well typed: distinct keys, the four default keys present, \<open>tags\<close> (and no other key) a list.\<close>

theorem parse_post_metadata_wf:
  assumes "parse_post_metadata today c = Inr (m, b)"
  shows "meta_wf m \<and> (\<exists>t d a ts. map_of m ''title'' = Some (MStr t) \<and> map_of m ''date'' = Some (MStr d)
           \<and> map_of m ''author'' = Some (MStr a) \<and> map_of m ''tags'' = Some (MList ts))"
proof -
  have wf: "meta_wf m" using assms by (rule parse_post_metadata_meta_wf)
  show ?thesis
    using wf meta_wf_lookup_str[OF wf, of "''title''"] meta_wf_lookup_str[OF wf, of "''date''"]
      meta_wf_lookup_str[OF wf, of "''author''"] meta_wf_lookup_tags[OF wf] by auto
qed

text \<open>C4: the parser never raises: on every input it returns metadata and a body.\<close>

theorem parse_post_metadata_total: "\<exists>m b. parse_post_metadata today c = Inr (m, b)"
  by (auto simp: parse_post_metadata_def Let_def split: sum.splits py_error.splits
      dest: py_index_error)

text \<open>C1: a document that does not start with \<open>---\<close> is returned unchanged as the body, with all-default metadata.\<close>

theorem parse_no_header:
  "\<not> py_startswith c ''---'' \<Longrightarrow> parse_post_metadata today c = Inr (default_metadata today, c)"
  by (simp add: parse_post_metadata_def)

lemma py_index_after_delim:
  "py_index (''---'' @ rest) ''---'' 3 = (case py_find rest ''---'' 0 of None \<Rightarrow> Inl ValueError | Some i \<Rightarrow> Inr (i + 3))"
proof -
  have "py_find (''---'' @ rest) ''---'' 3 = map_option (\<lambda>j. j + 3) (py_find rest ''---'' 0)"
    using py_find_append_start[of "''---''" rest "''---''"] by (simp add: eval_nat_numeral)
  then show ?thesis by (simp add: py_index_def split: option.splits)
qed

text \<open>C2: a document that starts with \<open>---\<close> but has no closing \<open>---\<close> does not raise: the metadata is all-default and the body is the whole original text, the unterminated delimiter included (option (a) of the spec).\<close>

theorem parse_unterminated:
  "\<not> py_contains rest ''---'' \<Longrightarrow>
   parse_post_metadata today (''---'' @ rest) = Inr (default_metadata today, ''---'' @ rest)"
proof -
  assume "\<not> py_contains rest ''---''"
  then have i: "py_index (''---'' @ rest) ''---'' 3 = Inl ValueError"
    using py_index_after_delim[of rest] by (simp add: py_contains_def)
  show ?thesis unfolding parse_post_metadata_def Let_def i by (simp add: py_startswith_def)
qed

text \<open>C3: when the first \<open>---\<close> after offset 3 closes a header \<open>h\<close>, the metadata is the defaults updated by the lines of the stripped \<open>h\<close>, and the body is the stripped text after the closing delimiter.\<close>

theorem parse_header:
  assumes "\<not> py_contains (h @ ''--'') ''---''"
  shows "parse_post_metadata today (''---'' @ h @ ''---'' @ rest) =
           Inr (parse_frontmatter (py_strip h) (default_metadata today), py_strip rest)"
proof -
  have "py_find (h @ ''---'' @ rest) ''---'' 0 = Some (length h)"
    using py_find_first[of "''---''" h rest] assms by simp
  then have i: "py_index (''---'' @ h @ ''---'' @ rest) ''---'' 3 = Inr (length h + 3)"
    using py_index_after_delim[of "h @ ''---'' @ rest"] by simp
  show ?thesis unfolding parse_post_metadata_def Let_def i
    by (simp add: py_startswith_def py_slice_def eval_nat_numeral)
qed

text \<open>C6: a header line \<open>k:v\<close> (first colon) sets the stripped key \<open>k\<close> to the stripped, quote-stripped value, split on commas into stripped tags when the key is \<open>tags\<close>; every other key keeps its value, so unknown keys are stored verbatim.\<close>

theorem parse_header_line_lookup:
  assumes "CHR '':'' \<notin> set k"
  shows "map_of (parse_header_line m (k @ CHR '':'' # v)) k' =
           (if k' = py_strip k then
              Some (if k' = ''tags''
                    then MList (map py_strip (py_split CHR '','' (py_strip_by is_quote (py_strip v))))
                    else MStr (py_strip_by is_quote (py_strip v)))
            else map_of m k')"
proof -
  have "py_split1 CHR '':'' (k @ CHR '':'' # v) = (k, v)"
    using assms by (simp add: py_split1_def takeWhile_append dropWhile_append)
  then show ?thesis using assms by (auto simp: parse_header_line_def update_conv')
qed

theorem parse_header_line_no_colon: "CHR '':'' \<notin> set line \<Longrightarrow> parse_header_line m line = m"
  by (simp add: parse_header_line_def)

lemma header_value_unquoted_step:
  assumes "\<forall>k s. map_of m k = Some (MStr s) \<longrightarrow> s = today \<or> s = [] \<or> \<not> is_quote (hd s) \<and> \<not> is_quote (last s)"
  shows "\<forall>k s. map_of (parse_header_line m line) k = Some (MStr s) \<longrightarrow>
           s = today \<or> s = [] \<or> \<not> is_quote (hd s) \<and> \<not> is_quote (last s)"
  using assms py_strip_by_ends[of is_quote]
  by (auto simp: parse_header_line_def update_conv' Let_def split: prod.splits if_splits)

lemma fold_header_value_unquoted:
  assumes "\<forall>k s. map_of m k = Some (MStr s) \<longrightarrow> s = today \<or> s = [] \<or> \<not> is_quote (hd s) \<and> \<not> is_quote (last s)"
  shows "\<forall>k s. map_of (fold (\<lambda>line md. parse_header_line md line) ls m) k = Some (MStr s) \<longrightarrow>
           s = today \<or> s = [] \<or> \<not> is_quote (hd s) \<and> \<not> is_quote (last s)"
  using assms
proof (induction ls arbitrary: m)
  case (Cons l ls)
  then show ?case using header_value_unquoted_step[OF Cons.prems, of l] by simp
qed simp

text \<open>C7: the quote strip \<open>strip('"\'')\<close> removes every layer of straight quotes, of either
  kind and unmatched, not one layer as the spec says: no string value of any metadata the
  parser returns, the default date apart, starts or ends with a quote character.\<close>

theorem metadata_values_unquoted:
  assumes "parse_post_metadata today c = Inr (m, b)" and "map_of m k = Some (MStr s)" and "s \<noteq> today"
  shows "s = [] \<or> \<not> is_quote (hd s) \<and> \<not> is_quote (last s)"
proof -
  have d: "\<forall>k s. map_of (default_metadata today) k = Some (MStr s) \<longrightarrow>
             s = today \<or> s = [] \<or> \<not> is_quote (hd s) \<and> \<not> is_quote (last s)"
    by (simp add: default_metadata_def is_quote_def)
  have "m = default_metadata today \<or> (\<exists>fm. m = parse_frontmatter fm (default_metadata today))"
    by (rule parse_post_metadata_cases[OF assms(1)])
  then show ?thesis
  proof
    assume "m = default_metadata today"
    then show ?thesis using d assms(2,3) by blast
  next
    assume "\<exists>fm. m = parse_frontmatter fm (default_metadata today)"
    then obtain fm where "m = fold (\<lambda>line md. parse_header_line md line) (py_split CHR 0x0A fm) (default_metadata today)"
      by (auto simp: parse_frontmatter_def)
    then show ?thesis using fold_header_value_unquoted[OF d, of "py_split CHR 0x0A fm"] assms(2,3) by blast
  qed
qed

text \<open>Witnesses: the hypotheses of the claims above hold at concrete documents.\<close>

theorem parse_no_header_witness:
  "\<not> py_startswith ''Body'' ''---'' \<and>
   parse_post_metadata ''2024-01-01'' ''Body'' = Inr (default_metadata ''2024-01-01'', ''Body'')"
  using parse_no_header[of "''Body''" "''2024-01-01''"] by (simp add: py_startswith_def)

theorem parse_unterminated_witness:
  "\<not> py_contains ''\<newline>title: A\<newline>Body'' ''---'' \<and>
   parse_post_metadata ''2024-01-01'' ''---\<newline>title: A\<newline>Body'' =
     Inr (default_metadata ''2024-01-01'', ''---\<newline>title: A\<newline>Body'')"
  using parse_unterminated[of "''\<newline>title: A\<newline>Body''" "''2024-01-01''"]
  by (simp add: py_contains_def py_find_def)

theorem parse_header_witness:
  "\<not> py_contains ''\<newline>title: A\<newline>--'' ''---'' \<and>
   parse_post_metadata ''2024-01-01'' ''---\<newline>title: A\<newline>---\<newline>Body'' =
     Inr (parse_frontmatter ''title: A'' (default_metadata ''2024-01-01''), ''Body'')"
  using parse_header[of "''\<newline>title: A\<newline>''" "''2024-01-01''" "''\<newline>Body''"]
  by (simp add: py_contains_def py_find_def py_strip_by_def py_isspace_def)

theorem parse_post_metadata_wf_witness:
  "parse_post_metadata ''2024-01-01'' ''---\<newline>x: 1\<newline>---\<newline>B'' =
     Inr ([(''title'', MStr ''Untitled''), (''date'', MStr ''2024-01-01''), (''tags'', MList []),
           (''author'', MStr ''Anonymous''), (''x'', MStr ''1'')], ''B'') \<and>
   meta_wf [(''title'', MStr ''Untitled''), (''date'', MStr ''2024-01-01''), (''tags'', MList []),
           (''author'', MStr ''Anonymous''), (''x'', MStr ''1'')]"
proof -
  have p: "parse_post_metadata ''2024-01-01'' ''---\<newline>x: 1\<newline>---\<newline>B'' =
     Inr ([(''title'', MStr ''Untitled''), (''date'', MStr ''2024-01-01''), (''tags'', MList []),
           (''author'', MStr ''Anonymous''), (''x'', MStr ''1'')], ''B'')"
    by (simp add: parse_post_metadata_def parse_frontmatter_def parse_header_line_def
        default_metadata_def is_quote_def py_str_simps)
  show ?thesis using p parse_post_metadata_wf[OF p] by blast
qed

theorem parse_header_line_lookup_witness:
  "CHR '':'' \<notin> set '' tags'' \<and>
   map_of (parse_header_line (default_metadata ''d'') ('' tags'' @ CHR '':'' # '' a, b'')) ''tags'' =
     Some (MList [''a'', ''b''])"
  using parse_header_line_lookup[of "'' tags''" "default_metadata ''d''" "'' a, b''" "''tags''"]
  by (simp add: is_quote_def py_str_simps)

theorem metadata_values_unquoted_witness:
  "map_of (fst (projr (parse_post_metadata ''2024-01-01'' (''---'' @ CHR 0x0A # ''title: \"'A'\"'' @ CHR 0x0A # ''---Body''))))
      ''title'' = Some (MStr ''A'') \<and> \<not> is_quote (hd ''A'') \<and> \<not> is_quote (last ''A'')"
proof -
  have p: "parse_post_metadata ''2024-01-01'' (''---'' @ CHR 0x0A # ''title: \"'A'\"'' @ CHR 0x0A # ''---Body'') =
      Inr ([(''title'', MStr ''A''), (''date'', MStr ''2024-01-01''), (''tags'', MList []),
            (''author'', MStr ''Anonymous'')], ''Body'')"
    by code_simp
  have "''A'' = [] \<or> \<not> is_quote (hd ''A'') \<and> \<not> is_quote (last ''A'')"
    by (rule metadata_values_unquoted[OF p, of "''title''"]) simp_all
  then show ?thesis using p by simp
qed

end
