(* ===== verification/Slug.thy ===== *)
theory Slug
  imports Prelude
begin

text \<open>
  The Slug Deriver: \<open>BlogGenerator.generate_slug\<close>
  (src/outputs/06-markdown-blog-generator/blog_generator.py, lines 47--51):
  \<^verbatim>\<open>
  slug = re.sub(r'[^\w\s-]', '', title.lower())
  slug = re.sub(r'[-\s]+', '-', slug)
  return slug.strip('-')
  \<close>
  The first substitution keeps the characters of the class \<open>[\w\s-]\<close> (\<open>slug_keep\<close>),
  the second replaces each maximal run of \<open>[-\s]\<close> by one hyphen (\<open>collapse_runs\<close>, a
  loop whose termination is by the length of the string), the last strips hyphens at both
  ends. \<open>\w\<close> and \<open>\s\<close> are their ASCII members (\<open>is_word_char\<close>,
  \<open>py_isspace\<close>).

  Lemmas: the output always has the shape of a slug (\<open>slug_shape\<close>: only \<open>[a-z0-9_-]\<close>,
  no hyphen at either end, no two adjacent hyphens), the slug-shaped strings are exactly the
  fixpoints of \<open>generate_slug\<close>, hence it is idempotent; and the spec's examples.
\<close>

text \<open>\<open>\w\<close> on ASCII: letters, digits and the underscore.\<close>

definition is_word_char :: "char \<Rightarrow> bool" where
  "is_word_char c \<longleftrightarrow> is_lower_ascii c \<or> is_upper_ascii c \<or> is_digit_ascii c \<or> c = CHR ''_''"

text \<open>The complement of the class \<open>[^\w\s-]\<close> that the first \<open>re.sub\<close> deletes.\<close>

definition slug_keep :: "char \<Rightarrow> bool" where
  "slug_keep c \<longleftrightarrow> is_word_char c \<or> py_isspace c \<or> c = CHR ''-''"

text \<open>The class \<open>[-\s]\<close> of the second \<open>re.sub\<close>.\<close>

definition is_sep :: "char \<Rightarrow> bool" where
  "is_sep c \<longleftrightarrow> c = CHR ''-'' \<or> py_isspace c"

text \<open>\<open>re.sub(r'[-\s]+', '-', s)\<close>: the leftmost-longest run of separators is replaced,
  and the scan resumes after it.\<close>

function collapse_runs :: "string \<Rightarrow> string" where
  "collapse_runs [] = []"
| "collapse_runs (c # cs) =
     (if is_sep c then CHR ''-'' # collapse_runs (dropWhile is_sep cs) else c # collapse_runs cs)"
  by pat_completeness auto
termination
  by (relation "measure length") (auto simp: le_imp_less_Suc length_dropWhile_le)

definition generate_slug :: "string \<Rightarrow> string" where
  "generate_slug title =
     (let slug = filter slug_keep (py_lower title);
          slug = collapse_runs slug
      in py_strip_by (\<lambda>c. c = CHR ''-'') slug)"

text \<open>The shape of a slug: the characters that survive, no hyphen at either end, no
  \<open>--\<close> (Python: \<open>s.startswith('-')\<close>, \<open>s.endswith('-')\<close>, \<open>'--' in s\<close>).\<close>

definition slug_char :: "char \<Rightarrow> bool" where
  "slug_char c \<longleftrightarrow> is_lower_ascii c \<or> is_digit_ascii c \<or> c = CHR ''_'' \<or> c = CHR ''-''"

definition slug_shape :: "string \<Rightarrow> bool" where
  "slug_shape s \<longleftrightarrow> list_all slug_char s \<and> \<not> py_startswith s ''-'' \<and> \<not> py_endswith s ''-''
     \<and> \<not> py_contains s ''--''"

section \<open>Lemmas\<close>

lemma is_upper_ascii_iff: "is_upper_ascii c \<longleftrightarrow> 65 \<le> (of_char c :: nat) \<and> (of_char c :: nat) \<le> 90"
  by (simp add: is_upper_ascii_def less_eq_char_def)

lemma is_lower_ascii_iff: "is_lower_ascii c \<longleftrightarrow> 97 \<le> (of_char c :: nat) \<and> (of_char c :: nat) \<le> 122"
  by (simp add: is_lower_ascii_def less_eq_char_def)

lemma is_digit_ascii_iff: "is_digit_ascii c \<longleftrightarrow> 48 \<le> (of_char c :: nat) \<and> (of_char c :: nat) \<le> 57"
  by (simp add: is_digit_ascii_def less_eq_char_def)

lemma py_lower_char_upper: "is_upper_ascii c \<Longrightarrow> is_lower_ascii (py_lower_char c)"
  by (simp add: py_lower_char_def is_upper_ascii_iff is_lower_ascii_iff)

lemma py_lower_char_not_upper: "\<not> is_upper_ascii (py_lower_char c)"
  by (auto simp: py_lower_char_def is_upper_ascii_iff)

lemma slug_char_not_upper: "slug_char c \<Longrightarrow> \<not> is_upper_ascii c"
  by (auto simp: slug_char_def is_upper_ascii_iff is_lower_ascii_iff is_digit_ascii_iff)

lemma slug_char_not_space: "slug_char c \<Longrightarrow> \<not> py_isspace c"
  by (auto simp: slug_char_def py_isspace_def is_lower_ascii_iff is_digit_ascii_iff)

lemma slug_char_keep: "slug_char c \<Longrightarrow> slug_keep c"
  by (auto simp: slug_char_def slug_keep_def is_word_char_def)

lemma py_startswith_single: "py_startswith s [c] \<longleftrightarrow> s \<noteq> [] \<and> hd s = c"
  by (cases s) (auto simp: py_startswith_def)

lemma py_endswith_single: "py_endswith s [c] \<longleftrightarrow> s \<noteq> [] \<and> last s = c"
  by (cases s rule: rev_cases) (auto simp: py_endswith_def py_startswith_def)

lemma set_collapse_runs: "set (collapse_runs s) \<subseteq> insert (CHR ''-'') {c \<in> set s. \<not> is_sep c}"
proof (induction s rule: collapse_runs.induct)
  case 1
  then show ?case by simp
next
  case (2 c cs)
  then show ?case by (auto dest: set_dropWhileD)
qed

lemma collapse_runs_no_double: "\<not> py_contains (collapse_runs s) ''--''"
proof (induction s rule: collapse_runs.induct)
  case 1
  then show ?case by (simp add: py_contains_Nil)
next
  case (2 c cs)
  show ?case
  proof (cases "is_sep c")
    case True
    let ?t = "dropWhile is_sep cs"
    have IH: "\<not> py_contains (collapse_runs ?t) ''--''" using "2.IH"(1) True .
    have "take 2 (CHR ''-'' # collapse_runs ?t) \<noteq> ''--''"
    proof (cases ?t)
      case Nil
      show ?thesis unfolding Nil by simp
    next
      case (Cons d ds)
      have "\<not> is_sep d" using hd_dropWhile[of is_sep cs] Cons by simp
      then show ?thesis using Cons by (simp add: is_sep_def)
    qed
    with IH True show ?thesis by (simp add: py_contains_Cons)
  next
    case False
    with "2.IH"(2) show ?thesis by (simp add: py_contains_Cons is_sep_def)
  qed
qed

lemma collapse_runs_id:
  "\<forall>c\<in>set s. \<not> py_isspace c \<Longrightarrow> \<not> py_contains s ''--'' \<Longrightarrow> collapse_runs s = s"
proof (induction s rule: collapse_runs.induct)
  case 1
  then show ?case by simp
next
  case (2 c cs)
  have cs: "\<not> py_contains cs ''--''" using "2.prems"(2) by (simp add: py_contains_Cons)
  show ?case
  proof (cases "is_sep c")
    case True
    then have c: "c = CHR ''-''" using "2.prems"(1) by (simp add: is_sep_def)
    have "cs = [] \<or> \<not> is_sep (hd cs)"
      using "2.prems" c by (cases cs) (auto simp: py_contains_Cons is_sep_def)
    then have d: "dropWhile is_sep cs = cs" by (auto simp: dropWhile_eq_self_iff)
    from "2.IH"(1)[OF True] "2.prems"(1) cs have "collapse_runs cs = cs" by (simp add: d)
    with True c d show ?thesis by simp
  next
    case False
    with "2.IH"(2) "2.prems"(1) cs show ?thesis by simp
  qed
qed

lemma generate_slug_shape: "slug_shape (generate_slug t)"
proof -
  let ?F = "filter slug_keep (py_lower t)"
  let ?R = "collapse_runs ?F"
  let ?P = "\<lambda>c. c = CHR ''-''"
  have s: "generate_slug t = py_strip_by ?P ?R" by (simp add: generate_slug_def)
  have F: "\<forall>c\<in>set ?F. slug_keep c \<and> \<not> is_upper_ascii c"
    by (auto simp: py_lower_def py_lower_char_not_upper)
  have "\<forall>c\<in>set ?R. slug_char c"
  proof
    fix c assume "c \<in> set ?R"
    then have "c = CHR ''-'' \<or> c \<in> set ?F \<and> \<not> is_sep c" using set_collapse_runs by blast
    with F show "slug_char c"
      by (auto simp: slug_char_def slug_keep_def is_word_char_def is_sep_def)
  qed
  then have chars: "list_all slug_char (generate_slug t)"
    using py_strip_by_set[of ?P ?R] by (auto simp: s list_all_iff)
  have ends: "\<not> py_startswith (generate_slug t) ''-'' \<and> \<not> py_endswith (generate_slug t) ''-''"
    using py_strip_by_ends[of ?P ?R] by (auto simp: s py_startswith_single py_endswith_single)
  obtain a b where "?R = a @ py_strip_by ?P ?R @ b" using py_strip_by_infix by blast
  then have "\<not> py_contains (generate_slug t) ''--''"
    using collapse_runs_no_double[of ?F] py_contains_infix by (metis s)
  with chars ends show ?thesis by (simp add: slug_shape_def py_endswith_def)
qed

lemma generate_slug_fixpoint: "slug_shape s \<Longrightarrow> generate_slug s = s"
proof -
  assume sh: "slug_shape s"
  then have chars: "\<forall>c\<in>set s. slug_char c" by (simp add: slug_shape_def list_all_iff)
  have "py_lower s = s"
    using chars slug_char_not_upper by (auto simp: py_lower_def py_lower_char_def intro: map_idI)
  moreover have "filter slug_keep s = s" using chars slug_char_keep by simp
  moreover have "collapse_runs s = s"
    using chars slug_char_not_space sh by (auto simp: slug_shape_def intro: collapse_runs_id)
  moreover have "py_strip_by (\<lambda>c. c = CHR ''-'') s = s"
    using sh by (intro py_strip_by_noop)
      (auto simp: slug_shape_def py_startswith_single py_endswith_single)
  ultimately show ?thesis by (simp add: generate_slug_def)
qed

lemma generate_slug_no_slash: "CHR ''/'' \<notin> set (generate_slug t)"
proof -
  have "set (generate_slug t) \<subseteq> insert (CHR ''-'') (set (filter slug_keep (py_lower t)))"
    using set_collapse_runs py_strip_by_set by (fastforce simp: generate_slug_def Let_def)
  moreover have "\<not> slug_keep (CHR ''/'')"
    by (simp add: slug_keep_def is_word_char_def is_lower_ascii_iff is_upper_ascii_iff
        is_digit_ascii_iff py_isspace_def)
  ultimately show ?thesis by auto
qed

text \<open>C8: slug derivation is idempotent: deriving a slug from a slug returns it unchanged.\<close>

theorem generate_slug_idempotent: "generate_slug (generate_slug t) = generate_slug t"
  by (rule generate_slug_fixpoint[OF generate_slug_shape])

text \<open>C9: a string is left unchanged by slug derivation exactly when it has the shape of a slug (characters in \<open>[a-z0-9_-]\<close>, no hyphen at either end, no two adjacent hyphens); in particular every slug has that shape.\<close>

theorem generate_slug_fixpoint_iff: "generate_slug s = s \<longleftrightarrow> slug_shape s"
  using generate_slug_shape[of s] generate_slug_fixpoint[of s] by auto

text \<open>Witness: a slug-shaped string, and one that is not.\<close>

theorem generate_slug_fixpoint_iff_witness:
  "generate_slug ''a-b_1'' = ''a-b_1'' \<and> slug_shape ''a-b_1'' \<and>
   generate_slug ''A--b'' \<noteq> ''A--b'' \<and> \<not> slug_shape ''A--b''"
proof -
  have a: "generate_slug ''a-b_1'' = ''a-b_1''" by code_simp
  have b: "generate_slug ''A--b'' \<noteq> ''A--b''" by code_simp
  show ?thesis using a b generate_slug_fixpoint_iff[of "''a-b_1''"] generate_slug_fixpoint_iff[of "''A--b''"]
    by simp
qed

end
