(* ===== verification/Posts.thy ===== *)
theory Posts
  imports Frontmatter Slug
begin

text \<open>
  The Post Assembler and the Post Collection Pipeline: the loop body and the rest of
  \<open>BlogGenerator.process_posts\<close> (src/outputs/06-markdown-blog-generator/blog_generator.py,
  lines 53--100), with the generator's state from \<open>__init__\<close> (lines 11--14).

  The generator is the record \<open>blog_generator\<close>; \<open>process_posts\<close> returns it updated,
  with the list of messages the code prints (\<open>event\<close>). The source directory is what
  \<open>exists()\<close> and \<open>glob('*.md')\<close> see: whether it exists and its entries in listing
  order, each with the outcome of \<open>open(...).read()\<close>. The Markdown converter is a
  parameter that returns HTML or raises. A post is the record of the seven keys of the
  source's post dict. \<open>self.posts.sort(key=..., reverse=True)\<close> is CPython's stable sort
  with reversal: reverse the list, sort stably, reverse again (\<open>sort_posts_desc\<close>).

  Lemmas: assembly fails exactly by a read or conversion error (the metadata lookups never
  raise, by the typing invariant of the parser); an assembled post carries the parsed fields,
  the slug of its title and the stem of its file; the pipeline processes every file on its
  own, accumulates the successes in order and reports every failure once, then sorts; the
  sort is the unique stable descending sort by the date string.
\<close>

text \<open>The post dict built at lines 83--91.\<close>

record post =
  title :: string
  date :: string
  author :: string
  tags :: "string list"
  slug :: string
  content :: string
  filename :: string

text \<open>A directory entry matched by \<open>glob\<close>: its name and the outcome of reading it.\<close>

record source_file =
  file_name :: string
  read_result :: "py_error + string"

record source_dir =
  dir_exists :: bool
  dir_entries :: "source_file list"

text \<open>The attributes of \<open>BlogGenerator\<close>.\<close>

record blog_generator =
  source_dir :: string
  output_dir :: string
  posts :: "post list"

type_synonym converter = "string \<Rightarrow> py_error + string"

text \<open>The messages printed by \<open>process_posts\<close> (lines 56--97) and by
  \<open>generate_blog\<close> (lines 387--411), in order.\<close>

datatype event =
    SourceMissing string
  | NoMarkdownFiles string
  | FoundFiles nat
  | Processed string
  | ProcessingError string py_error
  | Starting
  | NoPosts
  | GeneratingPostPages
  | GeneratingIndex
  | GeneratingCss
  | Generated string nat

definition init_generator :: "string \<Rightarrow> string \<Rightarrow> blog_generator" where
  "init_generator src out = \<lparr>source_dir = src, output_dir = out, posts = []\<rparr>"

text \<open>The pattern \<open>*.md\<close> of \<open>glob\<close> on a name (POSIX: case-sensitive).\<close>

definition is_markdown_name :: "string \<Rightarrow> bool" where
  "is_markdown_name name \<longleftrightarrow> py_endswith name ''.md''"

text \<open>The metadata lookups and the post dict (lines 81--91). A missing key raises
  \<open>KeyError\<close>; by the parser's typing invariant the error branch is never taken.\<close>

definition make_post :: "metadata \<Rightarrow> string \<Rightarrow> string \<Rightarrow> py_error + post" where
  "make_post metadata html_content stem =
     (case (map_of metadata ''title'', map_of metadata ''date'', map_of metadata ''author'',
            map_of metadata ''tags'') of
        (Some (MStr t), Some (MStr d), Some (MStr a), Some (MList ts)) \<Rightarrow>
          Inr \<lparr>title = t, date = d, author = a, tags = ts, slug = generate_slug t,
               content = html_content, filename = stem\<rparr>
      | _ \<Rightarrow> Inl KeyError)"

text \<open>The body of the \<open>try\<close> of the loop (lines 69--91).\<close>

definition assemble_post :: "string \<Rightarrow> converter \<Rightarrow> source_file \<Rightarrow> py_error + post" where
  "assemble_post today markdown f =
     (case read_result f of
        Inl e \<Rightarrow> Inl e
      | Inr text \<Rightarrow>
          (case parse_post_metadata today text of
             Inl e \<Rightarrow> Inl e
           | Inr (metadata, markdown_content) \<Rightarrow>
               (case markdown markdown_content of
                  Inl e \<Rightarrow> Inl e
                | Inr html_content \<Rightarrow> make_post metadata html_content (py_stem (file_name f)))))"

text \<open>The loop \<open>for md_file in markdown_files\<close> with its \<open>except Exception\<close> (lines 67--97).\<close>

fun process_files ::
  "string \<Rightarrow> converter \<Rightarrow> source_file list \<Rightarrow> post list \<times> event list \<Rightarrow> post list \<times> event list" where
  "process_files today markdown [] acc = acc"
| "process_files today markdown (f # fs) (ps, log) =
     (case assemble_post today markdown f of
        Inl e \<Rightarrow> process_files today markdown fs (ps, log @ [ProcessingError (file_name f) e])
      | Inr p \<Rightarrow> process_files today markdown fs (ps @ [p], log @ [Processed (title p)]))"

text \<open>A reported \<open>DocumentParseFailure\<close>.\<close>

fun is_processing_error :: "event \<Rightarrow> bool" where
  "is_processing_error (ProcessingError _ _) = True"
| "is_processing_error _ = False"

text \<open>\<open>self.posts.sort(key=lambda x: x['date'], reverse=True)\<close> (line 100).\<close>

definition sort_posts_desc :: "post list \<Rightarrow> post list" where
  "sort_posts_desc ps = rev (sort_key date (rev ps))"

text \<open>\<open>process_posts\<close> (lines 53--100), its two early returns included.\<close>

definition process_posts ::
  "string \<Rightarrow> converter \<Rightarrow> source_dir \<Rightarrow> blog_generator \<Rightarrow> blog_generator \<times> event list" where
  "process_posts today markdown src g =
     (if \<not> dir_exists src then (g, [SourceMissing (source_dir g)])
      else
        let markdown_files = filter (\<lambda>f. is_markdown_name (file_name f)) (dir_entries src)
        in if markdown_files = [] then (g, [NoMarkdownFiles (source_dir g)])
           else
             let (ps, log) = process_files today markdown markdown_files (posts g, [])
             in (g\<lparr>posts := sort_posts_desc ps\<rparr>, FoundFiles (length markdown_files) # log))"

section \<open>Lemmas\<close>

lemma make_post_wf: "meta_wf m \<Longrightarrow> \<exists>p. make_post m h stem = Inr p"
  using meta_wf_lookup_str[of m "''title''"] meta_wf_lookup_str[of m "''date''"]
    meta_wf_lookup_str[of m "''author''"] meta_wf_lookup_tags[of m]
  by (auto simp: make_post_def)

lemma make_post_Inr:
  "make_post m h stem = Inr p \<Longrightarrow>
     map_of m ''title'' = Some (MStr (title p)) \<and> map_of m ''date'' = Some (MStr (date p)) \<and>
     map_of m ''author'' = Some (MStr (author p)) \<and> map_of m ''tags'' = Some (MList (tags p)) \<and>
     slug p = generate_slug (title p) \<and> content p = h \<and> filename p = stem"
  by (auto simp: make_post_def split: option.splits mvalue.splits)

lemma process_files_eq:
  "process_files today md fs (ps, log) =
     (ps @ concat (map (\<lambda>f. case assemble_post today md f of Inl _ \<Rightarrow> [] | Inr p \<Rightarrow> [p]) fs),
      log @ map (\<lambda>f. case assemble_post today md f of
                        Inl e \<Rightarrow> ProcessingError (file_name f) e
                      | Inr p \<Rightarrow> Processed (title p)) fs)"
  by (induction fs arbitrary: ps log) (auto split: sum.splits)

lemma sort_posts_desc_mset: "mset (sort_posts_desc ps) = mset ps"
  by (simp add: sort_posts_desc_def)

lemma sorted_wrt_ge_rev: "sorted_wrt (\<ge>) (rev xs) \<longleftrightarrow> sorted xs"
  by (simp add: sorted_wrt_rev)

lemma sort_posts_desc_sorted: "sorted_wrt (\<ge>) (map date (sort_posts_desc ps))"
  using sorted_sort_key[of date "rev ps"]
  by (simp only: sort_posts_desc_def rev_map[symmetric] sorted_wrt_ge_rev)

lemma sort_posts_desc_stable:
  "filter (\<lambda>p. date p = d) (sort_posts_desc ps) = filter (\<lambda>p. date p = d) ps"
  by (simp add: sort_posts_desc_def rev_filter[symmetric] sort_key_stable)

lemma sort_posts_desc_unique:
  assumes "mset ys = mset ps" "sorted_wrt (\<ge>) (map date ys)"
    and "\<forall>d. filter (\<lambda>p. date p = d) ys = filter (\<lambda>p. date p = d) ps"
  shows "sort_posts_desc ps = ys"
proof -
  have "sort_key date (rev ps) = rev ys"
  proof (rule properties_for_sort_key)
    show "mset (rev ys) = mset (rev ps)" using assms(1) by simp
    show "sorted (map date (rev ys))"
      using assms(2) by (simp only: rev_map[symmetric] sorted_wrt_ge_rev[symmetric] rev_rev_ident)
    fix k
    have "filter (\<lambda>x. date k = date x) ys = filter (\<lambda>x. date k = date x) ps"
      using assms(3)[rule_format, of "date k"] by (simp add: eq_commute)
    then show "filter (\<lambda>x. date k = date x) (rev ys) = filter (\<lambda>x. date k = date x) (rev ps)"
      by (simp add: rev_filter[symmetric])
  qed
  then show ?thesis by (simp add: sort_posts_desc_def)
qed

text \<open>C10: the final sort is the stable descending sort by date: its result is the only permutation of the posts that is ordered by non-increasing date string and keeps the discovery order of posts with equal dates.\<close>

theorem sort_posts_desc_iff:
  "ys = sort_posts_desc ps \<longleftrightarrow>
     mset ys = mset ps \<and> sorted_wrt (\<ge>) (map date ys) \<and>
     (\<forall>d. filter (\<lambda>p. date p = d) ys = filter (\<lambda>p. date p = d) ps)"
  using sort_posts_desc_unique[of ys ps] sort_posts_desc_mset[of ps] sort_posts_desc_sorted[of ps]
    sort_posts_desc_stable[of _ ps] by blast

lemma assemble_post_Inr:
  "assemble_post today md f = Inr p \<Longrightarrow>
     \<exists>c m b. read_result f = Inr c \<and> parse_post_metadata today c = Inr (m, b) \<and> md b = Inr (content p)
       \<and> make_post m (content p) (py_stem (file_name f)) = Inr p"
  using make_post_Inr by (fastforce simp: assemble_post_def split: sum.splits)

text \<open>C13: a document fails assembly only by an error reading it or an error raised by the Markdown converter on its body; the metadata lookups never raise.\<close>

theorem assemble_post_failure:
  "assemble_post today md f = Inl e \<Longrightarrow>
     read_result f = Inl e \<or>
     (\<exists>c m b. read_result f = Inr c \<and> parse_post_metadata today c = Inr (m, b) \<and> md b = Inl e)"
proof -
  assume a: "assemble_post today md f = Inl e"
  show ?thesis
  proof (cases "read_result f")
    case (Inl e')
    with a show ?thesis by (simp add: assemble_post_def)
  next
    case (Inr c)
    obtain m b where p: "parse_post_metadata today c = Inr (m, b)"
      using parse_post_metadata_total by blast
    note r = Inr
    show ?thesis
    proof (cases "md b")
      case (Inl e')
      with a r p show ?thesis by (simp add: assemble_post_def)
    next
      case (Inr h)
      obtain q where "make_post m h (py_stem (file_name f)) = Inr q"
        using make_post_wf[OF parse_post_metadata_meta_wf[OF p]] by blast
      with a r p Inr have False by (simp add: assemble_post_def)
      then show ?thesis ..
    qed
  qed
qed

text \<open>C14: an assembled post takes its title, date, author and tags from the parsed metadata, its content from the converter applied to the parsed body, its slug from its title and its filename from the stem of the file.\<close>

theorem assemble_post_fields:
  assumes "assemble_post today md f = Inr p"
  shows "slug p = generate_slug (title p) \<and> filename p = py_stem (file_name f) \<and>
    (\<exists>c m b. read_result f = Inr c \<and> parse_post_metadata today c = Inr (m, b) \<and> md b = Inr (content p)
       \<and> map_of m ''title'' = Some (MStr (title p)) \<and> map_of m ''date'' = Some (MStr (date p))
       \<and> map_of m ''author'' = Some (MStr (author p)) \<and> map_of m ''tags'' = Some (MList (tags p)))"
  using assemble_post_Inr[OF assms] make_post_Inr by blast

text \<open>C11: with an existing source directory holding markdown files, every file is assembled on its own: the successful posts are appended in discovery order to the generator's posts and the whole list is sorted; the log reports the number of files, then one line per file, processed or failed, so no failure aborts the batch.\<close>

theorem process_posts_collects:
  assumes "dir_exists src"
    and "filter (\<lambda>f. is_markdown_name (file_name f)) (dir_entries src) = fs" and "fs \<noteq> []"
  shows "process_posts today md src g =
     (g\<lparr>posts := sort_posts_desc
          (posts g @ concat (map (\<lambda>f. case assemble_post today md f of Inl _ \<Rightarrow> [] | Inr p \<Rightarrow> [p]) fs))\<rparr>,
      FoundFiles (length fs) #
        map (\<lambda>f. case assemble_post today md f of
                   Inl e \<Rightarrow> ProcessingError (file_name f) e
                 | Inr p \<Rightarrow> Processed (title p)) fs)"
  using assms by (simp add: process_posts_def process_files_eq)

text \<open>C12: the spec scenario: of three markdown documents one fails assembly; the collection holds the other two posts and exactly one failure is reported.\<close>

theorem process_posts_one_failure:
  assumes "dir_exists src" and "dir_entries src = [f1, f2, f3]"
    and "is_markdown_name (file_name f1)" "is_markdown_name (file_name f2)" "is_markdown_name (file_name f3)"
    and "assemble_post today md f1 = Inr p1" "assemble_post today md f2 = Inl e"
    and "assemble_post today md f3 = Inr p3"
  shows "posts (fst (process_posts today md src (init_generator s out))) = sort_posts_desc [p1, p3] \<and>
         length (filter is_processing_error (snd (process_posts today md src (init_generator s out)))) = 1"
  using assms by (simp add: process_posts_def init_generator_def)


lemma process_files_posts:
  "set (fst (process_files today md fs (ps, log))) \<subseteq>
     set ps \<union> {p. \<exists>f. assemble_post today md f = Inr p}"
proof (induction fs arbitrary: ps log)
  case (Cons f fs)
  then show ?case by (fastforce split: sum.splits)
qed simp

lemma process_posts_slugs:
  assumes "\<forall>p\<in>set (posts g). slug p = generate_slug (title p)"
  shows "\<forall>p\<in>set (posts (fst (process_posts today md src g))). slug p = generate_slug (title p)"
proof -
  have ok: "slug p = generate_slug (title p)" if "assemble_post today md f = Inr p" for f p
    using assemble_post_Inr[OF that] make_post_Inr by blast
  have "set (sort_posts_desc ps) = set ps" for ps
    using sort_posts_desc_mset[of ps] by (metis set_mset_mset)
  moreover have "p \<in> set ps \<Longrightarrow> slug p = generate_slug (title p)"
    if "process_files today md fs (posts g, []) = (ps, log)" for fs ps log p
    using process_files_posts[of today md fs "posts g" "[]"] that assms ok by auto
  ultimately show ?thesis using assms
    by (auto simp: process_posts_def Let_def split: prod.splits)
qed

text \<open>Witnesses: concrete source directories, posts and converters at which the
  hypotheses of the claims above hold.\<close>

theorem sort_posts_desc_iff_witness:
  "[\<lparr>title = ''q'', date = ''2'', author = [], tags = [], slug = ''q'', content = [], filename = ''q''\<rparr>,
    \<lparr>title = ''p'', date = ''1'', author = [], tags = [], slug = ''p'', content = [], filename = ''p''\<rparr>] =
   sort_posts_desc
    [\<lparr>title = ''p'', date = ''1'', author = [], tags = [], slug = ''p'', content = [], filename = ''p''\<rparr>,
     \<lparr>title = ''q'', date = ''2'', author = [], tags = [], slug = ''q'', content = [], filename = ''q''\<rparr>]"
  by (subst sort_posts_desc_iff) (auto simp: sorted_wrt2_simps)

theorem assemble_post_failure_witness:
  "assemble_post ''2024-01-01'' (\<lambda>s. Inr s) \<lparr>file_name = ''b.md'', read_result = Inl UnicodeDecodeError\<rparr>
     = Inl UnicodeDecodeError \<and>
   read_result \<lparr>file_name = ''b.md'', read_result = Inl UnicodeDecodeError\<rparr> = Inl UnicodeDecodeError"
proof -
  have a: "assemble_post ''2024-01-01'' (\<lambda>s. Inr s) \<lparr>file_name = ''b.md'', read_result = Inl UnicodeDecodeError\<rparr>
     = Inl UnicodeDecodeError" by (simp add: assemble_post_def)
  show ?thesis using a assemble_post_failure[OF a] by simp
qed

theorem assemble_post_fields_witness:
  "assemble_post ''2024-01-01'' (\<lambda>s. Inr s) \<lparr>file_name = ''a.md'', read_result = Inr ''---\<newline>title: Hi There\<newline>---\<newline>x''\<rparr>
     = Inr \<lparr>title = ''Hi There'', date = ''2024-01-01'', author = ''Anonymous'', tags = [],
            slug = ''hi-there'', content = ''x'', filename = ''a''\<rparr> \<and>
   slug \<lparr>title = ''Hi There'', date = ''2024-01-01'', author = ''Anonymous'', tags = [],
            slug = ''hi-there'', content = ''x'', filename = ''a''\<rparr> = generate_slug ''Hi There''"
proof -
  have a: "assemble_post ''2024-01-01'' (\<lambda>s. Inr s)
     \<lparr>file_name = ''a.md'', read_result = Inr ''---\<newline>title: Hi There\<newline>---\<newline>x''\<rparr>
     = Inr \<lparr>title = ''Hi There'', date = ''2024-01-01'', author = ''Anonymous'', tags = [],
            slug = ''hi-there'', content = ''x'', filename = ''a''\<rparr>" by code_simp
  show ?thesis using a assemble_post_fields[OF a] by simp
qed

theorem process_posts_one_failure_witness:
  "posts (fst (process_posts ''2024-01-01'' (\<lambda>s. if s = ''bad'' then Inl (Raised ''bad'') else Inr s)
      \<lparr>dir_exists = True, dir_entries = [\<lparr>file_name = ''a.md'', read_result = Inr ''a''\<rparr>,
         \<lparr>file_name = ''b.md'', read_result = Inr ''bad''\<rparr>, \<lparr>file_name = ''c.md'', read_result = Inr ''c''\<rparr>]\<rparr>
      (init_generator ''posts'' ''output''))) =
     sort_posts_desc
       [\<lparr>title = ''Untitled'', date = ''2024-01-01'', author = ''Anonymous'', tags = [], slug = ''untitled'',
          content = ''a'', filename = ''a''\<rparr>,
        \<lparr>title = ''Untitled'', date = ''2024-01-01'', author = ''Anonymous'', tags = [], slug = ''untitled'',
          content = ''c'', filename = ''c''\<rparr>] \<and>
   length (filter is_processing_error (snd (process_posts ''2024-01-01''
      (\<lambda>s. if s = ''bad'' then Inl (Raised ''bad'') else Inr s)
      \<lparr>dir_exists = True, dir_entries = [\<lparr>file_name = ''a.md'', read_result = Inr ''a''\<rparr>,
         \<lparr>file_name = ''b.md'', read_result = Inr ''bad''\<rparr>, \<lparr>file_name = ''c.md'', read_result = Inr ''c''\<rparr>]\<rparr>
      (init_generator ''posts'' ''output'')))) = 1"
  by (rule process_posts_one_failure) code_simp+

theorem process_posts_collects_witness:
  "process_posts ''2024-01-01'' (\<lambda>s. Inr s)
      \<lparr>dir_exists = True, dir_entries = [\<lparr>file_name = ''a.md'', read_result = Inr ''a''\<rparr>,
         \<lparr>file_name = ''n.txt'', read_result = Inr ''n''\<rparr>]\<rparr> (init_generator ''posts'' ''output'') =
   (\<lparr>source_dir = ''posts'', output_dir = ''output'',
      posts = [\<lparr>title = ''Untitled'', date = ''2024-01-01'', author = ''Anonymous'', tags = [],
               slug = ''untitled'', content = ''a'', filename = ''a''\<rparr>]\<rparr>,
    [FoundFiles 1, Processed ''Untitled''])"
proof -
  have h: "filter (\<lambda>f. is_markdown_name (file_name f))
     [\<lparr>file_name = ''a.md'', read_result = Inr ''a''\<rparr>, \<lparr>file_name = ''n.txt'', read_result = Inr ''n''\<rparr>]
     = [\<lparr>file_name = ''a.md'', read_result = Inr ''a''\<rparr>]" by code_simp
  have r: "assemble_post ''2024-01-01'' (\<lambda>s. Inr s) \<lparr>file_name = ''a.md'', read_result = Inr ''a''\<rparr> =
     Inr \<lparr>title = ''Untitled'', date = ''2024-01-01'', author = ''Anonymous'', tags = [],
               slug = ''untitled'', content = ''a'', filename = ''a''\<rparr>" by code_simp
  show ?thesis
    using process_posts_collects[where fs = "[\<lparr>file_name = ''a.md'', read_result = Inr ''a''\<rparr>]"] h r
    by (simp add: init_generator_def sort_posts_desc_def)
qed

end
