(* ===== verification/Render.thy ===== *)
theory Render
  imports Posts
begin

text \<open>
  Output side of \<open>BlogGenerator\<close> (blog_generator.py): \<open>generate_post_pages\<close>,
  \<open>generate_index_page\<close>, \<open>generate_css\<close> and the driver \<open>generate_blog\<close>.

  The file system is an explicit \<open>store\<close>: a map from paths (lists of components) to file
  contents, the set of existing directories, and a set of paths on which the operating system
  refuses the operation (permission errors), so that every \<open>mkdir\<close> and \<open>open(..., 'w')\<close>
  of the code either updates the store or raises \<open>OSError\<close>. Since the code catches no
  exception in these methods, an \<open>OSError\<close> ends the whole run: it is the \<open>Inl\<close> branch
  threaded through \<open>run_step\<close>. The printed progress messages are the event log.

  The Jinja2 templates are parameters (\<open>renderer\<close>): the post template is any function of
  the post, the index template any function of the per-post view that the template reads
  (\<open>index_view\<close>: the link \<open>posts/<slug>.html\<close>, the metadata, and the excerpt
  \<open>post.content[:200] | striptags\<close>), the stylesheet any constant string. The filter
  \<open>striptags\<close> of markupsafe is modelled from its documentation: tags removed, runs of
  whitespace collapsed to one space, leading and trailing whitespace dropped (HTML entities
  are not unescaped).
\<close>

type_synonym path = "string list"

text \<open>The file system: contents of regular files, existing directories, and the paths on
  which the operating system raises \<open>OSError\<close>.\<close>

record store =
  files :: "path \<Rightarrow> string option"
  dirs :: "path set"
  denied :: "path set"

text \<open>\<open>Path.mkdir(parents=True, exist_ok=True)\<close>: creates every ancestor; raises when one
  of them is refused.\<close>

definition ancestors :: "path \<Rightarrow> path list" where
  "ancestors p = map (\<lambda>n. take n p) [1..<Suc (length p)]"

definition mkdir_p :: "store \<Rightarrow> path \<Rightarrow> py_error + store" where
  "mkdir_p st p =
     (if list_ex (\<lambda>q. q \<in> denied st \<or> files st q \<noteq> None) (ancestors p) then Inl OSError
      else Inr (st\<lparr>dirs := dirs st \<union> set (ancestors p)\<rparr>))"

text \<open>\<open>open(p, 'w').write(text)\<close>: raises when the parent directory does not exist,
  the path is a directory (\<open>IsADirectoryError\<close>) or the path is refused; otherwise the file
  is created or truncated.\<close>

definition write_file :: "store \<Rightarrow> path \<Rightarrow> string \<Rightarrow> py_error + store" where
  "write_file st p text =
     (if butlast p \<notin> dirs st \<or> p \<in> dirs st \<or> p \<in> denied st then Inl OSError
      else Inr (st\<lparr>files := (files st)(p \<mapsto> text)\<rparr>))"

text \<open>markupsafe \<open>Markup.striptags\<close>: remove \<open><...>\<close> tags, then normalise whitespace as
  \<open>" ".join(s.split())\<close>.\<close>

function strip_tags :: "string \<Rightarrow> string" where
  "strip_tags [] = []"
| "strip_tags (c # cs) =
     (if c = CHR ''<'' \<and> CHR ''>'' \<in> set cs then strip_tags (tl (dropWhile (\<lambda>x. x \<noteq> CHR ''>'') cs))
      else c # strip_tags cs)"
  by pat_completeness auto
termination
  by (relation "measure length") (auto intro!: le_imp_less_Suc order_trans[OF diff_le_self length_dropWhile_le])

function py_words :: "string \<Rightarrow> string list" where
  "py_words s =
     (let s' = dropWhile py_isspace s
      in if s' = [] then [] else takeWhile (\<lambda>c. \<not> py_isspace c) s' # py_words (dropWhile (\<lambda>c. \<not> py_isspace c) s'))"
  by pat_completeness auto
termination
proof (relation "measure length")
  fix s s' :: string
  assume s': "s' = dropWhile py_isspace s" "s' \<noteq> []"
  from s'(2) obtain a l where al: "s' = a # l" by (meson neq_Nil_conv)
  have "\<not> py_isspace (hd s')" using hd_dropWhile[of py_isspace s] s' by simp
  then have "\<not> py_isspace a" using al by simp
  then have "length (dropWhile (\<lambda>c. \<not> py_isspace c) s') \<le> length l"
    using al by (simp add: length_dropWhile_le)
  then have "length (dropWhile (\<lambda>c. \<not> py_isspace c) s') < length s'" using al by simp
  moreover have "length s' \<le> length s" using s'(1) by (simp add: length_dropWhile_le)
  ultimately show "(dropWhile (\<lambda>c. \<not> py_isspace c) s', s) \<in> measure length" by simp
qed simp

declare py_words.simps [simp del]

definition striptags :: "string \<Rightarrow> string" where
  "striptags s = py_join '' '' (py_words (strip_tags s))"

text \<open>\<open>{{ post.content[:200] | striptags }}\<close> of the index template, line 190.\<close>

definition excerpt :: "string \<Rightarrow> string" where
  "excerpt html = striptags (take 200 html)"


text \<open>What the index template reads of one post (lines 175--194).\<close>

record index_entry =
  entry_href :: string
  entry_title :: string
  entry_date :: string
  entry_author :: string
  entry_tags :: "string list"
  entry_excerpt :: string

definition post_href :: "post \<Rightarrow> string" where
  "post_href p = ''posts/'' @ slug p @ ''.html''"

definition index_view :: "post \<Rightarrow> index_entry" where
  "index_view p = \<lparr>entry_href = post_href p, entry_title = title p, entry_date = date p,
     entry_author = author p, entry_tags = tags p, entry_excerpt = excerpt (content p)\<rparr>"

definition post_path :: "string \<Rightarrow> post \<Rightarrow> path" where
  "post_path out p = [out, ''posts'', slug p @ ''.html'']"

text \<open>\<open>generate_post_pages\<close>, lines 146--154: create \<open>output/posts\<close>, then write one page per
  post, in list order, to \<open>posts/<slug>.html\<close>.\<close>

fun write_post_pages :: "(post \<Rightarrow> string) \<Rightarrow> string \<Rightarrow> post list \<Rightarrow> store \<Rightarrow> py_error + store" where
  "write_post_pages render out [] st = Inr st"
| "write_post_pages render out (p # ps) st =
     (case write_file st (post_path out p) (render p) of
        Inl e \<Rightarrow> Inl e
      | Inr st' \<Rightarrow> write_post_pages render out ps st')"

definition generate_post_pages :: "(post \<Rightarrow> string) \<Rightarrow> blog_generator \<Rightarrow> store \<Rightarrow> py_error + store" where
  "generate_post_pages render g st =
     (case mkdir_p st [output_dir g, ''posts''] of
        Inl e \<Rightarrow> Inl e
      | Inr st' \<Rightarrow> write_post_pages render (output_dir g) (posts g) st')"

text \<open>\<open>generate_index_page\<close>, lines 201--205, and \<open>generate_css\<close>, lines 381--383.\<close>

definition generate_index_page ::
  "(index_entry list \<Rightarrow> string) \<Rightarrow> blog_generator \<Rightarrow> store \<Rightarrow> py_error + store" where
  "generate_index_page render g st =
     write_file st [output_dir g, ''index.html''] (render (map index_view (posts g)))"

definition generate_css :: "string \<Rightarrow> blog_generator \<Rightarrow> store \<Rightarrow> py_error + store" where
  "generate_css css g st = write_file st [output_dir g, ''styles.css''] css"

text \<open>The three templates of the program, as parameters.\<close>

record renderer =
  render_post :: "post \<Rightarrow> string"
  render_index :: "index_entry list \<Rightarrow> string"
  stylesheet :: string

text \<open>\<open>generate_blog\<close>, lines 385--411: print, create the output directory, collect the
  posts, stop when there are none, otherwise run the three generators in order; an exception
  of any of them propagates out of \<open>generate_blog\<close>.\<close>

fun run_step ::
  "event \<Rightarrow> (store \<Rightarrow> py_error + store) \<Rightarrow> (py_error + store) \<times> event list \<Rightarrow>
     (py_error + store) \<times> event list" where
  "run_step ev f (Inl e, log) = (Inl e, log)"
| "run_step ev f (Inr st, log) = (f st, log @ [ev])"

definition generate_blog ::
  "string \<Rightarrow> converter \<Rightarrow> renderer \<Rightarrow> source_dir \<Rightarrow> blog_generator \<Rightarrow> store \<Rightarrow>
     (py_error + blog_generator \<times> store) \<times> event list" where
  "generate_blog today markdown r src g st =
     (case mkdir_p st [output_dir g] of
        Inl e \<Rightarrow> (Inl e, [Starting])
      | Inr st1 \<Rightarrow>
          (let (g1, log) = process_posts today markdown src g
           in if posts g1 = [] then (Inr (g1, st1), Starting # log @ [NoPosts])
              else
                (case run_step GeneratingCss (generate_css (stylesheet r) g1)
                        (run_step GeneratingIndex (generate_index_page (render_index r) g1)
                          (run_step GeneratingPostPages (generate_post_pages (render_post r) g1)
                            (Inr st1, Starting # log))) of
                   (Inl e, log') \<Rightarrow> (Inl e, log')
                 | (Inr st4, log') \<Rightarrow>
                     (Inr (g1, st4), log' @ [Generated (output_dir g1) (length (posts g1))]))))"

lemma strip_tags_length: "length (strip_tags s) \<le> length s"
proof (induction s rule: strip_tags.induct)
  case 1
  then show ?case by simp
next
  case (2 c cs)
  have "length (tl (dropWhile (\<lambda>x. x \<noteq> CHR ''>'') cs)) \<le> length cs"
    using length_dropWhile_le[of "\<lambda>x. x \<noteq> CHR ''>''" cs] by simp
  with 2 show ?case by auto
qed

lemma py_words_Nil: "py_words [] = []"
  by (simp add: py_words.simps)

lemma py_words_space_Cons: "py_isspace c \<Longrightarrow> py_words (c # r) = py_words r"
  by (subst py_words.simps) (simp add: py_words.simps[of r])

lemma py_words_join_length:
  "length (py_join '' '' (py_words s)) \<le> length (dropWhile py_isspace s)"
proof (induction s rule: py_words.induct)
  case (1 s)
  let ?s' = "dropWhile py_isspace s"
  let ?w = "takeWhile (\<lambda>c. \<not> py_isspace c) ?s'"
  let ?rest = "dropWhile (\<lambda>c. \<not> py_isspace c) ?s'"
  show ?case
  proof (cases "?s' = []")
    case True
    then show ?thesis by (subst py_words.simps) simp
  next
    case False
    then have eq: "py_words s = ?w # py_words ?rest" by (subst py_words.simps) (simp add: Let_def)
    have IH: "length (py_join '' '' (py_words ?rest)) \<le> length (dropWhile py_isspace ?rest)"
      using "1.IH" False by simp
    have split: "?s' = ?w @ ?rest" by simp
    show ?thesis
    proof (cases "py_words ?rest = []")
      case True
      then show ?thesis unfolding eq using split by (simp add: length_takeWhile_le)
    next
      case nonempty: False
      then obtain c r where cr: "?rest = c # r" by (cases ?rest) (auto simp: py_words_Nil)
      have "py_isspace c" using hd_dropWhile[of "\<lambda>c. \<not> py_isspace c" ?s'] cr by simp
      then have "dropWhile py_isspace ?rest = dropWhile py_isspace r" using cr by simp
      then have "length (py_join '' '' (py_words ?rest)) \<le> length r"
        using IH by (metis length_dropWhile_le order_trans)
      moreover have "py_join '' '' (?w # py_words ?rest) = ?w @ '' '' @ py_join '' '' (py_words ?rest)"
        using nonempty by (cases "py_words ?rest") auto
      ultimately have "length (py_join '' '' (py_words s)) \<le> length ?w + 1 + length r"
        unfolding eq by simp
      moreover have "length ?s' = length ?w + length ?rest"
        by (metis length_append takeWhile_dropWhile_id)
      ultimately show ?thesis using cr by simp
    qed
  qed
qed








lemma striptags_length: "length (striptags s) \<le> length s"
  using py_words_join_length[of "strip_tags s"] strip_tags_length[of s]
    length_dropWhile_le[of py_isspace "strip_tags s"]
  by (simp add: striptags_def)

lemma mkdir_p_Inr: "mkdir_p st p = Inr st' \<Longrightarrow> files st' = files st \<and> denied st' = denied st"
  by (auto simp: mkdir_p_def split: if_splits)

lemma write_file_Inr:
  "write_file st p t = Inr st' \<Longrightarrow> files st' = (files st)(p \<mapsto> t) \<and> denied st' = denied st"
  by (auto simp: write_file_def split: if_splits)

lemma write_file_denied: "p \<in> denied st \<Longrightarrow> write_file st p t = Inl OSError"
  by (simp add: write_file_def)

lemma post_path_eq: "post_path out p = post_path out q \<longleftrightarrow> slug p = slug q"
  by (simp add: post_path_def)

lemma write_post_pages_files:
  "write_post_pages rp out ps st = Inr st' \<Longrightarrow>
     files st' x = (if \<exists>q\<in>set ps. post_path out q = x
                    then Some (rp (last (filter (\<lambda>q. post_path out q = x) ps))) else files st x)"
proof (induction ps arbitrary: st)
  case Nil
  then show ?case by simp
next
  case (Cons p ps)
  obtain st1 where w: "write_file st (post_path out p) (rp p) = Inr st1"
    and r: "write_post_pages rp out ps st1 = Inr st'"
    using Cons.prems by (auto split: sum.splits)
  have f1: "files st1 = (files st)(post_path out p \<mapsto> rp p)" using write_file_Inr[OF w] by simp
  show ?case using Cons.IH[OF r] f1 by (auto simp: filter_empty_conv)
qed

lemma write_post_pages_denied:
  "\<exists>p\<in>set ps. post_path out p \<in> denied st \<Longrightarrow> \<exists>e. write_post_pages rp out ps st = Inl e"
proof (induction ps arbitrary: st)
  case Nil
  then show ?case by simp
next
  case (Cons p ps)
  show ?case
  proof (cases "write_file st (post_path out p) (rp p)")
    case (Inl e)
    then show ?thesis by simp
  next
    case (Inr st1)
    then have "post_path out p \<notin> denied st" using write_file_denied by fastforce
    moreover have "denied st1 = denied st" using write_file_Inr[OF Inr] by simp
    ultimately have "\<exists>q\<in>set ps. post_path out q \<in> denied st1" using Cons.prems by auto
    with Cons.IH Inr show ?thesis by simp
  qed
qed

lemma process_posts_dirs:
  "output_dir (fst (process_posts today md src g)) = output_dir g \<and>
   source_dir (fst (process_posts today md src g)) = source_dir g"
  by (simp add: process_posts_def Let_def split: prod.splits)

lemma run_step_Inr:
  "run_step ev f (r, log) = (Inr st', log') \<Longrightarrow> \<exists>st. r = Inr st \<and> f st = Inr st' \<and> log' = log @ [ev]"
  by (cases r) auto

lemma generate_blog_Inr:
  assumes "generate_blog today md r src g st = (Inr (g', st'), log)"
  shows "\<exists>st1 log0. mkdir_p st [output_dir g] = Inr st1 \<and> process_posts today md src g = (g', log0) \<and>
     (posts g' = [] \<and> st' = st1 \<and> log = Starting # log0 @ [NoPosts] \<or>
      posts g' \<noteq> [] \<and> (\<exists>st1' st2 st3. mkdir_p st1 [output_dir g, ''posts''] = Inr st1' \<and>
        write_post_pages (render_post r) (output_dir g) (posts g') st1' = Inr st2 \<and>
        write_file st2 [output_dir g, ''index.html''] (render_index r (map index_view (posts g'))) = Inr st3 \<and>
        write_file st3 [output_dir g, ''styles.css''] (stylesheet r) = Inr st') \<and>
        log = Starting # log0 @ [GeneratingPostPages, GeneratingIndex, GeneratingCss,
                                 Generated (output_dir g) (length (posts g'))])"
proof -
  obtain g1 log0 where pp: "process_posts today md src g = (g1, log0)" by fastforce
  have od: "output_dir g1 = output_dir g" using process_posts_dirs[of today md src g] pp by simp
  from assms obtain st1 where m: "mkdir_p st [output_dir g] = Inr st1"
    by (auto simp: generate_blog_def split: sum.splits)
  show ?thesis
  proof (cases "posts g1 = []")
    case True
    with assms m pp have "g' = g1 \<and> st' = st1 \<and> log = Starting # log0 @ [NoPosts]"
      by (simp add: generate_blog_def)
    with m pp True show ?thesis by auto
  next
    case False
    let ?s1 = "run_step GeneratingPostPages (generate_post_pages (render_post r) g1) (Inr st1, Starting # log0)"
    let ?s2 = "run_step GeneratingIndex (generate_index_page (render_index r) g1) ?s1"
    obtain log' where s3: "run_step GeneratingCss (generate_css (stylesheet r) g1) ?s2 = (Inr st', log')"
      and g': "g' = g1" and lg: "log = log' @ [Generated (output_dir g1) (length (posts g1))]"
      using assms m pp False by (auto simp: generate_blog_def split: prod.splits sum.splits)
    obtain r2 l2 where e2: "?s2 = (r2, l2)" by fastforce
    obtain st3 where st3: "r2 = Inr st3" "generate_css (stylesheet r) g1 st3 = Inr st'"
      and l3: "log' = l2 @ [GeneratingCss]"
      using run_step_Inr[OF s3[unfolded e2]] by blast
    obtain r1 l1 where e1: "?s1 = (r1, l1)" by fastforce
    have "run_step GeneratingIndex (generate_index_page (render_index r) g1) (r1, l1) = (Inr st3, l2)"
      using e2 e1 st3(1) by simp
    from run_step_Inr[OF this] obtain st2 where
      st2: "r1 = Inr st2" "generate_index_page (render_index r) g1 st2 = Inr st3"
      and l2: "l2 = l1 @ [GeneratingIndex]" by blast
    have l1: "l1 = Starting # log0 @ [GeneratingPostPages]" using e1 by simp
    have logeq: "log = Starting # log0 @ [GeneratingPostPages, GeneratingIndex, GeneratingCss,
                                 Generated (output_dir g) (length (posts g'))]"
      using lg l3 l2 l1 g' od by simp
    have gp: "generate_post_pages (render_post r) g1 st1 = Inr st2"
      using e1 st2(1) by simp
    from gp od obtain st1' where
      "mkdir_p st1 [output_dir g, ''posts''] = Inr st1'"
      "write_post_pages (render_post r) (output_dir g) (posts g1) st1' = Inr st2"
      by (auto simp: generate_post_pages_def split: sum.splits)
    then show ?thesis using m pp False st2 st3 g' od logeq
      by (auto simp: generate_index_page_def generate_css_def)
  qed
qed

lemma filter_slug_distinct:
  "distinct (map slug ps) \<Longrightarrow> p \<in> set ps \<Longrightarrow> filter (\<lambda>q. slug q = slug p) ps = [p]"
  by (induction ps) (auto simp: filter_empty_conv image_iff)

lemma split_post_href:
  "CHR ''/'' \<notin> set (slug p) \<Longrightarrow> py_split CHR ''/'' (post_href p) = [''posts'', slug p @ ''.html'']"
  by (simp add: post_href_def py_split_no_sep)

lemma generate_blog_files:
  assumes "generate_blog today md r src g st = (Inr (g', st'), log)" and "posts g' \<noteq> []"
  shows "files st' [output_dir g, ''styles.css''] = Some (stylesheet r) \<and>
         files st' [output_dir g, ''index.html''] = Some (render_index r (map index_view (posts g'))) \<and>
         (\<forall>p\<in>set (posts g'). files st' (post_path (output_dir g) p) =
            Some (render_post r (last (filter (\<lambda>q. slug q = slug p) (posts g')))))"
proof -
  obtain st1 log0 st1' st2 st3 where
    w: "write_post_pages (render_post r) (output_dir g) (posts g') st1' = Inr st2"
    and i: "write_file st2 [output_dir g, ''index.html''] (render_index r (map index_view (posts g'))) = Inr st3"
    and c: "write_file st3 [output_dir g, ''styles.css''] (stylesheet r) = Inr st'"
    using generate_blog_Inr[OF assms(1)] assms(2) by blast
  have fc: "files st' = (files st3)([output_dir g, ''styles.css''] \<mapsto> stylesheet r)"
    using write_file_Inr[OF c] by simp
  have fi: "files st3 = (files st2)([output_dir g, ''index.html''] \<mapsto> render_index r (map index_view (posts g')))"
    using write_file_Inr[OF i] by simp
  have "files st2 (post_path (output_dir g) p) =
          Some (render_post r (last (filter (\<lambda>q. slug q = slug p) (posts g'))))"
    if "p \<in> set (posts g')" for p
    using write_post_pages_files[OF w, of "post_path (output_dir g) p"] that by (auto simp: post_path_eq)
  then show ?thesis using fc fi by (simp add: post_path_def)
qed

text \<open>C15: the excerpt shown on the index page for a post is at most 200 characters long, whatever the post's HTML.\<close>

theorem excerpt_bound: "length (excerpt html) \<le> 200"
  using striptags_length[of "take 200 html"] by (simp add: excerpt_def)


text \<open>C17: when the source directory exists but holds no \<open>*.md\<close> file, a fresh generator creates only the output directory, writes no file, keeps no post, and reports the missing Markdown files and that there is nothing to generate.\<close>

theorem generate_blog_no_markdown:
  assumes "dir_exists src" and "\<not> list_ex (\<lambda>f. is_markdown_name (file_name f)) (dir_entries src)"
    and "mkdir_p st [out] = Inr st1"
  shows "generate_blog today md r src (init_generator s out) st =
           (Inr (init_generator s out, st1), [Starting, NoMarkdownFiles s, NoPosts]) \<and> files st1 = files st"
proof -
  have "filter (\<lambda>f. is_markdown_name (file_name f)) (dir_entries src) = []"
    using assms(2) by (simp add: filter_empty_conv list_ex_iff)
  then show ?thesis using assms mkdir_p_Inr[OF assms(3)]
    by (simp add: generate_blog_def process_posts_def init_generator_def)
qed

text \<open>C18: when the source directory does not exist, \<open>generate_blog\<close> does not fail: it has already created the output directory, writes no file, and reports the missing directory and then that there are no posts.\<close>

theorem generate_blog_source_missing:
  assumes "\<not> dir_exists src" and "mkdir_p st [out] = Inr st1"
  shows "generate_blog today md r src (init_generator s out) st =
           (Inr (init_generator s out, st1), [Starting, SourceMissing s, NoPosts]) \<and>
         files st1 = files st \<and> [out] \<in> dirs st1"
  using assms mkdir_p_Inr[OF assms(2)]
  by (auto simp: generate_blog_def process_posts_def init_generator_def mkdir_p_def ancestors_def
      split: if_splits)

text \<open>C19: after a successful run, every collected post has a page at \<open>output/posts/<slug>.html\<close>; when several posts share a slug the page holds the last of them in the sorted list (later writes overwrite earlier ones).\<close>

theorem generate_blog_post_pages:
  assumes "generate_blog today md r src g st = (Inr (g', st'), log)" and "p \<in> set (posts g')"
  shows "files st' (post_path (output_dir g) p) =
           Some (render_post r (last (filter (\<lambda>q. slug q = slug p) (posts g'))))"
proof -
  have "posts g' \<noteq> []" using assms(2) by auto
  from generate_blog_files[OF assms(1) this] assms(2) show ?thesis by blast
qed

text \<open>C20: after a successful run in which the posts have pairwise distinct slugs, each post's page holds exactly that post rendered.\<close>

theorem generate_blog_distinct_slugs:
  assumes "generate_blog today md r src g st = (Inr (g', st'), log)"
    and "distinct (map slug (posts g'))" and "p \<in> set (posts g')"
  shows "files st' (post_path (output_dir g) p) = Some (render_post r p)"
proof -
  have "posts g' \<noteq> []" using assms(3) by auto
  from generate_blog_files[OF assms(1) this] assms(3)
  have "files st' (post_path (output_dir g) p) =
          Some (render_post r (last (filter (\<lambda>q. slug q = slug p) (posts g'))))" by blast
  then show ?thesis using filter_slug_distinct[OF assms(2,3)] by simp
qed

text \<open>C21: a successful run that collected posts writes \<open>index.html\<close> from the views of all the posts in sorted order and \<open>styles.css\<close> with the stylesheet, and its log is: start, the collection messages, post pages, index, CSS, and the count of generated posts.\<close>

theorem generate_blog_index_page:
  assumes "generate_blog today md r src g st = (Inr (g', st'), log)" and "posts g' \<noteq> []"
  shows "files st' [output_dir g, ''index.html''] = Some (render_index r (map index_view (posts g'))) \<and>
         files st' [output_dir g, ''styles.css''] = Some (stylesheet r) \<and>
         log = Starting # snd (process_posts today md src g) @
           [GeneratingPostPages, GeneratingIndex, GeneratingCss, Generated (output_dir g) (length (posts g'))]"
proof -
  obtain g1 log0 where pp: "process_posts today md src g = (g1, log0)" by fastforce
  have od: "output_dir g1 = output_dir g" using process_posts_dirs[of today md src g] pp by simp
  have g1: "g' = g1" using generate_blog_Inr[OF assms(1)] pp by auto
  have "log = Starting # log0 @ [GeneratingPostPages, GeneratingIndex, GeneratingCss,
          Generated (output_dir g) (length (posts g'))]"
    using generate_blog_Inr[OF assms(1)] pp assms(2) by auto
  then show ?thesis using generate_blog_files[OF assms] pp by simp
qed

text \<open>C22: every link \<open>posts/<slug>.html\<close> on the index page, resolved against the output directory, names a page that the run wrote.\<close>

theorem generate_blog_links_resolve:
  assumes "generate_blog today md r src (init_generator s out) st = (Inr (g', st'), log)"
    and "p \<in> set (posts g')"
  shows "files st' (out # py_split CHR ''/'' (entry_href (index_view p))) =
           Some (render_post r (last (filter (\<lambda>q. slug q = slug p) (posts g'))))"
proof -
  have "g' = fst (process_posts today md src (init_generator s out))"
    using generate_blog_Inr[OF assms(1)] by auto
  then have "slug p = generate_slug (title p)"
    using process_posts_slugs[of "init_generator s out" today md src] assms(2)
    by (auto simp: init_generator_def)
  then have "out # py_split CHR ''/'' (entry_href (index_view p)) = post_path out p"
    using generate_slug_no_slash[of "title p"]
    by (simp add: index_view_def split_post_href post_path_def)
  moreover have "posts g' \<noteq> []" using assms(2) by auto
  ultimately show ?thesis
    using generate_blog_files[OF assms(1)] assms(2) by (auto simp: init_generator_def)
qed

text \<open>C23: when the operating system refuses the page of one collected post, the whole run fails right after the post-page message: the failure is not caught per file, and neither the index nor the stylesheet is written.\<close>

theorem generate_blog_page_write_failure:
  assumes "process_posts today md src g = (g1, log0)" and "posts g1 \<noteq> []"
    and "mkdir_p st [output_dir g] = Inr st1" and "mkdir_p st1 [output_dir g, ''posts''] = Inr st1'"
    and "p \<in> set (posts g1)" and "post_path (output_dir g) p \<in> denied st"
  shows "\<exists>e. generate_blog today md r src g st = (Inl e, Starting # log0 @ [GeneratingPostPages])"
proof -
  have od: "output_dir g1 = output_dir g" using process_posts_dirs[of today md src g] assms(1) by simp
  have "denied st1' = denied st" using mkdir_p_Inr[OF assms(3)] mkdir_p_Inr[OF assms(4)] by simp
  then obtain e where "write_post_pages (render_post r) (output_dir g) (posts g1) st1' = Inl e"
    using write_post_pages_denied[of "posts g1" "output_dir g" st1' "render_post r"] assms(5,6) by auto
  then have "generate_post_pages (render_post r) g1 st1 = Inl e"
    using assms(4) od by (simp add: generate_post_pages_def)
  then show ?thesis using assms(1-3) by (simp add: generate_blog_def)
qed

text \<open>Witnesses: a source directory with one post \<open>a.md\<close> titled "Hello World" (and, for
  C20, a second, older post without a title), rendered to \<open>out\<close>.\<close>

theorem generate_blog_no_markdown_witness:
  "snd (generate_blog ''2024-01-01'' Inr \<lparr>render_post = title, render_index = \<lambda>es. concat (map entry_title es), stylesheet = ''css''\<rparr>
      \<lparr>dir_exists = True, dir_entries = [\<lparr>file_name = ''notes.txt'', read_result = Inr ''x''\<rparr>]\<rparr>
      (init_generator ''posts'' ''out'') \<lparr>files = Map.empty, dirs = {}, denied = {}\<rparr>) =
     [Starting, NoMarkdownFiles ''posts'', NoPosts] \<and>
   (\<exists>st1. fst (generate_blog ''2024-01-01'' Inr \<lparr>render_post = title, render_index = \<lambda>es. concat (map entry_title es), stylesheet = ''css''\<rparr>
      \<lparr>dir_exists = True, dir_entries = [\<lparr>file_name = ''notes.txt'', read_result = Inr ''x''\<rparr>]\<rparr>
      (init_generator ''posts'' ''out'') \<lparr>files = Map.empty, dirs = {}, denied = {}\<rparr>) =
        Inr (init_generator ''posts'' ''out'', st1) \<and> files st1 = Map.empty)"
proof -
  obtain st1 where m: "mkdir_p \<lparr>files = Map.empty, dirs = {}, denied = {}\<rparr> [''out''] = Inr st1"
    by (simp add: mkdir_p_def list_ex_iff)
  have "\<not> list_ex (\<lambda>f. is_markdown_name (file_name f))
          (dir_entries \<lparr>dir_exists = True, dir_entries = [\<lparr>file_name = ''notes.txt'', read_result = Inr ''x''\<rparr>]\<rparr>)"
    by code_simp
  from generate_blog_no_markdown[OF _ this m, of "''2024-01-01''" Inr
       "\<lparr>render_post = title, render_index = \<lambda>es. concat (map entry_title es), stylesheet = ''css''\<rparr>" "''posts''"]
  show ?thesis by simp
qed

theorem generate_blog_source_missing_witness:
  "snd (generate_blog ''2024-01-01'' Inr \<lparr>render_post = title, render_index = \<lambda>es. concat (map entry_title es), stylesheet = ''css''\<rparr>
      \<lparr>dir_exists = False, dir_entries = []\<rparr>
      (init_generator ''posts'' ''out'') \<lparr>files = Map.empty, dirs = {}, denied = {}\<rparr>) =
     [Starting, SourceMissing ''posts'', NoPosts] \<and>
   (\<exists>st1. fst (generate_blog ''2024-01-01'' Inr \<lparr>render_post = title, render_index = \<lambda>es. concat (map entry_title es), stylesheet = ''css''\<rparr>
      \<lparr>dir_exists = False, dir_entries = []\<rparr>
      (init_generator ''posts'' ''out'') \<lparr>files = Map.empty, dirs = {}, denied = {}\<rparr>) =
        Inr (init_generator ''posts'' ''out'', st1) \<and> files st1 = Map.empty \<and> [''out''] \<in> dirs st1)"
proof -
  obtain st1 where m: "mkdir_p \<lparr>files = Map.empty, dirs = {}, denied = {}\<rparr> [''out''] = Inr st1"
    by (simp add: mkdir_p_def list_ex_iff)
  from generate_blog_source_missing[OF _ m, of "\<lparr>dir_exists = False, dir_entries = []\<rparr>" "''2024-01-01''" Inr
       "\<lparr>render_post = title, render_index = \<lambda>es. concat (map entry_title es), stylesheet = ''css''\<rparr>" "''posts''"]
  show ?thesis by simp
qed

theorem generate_blog_post_pages_witness:
  "case fst (generate_blog ''2024-01-01'' Inr
      \<lparr>render_post = title, render_index = \<lambda>es. concat (map entry_title es), stylesheet = ''css''\<rparr>
      \<lparr>dir_exists = True, dir_entries = [\<lparr>file_name = ''a.md'', read_result = Inr (''---'' @ CHR 0x0A # ''title: Hello World'' @ CHR 0x0A # ''---Body'')\<rparr>]\<rparr>
      (init_generator ''posts'' ''out'') \<lparr>files = Map.empty, dirs = {}, denied = {}\<rparr>) of
     Inl _ \<Rightarrow> False
   | Inr (g', st') \<Rightarrow> files st' [''out'', ''posts'', ''hello-world.html''] = Some ''Hello World''"
proof -
  obtain res log where e: "generate_blog ''2024-01-01'' Inr
      \<lparr>render_post = title, render_index = \<lambda>es. concat (map entry_title es), stylesheet = ''css''\<rparr>
      \<lparr>dir_exists = True, dir_entries = [\<lparr>file_name = ''a.md'', read_result = Inr (''---'' @ CHR 0x0A # ''title: Hello World'' @ CHR 0x0A # ''---Body'')\<rparr>]\<rparr>
      (init_generator ''posts'' ''out'') \<lparr>files = Map.empty, dirs = {}, denied = {}\<rparr> = (res, log)" by fastforce
  have "case fst (generate_blog ''2024-01-01'' Inr
      \<lparr>render_post = title, render_index = \<lambda>es. concat (map entry_title es), stylesheet = ''css''\<rparr>
      \<lparr>dir_exists = True, dir_entries = [\<lparr>file_name = ''a.md'', read_result = Inr (''---'' @ CHR 0x0A # ''title: Hello World'' @ CHR 0x0A # ''---Body'')\<rparr>]\<rparr>
      (init_generator ''posts'' ''out'') \<lparr>files = Map.empty, dirs = {}, denied = {}\<rparr>) of Inl _ \<Rightarrow> False | Inr (g', st') \<Rightarrow> posts g' = [\<lparr>title = ''Hello World'', date = ''2024-01-01'', author = ''Anonymous'', tags = [], slug = ''hello-world'', content = ''Body'', filename = ''a''\<rparr>]"
    by code_simp
  then obtain g' st' where r: "res = Inr (g', st')" and pg: "posts g' = [\<lparr>title = ''Hello World'', date = ''2024-01-01'', author = ''Anonymous'', tags = [], slug = ''hello-world'', content = ''Body'', filename = ''a''\<rparr>]"
    using e by (auto split: sum.splits)
  from generate_blog_post_pages[OF e[unfolded r]] pg
  have "files st' (post_path (output_dir (init_generator ''posts'' ''out'')) \<lparr>title = ''Hello World'', date = ''2024-01-01'', author = ''Anonymous'', tags = [], slug = ''hello-world'', content = ''Body'', filename = ''a''\<rparr>) = Some ''Hello World''"
    by simp
  then show ?thesis using e r by (simp add: post_path_def init_generator_def)
qed

theorem generate_blog_distinct_slugs_witness:
  "case fst (generate_blog ''2024-01-01'' Inr
      \<lparr>render_post = title, render_index = \<lambda>es. concat (map entry_title es), stylesheet = ''css''\<rparr>
      \<lparr>dir_exists = True, dir_entries = [\<lparr>file_name = ''a.md'', read_result = Inr (''---'' @ CHR 0x0A # ''title: Hello World'' @ CHR 0x0A # ''---Body'')\<rparr>, \<lparr>file_name = ''b.md'', read_result = Inr (''---'' @ CHR 0x0A # ''date: 2023-01-01'' @ CHR 0x0A # ''---Text'')\<rparr>]\<rparr>
      (init_generator ''posts'' ''out'') \<lparr>files = Map.empty, dirs = {}, denied = {}\<rparr>) of
     Inl _ \<Rightarrow> False
   | Inr (g', st') \<Rightarrow> files st' [''out'', ''posts'', ''hello-world.html''] = Some ''Hello World'' \<and>
                        files st' [''out'', ''posts'', ''untitled.html''] = Some ''Untitled''"
proof -
  obtain res log where e: "generate_blog ''2024-01-01'' Inr
      \<lparr>render_post = title, render_index = \<lambda>es. concat (map entry_title es), stylesheet = ''css''\<rparr>
      \<lparr>dir_exists = True, dir_entries = [\<lparr>file_name = ''a.md'', read_result = Inr (''---'' @ CHR 0x0A # ''title: Hello World'' @ CHR 0x0A # ''---Body'')\<rparr>, \<lparr>file_name = ''b.md'', read_result = Inr (''---'' @ CHR 0x0A # ''date: 2023-01-01'' @ CHR 0x0A # ''---Text'')\<rparr>]\<rparr>
      (init_generator ''posts'' ''out'') \<lparr>files = Map.empty, dirs = {}, denied = {}\<rparr> = (res, log)" by fastforce
  have "case fst (generate_blog ''2024-01-01'' Inr
      \<lparr>render_post = title, render_index = \<lambda>es. concat (map entry_title es), stylesheet = ''css''\<rparr>
      \<lparr>dir_exists = True, dir_entries = [\<lparr>file_name = ''a.md'', read_result = Inr (''---'' @ CHR 0x0A # ''title: Hello World'' @ CHR 0x0A # ''---Body'')\<rparr>, \<lparr>file_name = ''b.md'', read_result = Inr (''---'' @ CHR 0x0A # ''date: 2023-01-01'' @ CHR 0x0A # ''---Text'')\<rparr>]\<rparr>
      (init_generator ''posts'' ''out'') \<lparr>files = Map.empty, dirs = {}, denied = {}\<rparr>) of Inl _ \<Rightarrow> False
        | Inr (g', st') \<Rightarrow> map (\<lambda>p. (slug p, title p)) (posts g') = [(''hello-world'', ''Hello World''), (''untitled'', ''Untitled'')]"
    by code_simp
  then obtain g' st' where r: "res = Inr (g', st')"
    and pg: "map (\<lambda>p. (slug p, title p)) (posts g') = [(''hello-world'', ''Hello World''), (''untitled'', ''Untitled'')]"
    using e by (auto split: sum.splits)
  obtain p1 p2 where ps: "posts g' = [p1, p2]" "slug p1 = ''hello-world''" "title p1 = ''Hello World''"
    "slug p2 = ''untitled''" "title p2 = ''Untitled''"
    using pg by (auto simp: map_eq_Cons_conv)
  have d: "distinct (map slug (posts g'))" using ps by simp
  have "files st' (post_path (output_dir (init_generator ''posts'' ''out'')) p1) = Some (title p1)"
    using generate_blog_distinct_slugs[OF e[unfolded r] d] ps by simp
  moreover have "files st' (post_path (output_dir (init_generator ''posts'' ''out'')) p2) = Some (title p2)"
    using generate_blog_distinct_slugs[OF e[unfolded r] d] ps by simp
  ultimately show ?thesis using e r ps by (simp add: post_path_def init_generator_def)
qed

theorem generate_blog_index_page_witness:
  "(case fst (generate_blog ''2024-01-01'' Inr
      \<lparr>render_post = title, render_index = \<lambda>es. concat (map entry_title es), stylesheet = ''css''\<rparr>
      \<lparr>dir_exists = True, dir_entries = [\<lparr>file_name = ''a.md'', read_result = Inr (''---'' @ CHR 0x0A # ''title: Hello World'' @ CHR 0x0A # ''---Body'')\<rparr>]\<rparr>
      (init_generator ''posts'' ''out'') \<lparr>files = Map.empty, dirs = {}, denied = {}\<rparr>) of
     Inl _ \<Rightarrow> False
   | Inr (g', st') \<Rightarrow> files st' [''out'', ''index.html''] = Some ''Hello World'' \<and>
                        files st' [''out'', ''styles.css''] = Some ''css'') \<and>
   snd (generate_blog ''2024-01-01'' Inr
      \<lparr>render_post = title, render_index = \<lambda>es. concat (map entry_title es), stylesheet = ''css''\<rparr>
      \<lparr>dir_exists = True, dir_entries = [\<lparr>file_name = ''a.md'', read_result = Inr (''---'' @ CHR 0x0A # ''title: Hello World'' @ CHR 0x0A # ''---Body'')\<rparr>]\<rparr>
      (init_generator ''posts'' ''out'') \<lparr>files = Map.empty, dirs = {}, denied = {}\<rparr>) =
     [Starting, FoundFiles 1, Processed ''Hello World'', GeneratingPostPages, GeneratingIndex,
      GeneratingCss, Generated ''out'' 1]"
proof -
  obtain res log where e: "generate_blog ''2024-01-01'' Inr
      \<lparr>render_post = title, render_index = \<lambda>es. concat (map entry_title es), stylesheet = ''css''\<rparr>
      \<lparr>dir_exists = True, dir_entries = [\<lparr>file_name = ''a.md'', read_result = Inr (''---'' @ CHR 0x0A # ''title: Hello World'' @ CHR 0x0A # ''---Body'')\<rparr>]\<rparr>
      (init_generator ''posts'' ''out'') \<lparr>files = Map.empty, dirs = {}, denied = {}\<rparr> = (res, log)" by fastforce
  have "case fst (generate_blog ''2024-01-01'' Inr
      \<lparr>render_post = title, render_index = \<lambda>es. concat (map entry_title es), stylesheet = ''css''\<rparr>
      \<lparr>dir_exists = True, dir_entries = [\<lparr>file_name = ''a.md'', read_result = Inr (''---'' @ CHR 0x0A # ''title: Hello World'' @ CHR 0x0A # ''---Body'')\<rparr>]\<rparr>
      (init_generator ''posts'' ''out'') \<lparr>files = Map.empty, dirs = {}, denied = {}\<rparr>) of Inl _ \<Rightarrow> False | Inr (g', st') \<Rightarrow> posts g' = [\<lparr>title = ''Hello World'', date = ''2024-01-01'', author = ''Anonymous'', tags = [], slug = ''hello-world'', content = ''Body'', filename = ''a''\<rparr>]"
    by code_simp
  then obtain g' st' where r: "res = Inr (g', st')" and pg: "posts g' = [\<lparr>title = ''Hello World'', date = ''2024-01-01'', author = ''Anonymous'', tags = [], slug = ''hello-world'', content = ''Body'', filename = ''a''\<rparr>]"
    using e by (auto split: sum.splits)
  have pp: "snd (process_posts ''2024-01-01'' Inr \<lparr>dir_exists = True, dir_entries = [\<lparr>file_name = ''a.md'', read_result = Inr (''---'' @ CHR 0x0A # ''title: Hello World'' @ CHR 0x0A # ''---Body'')\<rparr>]\<rparr> (init_generator ''posts'' ''out'')) =
      [FoundFiles 1, Processed ''Hello World'']"
    by code_simp
  from generate_blog_index_page[OF e[unfolded r]] pg pp show ?thesis
    using e r by (simp add: init_generator_def index_view_def)
qed

theorem generate_blog_links_resolve_witness:
  "case fst (generate_blog ''2024-01-01'' Inr
      \<lparr>render_post = title, render_index = \<lambda>es. concat (map entry_title es), stylesheet = ''css''\<rparr>
      \<lparr>dir_exists = True, dir_entries = [\<lparr>file_name = ''a.md'', read_result = Inr (''---'' @ CHR 0x0A # ''title: Hello World'' @ CHR 0x0A # ''---Body'')\<rparr>]\<rparr>
      (init_generator ''posts'' ''out'') \<lparr>files = Map.empty, dirs = {}, denied = {}\<rparr>) of
     Inl _ \<Rightarrow> False
   | Inr (g', st') \<Rightarrow> entry_href (index_view (hd (posts g'))) = ''posts/hello-world.html'' \<and>
       files st' (''out'' # py_split CHR ''/'' (entry_href (index_view (hd (posts g'))))) = Some ''Hello World''"
proof -
  obtain res log where e: "generate_blog ''2024-01-01'' Inr
      \<lparr>render_post = title, render_index = \<lambda>es. concat (map entry_title es), stylesheet = ''css''\<rparr>
      \<lparr>dir_exists = True, dir_entries = [\<lparr>file_name = ''a.md'', read_result = Inr (''---'' @ CHR 0x0A # ''title: Hello World'' @ CHR 0x0A # ''---Body'')\<rparr>]\<rparr>
      (init_generator ''posts'' ''out'') \<lparr>files = Map.empty, dirs = {}, denied = {}\<rparr> = (res, log)" by fastforce
  have "case fst (generate_blog ''2024-01-01'' Inr
      \<lparr>render_post = title, render_index = \<lambda>es. concat (map entry_title es), stylesheet = ''css''\<rparr>
      \<lparr>dir_exists = True, dir_entries = [\<lparr>file_name = ''a.md'', read_result = Inr (''---'' @ CHR 0x0A # ''title: Hello World'' @ CHR 0x0A # ''---Body'')\<rparr>]\<rparr>
      (init_generator ''posts'' ''out'') \<lparr>files = Map.empty, dirs = {}, denied = {}\<rparr>) of Inl _ \<Rightarrow> False | Inr (g', st') \<Rightarrow> posts g' = [\<lparr>title = ''Hello World'', date = ''2024-01-01'', author = ''Anonymous'', tags = [], slug = ''hello-world'', content = ''Body'', filename = ''a''\<rparr>]"
    by code_simp
  then obtain g' st' where r: "res = Inr (g', st')" and pg: "posts g' = [\<lparr>title = ''Hello World'', date = ''2024-01-01'', author = ''Anonymous'', tags = [], slug = ''hello-world'', content = ''Body'', filename = ''a''\<rparr>]"
    using e by (auto split: sum.splits)
  from generate_blog_links_resolve[OF e[unfolded r]] pg
  have "files st' (''out'' # py_split CHR ''/'' (entry_href (index_view \<lparr>title = ''Hello World'', date = ''2024-01-01'', author = ''Anonymous'', tags = [], slug = ''hello-world'', content = ''Body'', filename = ''a''\<rparr>))) = Some ''Hello World''"
    by simp
  then show ?thesis using e r pg by (simp add: index_view_def post_href_def)
qed

theorem generate_blog_page_write_failure_witness:
  "isl (fst (generate_blog ''2024-01-01'' Inr
      \<lparr>render_post = title, render_index = \<lambda>es. concat (map entry_title es), stylesheet = ''css''\<rparr>
      \<lparr>dir_exists = True, dir_entries = [\<lparr>file_name = ''a.md'', read_result = Inr (''---'' @ CHR 0x0A # ''title: Hello World'' @ CHR 0x0A # ''---Body'')\<rparr>]\<rparr>
      (init_generator ''posts'' ''out'') \<lparr>files = Map.empty, dirs = {}, denied = {[''out'', ''posts'', ''hello-world.html'']}\<rparr>)) \<and>
   snd (generate_blog ''2024-01-01'' Inr
      \<lparr>render_post = title, render_index = \<lambda>es. concat (map entry_title es), stylesheet = ''css''\<rparr>
      \<lparr>dir_exists = True, dir_entries = [\<lparr>file_name = ''a.md'', read_result = Inr (''---'' @ CHR 0x0A # ''title: Hello World'' @ CHR 0x0A # ''---Body'')\<rparr>]\<rparr>
      (init_generator ''posts'' ''out'') \<lparr>files = Map.empty, dirs = {}, denied = {[''out'', ''posts'', ''hello-world.html'']}\<rparr>) = [Starting, FoundFiles 1, Processed ''Hello World'', GeneratingPostPages]"
proof -
  have pp: "process_posts ''2024-01-01'' Inr \<lparr>dir_exists = True, dir_entries = [\<lparr>file_name = ''a.md'', read_result = Inr (''---'' @ CHR 0x0A # ''title: Hello World'' @ CHR 0x0A # ''---Body'')\<rparr>]\<rparr> (init_generator ''posts'' ''out'') =
      (\<lparr>source_dir = ''posts'', output_dir = ''out'', posts = [\<lparr>title = ''Hello World'', date = ''2024-01-01'', author = ''Anonymous'', tags = [], slug = ''hello-world'', content = ''Body'', filename = ''a''\<rparr>]\<rparr>, [FoundFiles 1, Processed ''Hello World''])"
    by code_simp
  obtain st1 st1' where m: "mkdir_p \<lparr>files = Map.empty, dirs = {}, denied = {[''out'', ''posts'', ''hello-world.html'']}\<rparr> [output_dir (init_generator ''posts'' ''out'')] = Inr st1"
    "mkdir_p st1 [output_dir (init_generator ''posts'' ''out''), ''posts''] = Inr st1'"
    by (simp add: mkdir_p_def ancestors_def init_generator_def)
  have "\<exists>e. generate_blog ''2024-01-01'' Inr
      \<lparr>render_post = title, render_index = \<lambda>es. concat (map entry_title es), stylesheet = ''css''\<rparr>
      \<lparr>dir_exists = True, dir_entries = [\<lparr>file_name = ''a.md'', read_result = Inr (''---'' @ CHR 0x0A # ''title: Hello World'' @ CHR 0x0A # ''---Body'')\<rparr>]\<rparr>
      (init_generator ''posts'' ''out'') \<lparr>files = Map.empty, dirs = {}, denied = {[''out'', ''posts'', ''hello-world.html'']}\<rparr> = (Inl e, Starting # [FoundFiles 1, Processed ''Hello World''] @ [GeneratingPostPages])"
    by (rule generate_blog_page_write_failure[OF pp _ m, of "\<lparr>title = ''Hello World'', date = ''2024-01-01'', author = ''Anonymous'', tags = [], slug = ''hello-world'', content = ''Body'', filename = ''a''\<rparr>"])
       (simp_all add: post_path_def init_generator_def)
  then show ?thesis by auto
qed

end
