(* ===== verification/Todo.thy ===== *)
theory Todo
  imports Prelude
begin

text \<open>
  The todo command-line tool (src/outputs/03-todo-cli-tool/todo.py): \<open>TodoManager\<close> keeps
  the task list in memory, loaded from \<open>todos.json\<close> when constructed and written back
  after every change; \<open>main\<close> dispatches on \<open>sys.argv\<close>.

  A task dict is a record; the optional key \<open>completed_at\<close>, set only by
  \<open>complete_task\<close>, is an option. The JSON file is the abstract value \<open>todo_file\<close>:
  missing, unreadable (\<open>open\<close> raises \<open>OSError\<close>), not valid JSON (\<open>json.load\<close> raises
  \<open>JSONDecodeError\<close>, caught), or a stored task list (\<open>json.dump\<close> and \<open>json.load\<close> are
  inverse on the lists of dicts the program writes); a read-only file makes \<open>open(..., 'w')\<close>
  raise \<open>OSError\<close>. \<open>datetime.now().isoformat()\<close> is the parameter \<open>now\<close>. The printed
  lines are the messages of \<open>todo_msg\<close>, the task ids in them printed by \<open>str\<close>.
\<close>

record task =
  task_id :: int
  description :: string
  completed :: bool
  created_at :: string
  completed_at :: "string option"

datatype todo_file = Missing | Unreadable | Corrupt | Stored "task list"

record todo_fs =
  todo_file :: todo_file
  read_only :: bool

record todo_manager =
  filename :: string
  todos :: "task list"

datatype todo_msg =
    Added string
  | NoTasks
  | TasksHeader
  | TaskLine bool string string
  | BlankLine
  | CompletedTask string
  | DeletedTask string
  | TaskNotFound string
  | HelpText
  | NeedDescription
  | NeedTaskId
  | IdNotNumber
  | UnknownCommand string

type_synonym todo_run = "(py_error + todo_manager \<times> todo_fs) \<times> todo_msg list"

text \<open>\<open>load_todos\<close> (lines 13--20) and the constructor (lines 9--11).\<close>

definition load_todos :: "todo_fs \<Rightarrow> py_error + task list" where
  "load_todos fs =
     (case todo_file fs of
        Missing \<Rightarrow> Inr []
      | Unreadable \<Rightarrow> Inl OSError
      | Corrupt \<Rightarrow> Inr []
      | Stored ts \<Rightarrow> Inr ts)"

definition init_manager :: "todo_fs \<Rightarrow> py_error + todo_manager" where
  "init_manager fs =
     (case load_todos fs of
        Inl e \<Rightarrow> Inl e
      | Inr ts \<Rightarrow> Inr \<lparr>filename = ''todos.json'', todos = ts\<rparr>)"

text \<open>\<open>save_todos\<close> (lines 22--24).\<close>

definition save_todos :: "todo_manager \<Rightarrow> todo_fs \<Rightarrow> py_error + todo_fs" where
  "save_todos m fs = (if read_only fs then Inl OSError else Inr (fs\<lparr>todo_file := Stored (todos m)\<rparr>))"

text \<open>\<open>add_task\<close> (lines 26--35): the new id is one more than the number of tasks.\<close>

definition add_task :: "string \<Rightarrow> string \<Rightarrow> todo_manager \<Rightarrow> todo_fs \<Rightarrow> todo_run" where
  "add_task now desc m fs =
     (let task = \<lparr>task_id = int (length (todos m)) + 1, description = desc, completed = False,
                  created_at = now, completed_at = None\<rparr>;
          m' = m\<lparr>todos := todos m @ [task]\<rparr>
      in case save_todos m' fs of
           Inl e \<Rightarrow> (Inl e, [])
         | Inr fs' \<Rightarrow> (Inr (m', fs'), [Added desc]))"

text \<open>\<open>list_tasks\<close> (lines 37--47).\<close>

definition list_tasks :: "todo_manager \<Rightarrow> todo_msg list" where
  "list_tasks m =
     (if todos m = [] then [NoTasks]
      else TasksHeader # map (\<lambda>t. TaskLine (completed t) (py_str_int (task_id t)) (description t)) (todos m)
           @ [BlankLine])"

text \<open>The loop of \<open>complete_task\<close> (lines 50--56): the first task with the id is marked
  completed, with the completion time; the loop returns at once.\<close>

fun complete_loop :: "string \<Rightarrow> int \<Rightarrow> task list \<Rightarrow> (task list \<times> task) option" where
  "complete_loop now tid [] = None"
| "complete_loop now tid (t # ts) =
     (if task_id t = tid then Some (t\<lparr>completed := True, completed_at := Some now\<rparr> # ts, t)
      else (case complete_loop now tid ts of
              None \<Rightarrow> None
            | Some (ts', d) \<Rightarrow> Some (t # ts', d)))"

definition complete_task :: "string \<Rightarrow> int \<Rightarrow> todo_manager \<Rightarrow> todo_fs \<Rightarrow> todo_run" where
  "complete_task now tid m fs =
     (case complete_loop now tid (todos m) of
        None \<Rightarrow> (Inr (m, fs), [TaskNotFound (py_str_int tid)])
      | Some (ts', t) \<Rightarrow>
          (let m' = m\<lparr>todos := ts'\<rparr>
           in case save_todos m' fs of
                Inl e \<Rightarrow> (Inl e, [])
              | Inr fs' \<Rightarrow> (Inr (m', fs'), [CompletedTask (description t)])))"

text \<open>The loop of \<open>delete_task\<close> (lines 60--65): \<open>self.todos.pop(i)\<close> at the first index
  with the id.\<close>

fun delete_loop :: "int \<Rightarrow> task list \<Rightarrow> (task list \<times> task) option" where
  "delete_loop tid [] = None"
| "delete_loop tid (t # ts) =
     (if task_id t = tid then Some (ts, t)
      else (case delete_loop tid ts of
              None \<Rightarrow> None
            | Some (ts', d) \<Rightarrow> Some (t # ts', d)))"

definition delete_task :: "int \<Rightarrow> todo_manager \<Rightarrow> todo_fs \<Rightarrow> todo_run" where
  "delete_task tid m fs =
     (case delete_loop tid (todos m) of
        None \<Rightarrow> (Inr (m, fs), [TaskNotFound (py_str_int tid)])
      | Some (ts', t) \<Rightarrow>
          (let m' = m\<lparr>todos := ts'\<rparr>
           in case save_todos m' fs of
                Inl e \<Rightarrow> (Inl e, [])
              | Inr fs' \<Rightarrow> (Inr (m', fs'), [DeletedTask (description t)])))"

text \<open>The end of \<open>main\<close>: the manager is dropped, the file remains.\<close>

fun finish_run :: "todo_run \<Rightarrow> (py_error + todo_fs) \<times> todo_msg list" where
  "finish_run (Inl e, log) = (Inl e, log)"
| "finish_run (Inr (m, fs), log) = (Inr fs, log)"

text \<open>\<open>main\<close> (lines 85--128). \<open>argv\<close> includes the program name; the manager is constructed,
  and so the file read, before the command is inspected. \<open>int()\<close> raises only
  \<open>ValueError\<close>; the manager methods raise only \<open>OSError\<close>, which no handler catches.\<close>

definition todo_main :: "string \<Rightarrow> string list \<Rightarrow> todo_fs \<Rightarrow> (py_error + todo_fs) \<times> todo_msg list" where
  "todo_main now argv fs =
     (if length argv < 2 then (Inr fs, [HelpText])
      else
        (case init_manager fs of
           Inl e \<Rightarrow> (Inl e, [])
         | Inr m \<Rightarrow>
             (let command = py_lower (argv ! 1)
              in if command = ''add'' then
                   (if length argv < 3 then (Inr fs, [NeedDescription])
                    else finish_run (add_task now (py_join '' '' (drop 2 argv)) m fs))
                 else if command = ''list'' then (Inr fs, list_tasks m)
                 else if command = ''complete'' then
                   (if length argv < 3 then (Inr fs, [NeedTaskId])
                    else (case py_int (argv ! 2) of
                            Inl _ \<Rightarrow> (Inr fs, [IdNotNumber])
                          | Inr tid \<Rightarrow> finish_run (complete_task now tid m fs)))
                 else if command = ''delete'' then
                   (if length argv < 3 then (Inr fs, [NeedTaskId])
                    else (case py_int (argv ! 2) of
                            Inl _ \<Rightarrow> (Inr fs, [IdNotNumber])
                          | Inr tid \<Rightarrow> finish_run (delete_task tid m fs)))
                 else if command = ''help'' then (Inr fs, [HelpText])
                 else (Inr fs, [UnknownCommand command, HelpText]))))"

text \<open>Successive invocations of the tool on one file, each at its own time.\<close>

fun todo_session :: "(string \<times> string list) list \<Rightarrow> todo_fs \<Rightarrow> (py_error + todo_fs) \<times> todo_msg list" where
  "todo_session [] fs = (Inr fs, [])"
| "todo_session ((now, argv) # cmds) fs =
     (case todo_main now argv fs of
        (Inl e, log) \<Rightarrow> (Inl e, log)
      | (Inr fs', log) \<Rightarrow> (let (r, log') = todo_session cmds fs' in (r, log @ log')))"

text \<open>The states of the file reachable by invocations that return normally.\<close>

inductive todo_reachable :: "todo_fs \<Rightarrow> bool" where
  start: "todo_file fs \<in> {Missing, Corrupt} \<Longrightarrow> todo_reachable fs"
| step: "todo_reachable fs \<Longrightarrow> todo_main now argv fs = (Inr fs', log) \<Longrightarrow> todo_reachable fs'"

text \<open>Abstract specification of one change of the stored list: a task appended with the next
  id, the first task with some id completed, or the first task with some id removed.\<close>

inductive todo_change :: "string \<Rightarrow> task list \<Rightarrow> task list \<Rightarrow> bool" where
  add: "todo_change now ts (ts @ [\<lparr>task_id = int (length ts) + 1, description = d, completed = False,
                                  created_at = now, completed_at = None\<rparr>])"
| complete: "task_id t \<notin> task_id ` set a \<Longrightarrow>
     todo_change now (a @ t # b) (a @ t\<lparr>completed := True, completed_at := Some now\<rparr> # b)"
| delete: "task_id t \<notin> task_id ` set a \<Longrightarrow> todo_change now (a @ t # b) (a @ b)"

definition task_wf :: "task \<Rightarrow> bool" where
  "task_wf t \<longleftrightarrow> 1 \<le> task_id t \<and> (completed t \<longleftrightarrow> completed_at t \<noteq> None)"

definition file_wf :: "todo_fs \<Rightarrow> bool" where
  "file_wf fs \<longleftrightarrow> (case todo_file fs of Stored ts \<Rightarrow> list_all task_wf ts | Unreadable \<Rightarrow> False | _ \<Rightarrow> True)"

lemma complete_loop_None: "complete_loop now tid ts = None \<longleftrightarrow> tid \<notin> task_id ` set ts"
proof (induction ts)
  case (Cons x xs)
  show ?case using Cons.IH by (cases "complete_loop now tid xs") (simp_all split: prod.split)
qed simp

lemma complete_loop_found:
  "tid \<notin> task_id ` set a \<Longrightarrow> task_id t = tid \<Longrightarrow>
     complete_loop now tid (a @ t # b) = Some (a @ t\<lparr>completed := True, completed_at := Some now\<rparr> # b, t)"
  by (induction a) auto

lemma first_with_id:
  assumes "tid \<in> task_id ` set ts"
  obtains a t b where "ts = a @ t # b" "tid \<notin> task_id ` set a" "task_id t = tid"
proof -
  have "\<exists>y\<in>set ts. task_id y = tid" using assms by blast
  from split_list_first_prop[OF this] obtain a t b
    where "ts = a @ t # b" "task_id t = tid" "\<forall>y\<in>set a. task_id y \<noteq> tid" by blast
  then show ?thesis using that by (metis imageE)
qed

lemma complete_loop_Some:
  "complete_loop now tid ts = Some (ts', t) \<longleftrightarrow>
     (\<exists>a b. ts = a @ t # b \<and> tid \<notin> task_id ` set a \<and> task_id t = tid \<and>
            ts' = a @ t\<lparr>completed := True, completed_at := Some now\<rparr> # b)"
proof
  assume h: "complete_loop now tid ts = Some (ts', t)"
  then have "tid \<in> task_id ` set ts" using complete_loop_None[of now tid ts] by auto
  then obtain a t0 b where ts: "ts = a @ t0 # b" "tid \<notin> task_id ` set a" "task_id t0 = tid"
    by (rule first_with_id)
  then show "\<exists>a b. ts = a @ t # b \<and> tid \<notin> task_id ` set a \<and> task_id t = tid \<and>
            ts' = a @ t\<lparr>completed := True, completed_at := Some now\<rparr> # b"
    using h complete_loop_found[OF ts(2,3), of now b] by auto
qed (auto simp: complete_loop_found)

lemma delete_loop_None: "delete_loop tid ts = None \<longleftrightarrow> tid \<notin> task_id ` set ts"
proof (induction ts)
  case (Cons x xs)
  show ?case using Cons.IH by (cases "delete_loop tid xs") (simp_all split: prod.split)
qed simp

lemma delete_loop_found:
  "tid \<notin> task_id ` set a \<Longrightarrow> task_id t = tid \<Longrightarrow> delete_loop tid (a @ t # b) = Some (a @ b, t)"
  by (induction a) auto

lemma delete_loop_Some:
  "delete_loop tid ts = Some (ts', t) \<longleftrightarrow>
     (\<exists>a b. ts = a @ t # b \<and> tid \<notin> task_id ` set a \<and> task_id t = tid \<and> ts' = a @ b)"
proof
  assume h: "delete_loop tid ts = Some (ts', t)"
  then have "tid \<in> task_id ` set ts" using delete_loop_None[of tid ts] by auto
  then obtain a t0 b where ts: "ts = a @ t0 # b" "tid \<notin> task_id ` set a" "task_id t0 = tid"
    by (rule first_with_id)
  then show "\<exists>a b. ts = a @ t # b \<and> tid \<notin> task_id ` set a \<and> task_id t = tid \<and> ts' = a @ b"
    using h delete_loop_found[OF ts(2,3), of b] by auto
qed (auto simp: delete_loop_found)

lemma save_todos_Inr: "save_todos m fs = Inr fs' \<longleftrightarrow> \<not> read_only fs \<and> fs' = fs\<lparr>todo_file := Stored (todos m)\<rparr>"
  by (auto simp: save_todos_def)

lemma add_task_Inr:
  "add_task now d m fs = (Inr (m', fs'), log) \<Longrightarrow>
     \<not> read_only fs \<and> todo_change now (todos m) (todos m') \<and> fs' = fs\<lparr>todo_file := Stored (todos m')\<rparr>"
  by (auto simp: add_task_def Let_def save_todos_Inr intro: todo_change.add split: sum.splits)

lemma complete_task_Inr:
  "complete_task now tid m fs = (Inr (m', fs'), log) \<Longrightarrow>
     fs' = fs \<or> (\<not> read_only fs \<and> todo_change now (todos m) (todos m') \<and> fs' = fs\<lparr>todo_file := Stored (todos m')\<rparr>)"
  by (auto simp: complete_task_def Let_def save_todos_Inr complete_loop_Some todo_change.complete
      split: sum.splits option.splits)

lemma delete_task_Inr:
  "delete_task tid m fs = (Inr (m', fs'), log) \<Longrightarrow>
     fs' = fs \<or> (\<not> read_only fs \<and> todo_change now (todos m) (todos m') \<and> fs' = fs\<lparr>todo_file := Stored (todos m')\<rparr>)"
  by (auto simp: delete_task_def Let_def save_todos_Inr delete_loop_Some todo_change.delete
      split: sum.splits option.splits)

lemma finish_run_Inr: "finish_run r = (Inr fs', log) \<Longrightarrow> \<exists>m. r = (Inr (m, fs'), log)"
  by (cases r rule: finish_run.cases) auto

lemma init_manager_Inr: "init_manager fs = Inr m \<longleftrightarrow> load_todos fs = Inr (todos m) \<and> m = \<lparr>filename = ''todos.json'', todos = todos m\<rparr>"
  by (auto simp: init_manager_def split: sum.splits)

lemma todo_main_refines:
  assumes "todo_main now argv fs = (Inr fs', log)"
  shows "fs' = fs \<or>
         (\<exists>ts ts'. load_todos fs = Inr ts \<and> \<not> read_only fs \<and> todo_change now ts ts' \<and>
                   fs' = fs\<lparr>todo_file := Stored ts'\<rparr>)"
proof (cases "length argv < 2")
  case True
  then show ?thesis using assms by (simp add: todo_main_def)
next
  case False
  then obtain m where m: "init_manager fs = Inr m"
    using assms by (auto simp: todo_main_def split: sum.splits)
  then have ld: "load_todos fs = Inr (todos m)" by (simp add: init_manager_Inr)
  let ?G = "fs' = fs \<or> (\<exists>ts'. \<not> read_only fs \<and> todo_change now (todos m) ts' \<and>
                         fs' = fs\<lparr>todo_file := Stored ts'\<rparr>)"
  have fa: ?G if "finish_run (add_task now d m fs) = (Inr fs', l)" for d l
    using finish_run_Inr[OF that] add_task_Inr by blast
  have fc: ?G if "finish_run (complete_task now tid m fs) = (Inr fs', l)" for tid l
    using finish_run_Inr[OF that] complete_task_Inr by blast
  have fd: ?G if "finish_run (delete_task tid m fs) = (Inr fs', l)" for tid l
    using finish_run_Inr[OF that] delete_task_Inr by blast
  show ?thesis
    using assms False m ld
    by (auto simp: todo_main_def Let_def split: if_splits sum.splits dest: fa fc fd)
qed

lemma todo_change_wf: "todo_change now ts ts' \<Longrightarrow> list_all task_wf ts \<Longrightarrow> list_all task_wf ts'"
  by (induction rule: todo_change.induct) (auto simp: task_wf_def)

lemma load_todos_wf: "file_wf fs \<Longrightarrow> load_todos fs = Inr ts \<Longrightarrow> list_all task_wf ts"
  by (auto simp: file_wf_def load_todos_def split: todo_file.splits)

lemma todo_main_add_cmd:
  "load_todos fs = Inr ts \<Longrightarrow> py_lower c = ''add'' \<Longrightarrow>
     todo_main now (p # c # w # ws) fs =
       finish_run (add_task now (py_join '' '' (w # ws)) \<lparr>filename = ''todos.json'', todos = ts\<rparr> fs)"
  by (simp add: todo_main_def init_manager_def)

lemma todo_main_id_cmd:
  "load_todos fs = Inr ts \<Longrightarrow> py_int s = Inr tid \<Longrightarrow>
     todo_main now [p, ''complete'', s] fs =
       finish_run (complete_task now tid \<lparr>filename = ''todos.json'', todos = ts\<rparr> fs) \<and>
     todo_main now [p, ''delete'', s] fs =
       finish_run (delete_task tid \<lparr>filename = ''todos.json'', todos = ts\<rparr> fs)"
  by (simp add: todo_main_def init_manager_def py_lower_def py_lower_char_def is_upper_ascii_def)

lemma list_tasks_ids:
  "TaskLine st i d \<in> set (list_tasks m) \<Longrightarrow> \<exists>t\<in>set (todos m). i = py_str_int (task_id t)"
  by (auto simp: list_tasks_def split: if_splits)

text \<open>C24: \<open>todo.py add w ...\<close> (the command in any letter case) appends a task whose id is one
  more than the number of tasks, whose description is the remaining arguments joined by spaces,
  not completed and created now, writes the list back and reports it; on a read-only file the
  write raises \<open>OSError\<close> and nothing is reported.\<close>

theorem todo_add:
  assumes "load_todos fs = Inr ts" and "py_lower c = ''add''"
  shows "todo_main now (p # c # w # ws) fs =
           (if read_only fs then (Inl OSError, [])
            else (Inr (fs\<lparr>todo_file := Stored (ts @ [\<lparr>task_id = int (length ts) + 1,
                     description = py_join '' '' (w # ws), completed = False, created_at = now,
                     completed_at = None\<rparr>])\<rparr>),
                  [Added (py_join '' '' (w # ws))]))"
  using todo_main_add_cmd[OF assms] by (simp add: add_task_def save_todos_def)

text \<open>C25: every session of invocations that returns normally changes the stored task list by a
  sequence of steps of the abstract specification \<open>todo_change\<close>: appending a task with the
  next id, completing the first task with some id, or removing the first task with some id.\<close>

theorem todo_session_refines:
  "todo_session cmds fs = (Inr fs', log) \<Longrightarrow> load_todos fs = Inr ts \<Longrightarrow>
     \<exists>ts'. load_todos fs' = Inr ts' \<and> (\<lambda>a b. \<exists>now. todo_change now a b)\<^sup>*\<^sup>* ts ts'"
proof (induction cmds arbitrary: fs ts log)
  case Nil
  then show ?case by simp
next
  case (Cons cmd cmds)
  obtain now argv where cmd: "cmd = (now, argv)" by fastforce
  obtain fs1 l1 l2 where m: "todo_main now argv fs = (Inr fs1, l1)"
    and r: "todo_session cmds fs1 = (Inr fs', l2)"
    using Cons.prems(1) cmd by (auto split: prod.splits sum.splits)
  have "\<exists>ts1. load_todos fs1 = Inr ts1 \<and> (\<lambda>a b. \<exists>now. todo_change now a b)\<^sup>*\<^sup>* ts ts1"
  proof (cases "fs1 = fs")
    case True
    then show ?thesis using Cons.prems(2) by auto
  next
    case False
    then obtain ts0 ts1 where "load_todos fs = Inr ts0" "todo_change now ts0 ts1"
      "fs1 = fs\<lparr>todo_file := Stored ts1\<rparr>"
      using todo_main_refines[OF m] by blast
    then show ?thesis using Cons.prems(2)
      by (intro exI[of _ ts1]) (auto simp: load_todos_def intro: r_into_rtranclp)
  qed
  then show ?case using Cons.IH[OF r] by (meson rtranclp_trans)
qed

text \<open>C26: in every state of the file reachable from a missing or corrupt file by invocations
  that return normally, the file holds a task list in which every id is positive and a task
  has a completion time exactly when it is completed.\<close>

theorem todo_reachable_wf: "todo_reachable fs \<Longrightarrow> file_wf fs"
proof (induction rule: todo_reachable.induct)
  case (start fs)
  then show ?case by (auto simp: file_wf_def)
next
  case (step fs now argv fs' log)
  show ?case
  proof (cases "fs' = fs")
    case False
    then obtain ts ts' where "load_todos fs = Inr ts" "todo_change now ts ts'"
      "fs' = fs\<lparr>todo_file := Stored ts'\<rparr>"
      using todo_main_refines[OF step.hyps(2)] by blast
    then show ?thesis using todo_change_wf load_todos_wf[OF step.IH] by (simp add: file_wf_def)
  qed (use step.IH in simp)
qed

text \<open>C27: every id printed by \<open>todo.py list\<close>, passed back to \<open>todo.py complete\<close>, completes
  the first task with that id (and no other task), stamped with the completion time.\<close>

theorem complete_listed_id:
  assumes "load_todos fs = Inr ts" and "\<not> read_only fs"
    and "TaskLine st i d \<in> set (snd (todo_main now0 [p, ''list''] fs))"
  shows "\<exists>a t b. ts = a @ t # b \<and> i = py_str_int (task_id t) \<and> task_id t \<notin> task_id ` set a \<and>
           todo_main now [p, ''complete'', i] fs =
             (Inr (fs\<lparr>todo_file := Stored (a @ t\<lparr>completed := True, completed_at := Some now\<rparr> # b)\<rparr>),
              [CompletedTask (description t)])"
proof -
  have "snd (todo_main now0 [p, ''list''] fs) = list_tasks \<lparr>filename = ''todos.json'', todos = ts\<rparr>"
    using assms(1)
    by (simp add: todo_main_def init_manager_def py_lower_def py_lower_char_def is_upper_ascii_def)
  then obtain t0 where t0: "t0 \<in> set ts" "i = py_str_int (task_id t0)"
    using list_tasks_ids assms(3) by fastforce
  then have "task_id t0 \<in> task_id ` set ts" by blast
  then obtain a t b where ts: "ts = a @ t # b" "task_id t0 \<notin> task_id ` set a" "task_id t = task_id t0"
    by (rule first_with_id)
  have "todo_main now [p, ''complete'', i] fs =
          finish_run (complete_task now (task_id t0) \<lparr>filename = ''todos.json'', todos = ts\<rparr> fs)"
    using todo_main_id_cmd[OF assms(1)] py_int_py_str_int t0(2) by blast
  also have "\<dots> = (Inr (fs\<lparr>todo_file := Stored (a @ t\<lparr>completed := True, completed_at := Some now\<rparr> # b)\<rparr>),
                   [CompletedTask (description t)])"
    using complete_loop_found[OF ts(2,3), of now b] ts(1) assms(2)
    by (simp add: complete_task_def save_todos_def)
  finally show ?thesis using ts t0(2) by (intro exI[of _ a] exI[of _ t] exI[of _ b]) simp
qed

text \<open>C28 (defect): ids are not unique. From tasks numbered 1 to n, deleting a task other than
  the last and then adding one gives the new task the id n, which the last task already has;
  \<open>complete\<close> and \<open>delete\<close> then reach only the first of the two.\<close>

theorem delete_add_duplicate_id:
  assumes "todo_file fs = Stored ts" and "\<not> read_only fs"
    and "map task_id ts = map int [1..<Suc n]" and "1 \<le> k" and "k < n"
  shows "\<exists>fs' log ts'. todo_session [(t1, [p, ''delete'', py_str_int (int k)]), (t2, [p, ''add'', d])] fs =
                         (Inr fs', log) \<and> todo_file fs' = Stored ts' \<and> \<not> distinct (map task_id ts')"
proof -
  have ld: "load_todos fs = Inr ts" using assms(1) by (simp add: load_todos_def)
  have len: "length ts = n" using arg_cong[OF assms(3), of length] by simp
  have "int k \<in> set (map task_id ts)" unfolding assms(3) using assms(4,5) by auto
  then have "int k \<in> task_id ` set ts" by simp
  then obtain a t b where ts: "ts = a @ t # b" "int k \<notin> task_id ` set a" "task_id t = int k"
    by (rule first_with_id)
  have "int n \<in> set (map task_id ts)" unfolding assms(3) using assms(5) by auto
  then have "int n \<in> task_id ` set ts" by simp
  then have nin: "int n \<in> task_id ` set (a @ b)" using ts assms(5) by auto
  let ?fs1 = "fs\<lparr>todo_file := Stored (a @ b)\<rparr>"
  have del: "todo_main t1 [p, ''delete'', py_str_int (int k)] fs = (Inr ?fs1, [DeletedTask (description t)])"
    using todo_main_id_cmd[OF ld py_int_py_str_int] delete_loop_found[OF ts(2,3), of b] ts(1) assms(2)
    by (simp add: delete_task_def save_todos_def)
  have "py_lower ''add'' = ''add''" by (simp add: py_lower_def py_lower_char_def is_upper_ascii_def)
  moreover have "load_todos ?fs1 = Inr (a @ b)" by (simp add: load_todos_def)
  ultimately have add: "todo_main t2 [p, ''add'', d] ?fs1 =
      (Inr (?fs1\<lparr>todo_file := Stored ((a @ b) @ [\<lparr>task_id = int (length (a @ b)) + 1, description = d,
          completed = False, created_at = t2, completed_at = None\<rparr>])\<rparr>), [Added d])"
    using todo_main_add_cmd[of ?fs1 "a @ b" "''add''" t2 p d "[]"] assms(2)
    by (simp add: add_task_def save_todos_def Let_def)
  have "int (length (a @ b)) + 1 = int n" using len ts(1) assms(5) by simp
  then have "\<not> distinct (map task_id ((a @ b) @ [\<lparr>task_id = int (length (a @ b)) + 1, description = d,
          completed = False, created_at = t2, completed_at = None\<rparr>]))"
    using nin by (simp add: image_Un) blast
  then show ?thesis using del add by simp
qed

text \<open>C29: \<open>complete\<close> or \<open>delete\<close> with an id no task has reports it as not found and leaves
  the file untouched: nothing is written, so even a read-only file raises nothing.\<close>

theorem todo_not_found_keeps_file:
  assumes "load_todos fs = Inr ts" and "py_int s = Inr tid" and "tid \<notin> task_id ` set ts"
    and "cmd \<in> {''complete'', ''delete''}"
  shows "todo_main now [p, cmd, s] fs = (Inr fs, [TaskNotFound (py_str_int tid)])"
proof -
  have "complete_loop now tid ts = None" "delete_loop tid ts = None"
    using assms(3) by (simp_all add: complete_loop_None delete_loop_None)
  then show ?thesis using todo_main_id_cmd[OF assms(1,2), of now p] assms(4)
    by (auto simp: complete_task_def delete_task_def)
qed

text \<open>C30: the manager reads the file before looking at the command, so with an unreadable file
  every command, \<open>help\<close> included, fails with \<open>OSError\<close> and prints nothing; only the
  invocation without arguments prints the help.\<close>

theorem todo_unreadable:
  "todo_file fs = Unreadable \<Longrightarrow>
     todo_main now argv fs = (if length argv < 2 then (Inr fs, [HelpText]) else (Inl OSError, []))"
  by (simp add: todo_main_def init_manager_def load_todos_def)

text \<open>Witnesses: invocations on small concrete files.\<close>

theorem todo_add_witness:
  "todo_main ''t0'' [''todo.py'', ''ADD'', ''Buy'', ''milk''] \<lparr>todo_file = Corrupt, read_only = False\<rparr> =
     (Inr \<lparr>todo_file = Stored [\<lparr>task_id = 1, description = ''Buy milk'', completed = False,
                                 created_at = ''t0'', completed_at = None\<rparr>], read_only = False\<rparr>,
      [Added ''Buy milk''])"
proof -
  have "py_lower ''ADD'' = ''add''" by code_simp
  from todo_add[OF _ this, of "\<lparr>todo_file = Corrupt, read_only = False\<rparr>" "[]" "''t0''" "''todo.py''"
      "''Buy''" "[''milk'']"]
  show ?thesis by (simp add: load_todos_def)
qed

theorem todo_session_refines_witness:
  "(\<lambda>a b. \<exists>now. todo_change now a b)\<^sup>*\<^sup>* [] [\<lparr>task_id = 1, description = ''a'', completed = True, created_at = ''t0'', completed_at = Some ''t1''\<rparr>]"
proof -
  have "todo_session [(''t0'', [''todo.py'', ''add'', ''a'']), (''t1'', [''todo.py'', ''complete'', ''1''])]
          \<lparr>todo_file = Missing, read_only = False\<rparr> =
        (Inr \<lparr>todo_file = Stored [\<lparr>task_id = 1, description = ''a'', completed = True, created_at = ''t0'', completed_at = Some ''t1''\<rparr>], read_only = False\<rparr>, [Added ''a'', CompletedTask ''a''])"
    by code_simp
  from todo_session_refines[OF this] show ?thesis by (simp add: load_todos_def)
qed

theorem todo_reachable_wf_witness:
  "todo_reachable \<lparr>todo_file = Stored [\<lparr>task_id = 1, description = ''a'', completed = True, created_at = ''t0'', completed_at = Some ''t1''\<rparr>], read_only = False\<rparr> \<and>
   file_wf \<lparr>todo_file = Stored [\<lparr>task_id = 1, description = ''a'', completed = True, created_at = ''t0'', completed_at = Some ''t1''\<rparr>], read_only = False\<rparr>"
proof -
  have r0: "todo_reachable \<lparr>todo_file = Missing, read_only = False\<rparr>" by (rule start) simp
  have "todo_main ''t0'' [''todo.py'', ''add'', ''a''] \<lparr>todo_file = Missing, read_only = False\<rparr> =
          (Inr \<lparr>todo_file = Stored [\<lparr>task_id = 1, description = ''a'', completed = False, created_at = ''t0'', completed_at = None\<rparr>], read_only = False\<rparr>, [Added ''a''])"
    by code_simp
  with r0 have r1: "todo_reachable \<lparr>todo_file = Stored [\<lparr>task_id = 1, description = ''a'', completed = False, created_at = ''t0'', completed_at = None\<rparr>], read_only = False\<rparr>" by (rule step)
  have "todo_main ''t1'' [''todo.py'', ''complete'', ''1''] \<lparr>todo_file = Stored [\<lparr>task_id = 1, description = ''a'', completed = False, created_at = ''t0'', completed_at = None\<rparr>], read_only = False\<rparr> =
          (Inr \<lparr>todo_file = Stored [\<lparr>task_id = 1, description = ''a'', completed = True, created_at = ''t0'', completed_at = Some ''t1''\<rparr>], read_only = False\<rparr>, [CompletedTask ''a''])"
    by code_simp
  with r1 have r2: "todo_reachable \<lparr>todo_file = Stored [\<lparr>task_id = 1, description = ''a'', completed = True, created_at = ''t0'', completed_at = Some ''t1''\<rparr>], read_only = False\<rparr>" by (rule step)
  then show ?thesis using todo_reachable_wf[OF r2] by simp
qed

theorem complete_listed_id_witness:
  "\<exists>a t b. [\<lparr>task_id = 1, description = ''a'', completed = False, created_at = ''t0'', completed_at = None\<rparr>, \<lparr>task_id = 2, description = ''b'', completed = False, created_at = ''t0'', completed_at = None\<rparr>] = a @ t # b \<and> ''2'' = py_str_int (task_id t) \<and> task_id t \<notin> task_id ` set a \<and>
     todo_main ''t9'' [''todo.py'', ''complete'', ''2''] \<lparr>todo_file = Stored [\<lparr>task_id = 1, description = ''a'', completed = False, created_at = ''t0'', completed_at = None\<rparr>, \<lparr>task_id = 2, description = ''b'', completed = False, created_at = ''t0'', completed_at = None\<rparr>], read_only = False\<rparr> =
       (Inr (\<lparr>todo_file = Stored [\<lparr>task_id = 1, description = ''a'', completed = False, created_at = ''t0'', completed_at = None\<rparr>, \<lparr>task_id = 2, description = ''b'', completed = False, created_at = ''t0'', completed_at = None\<rparr>], read_only = False\<rparr>\<lparr>todo_file :=
               Stored (a @ t\<lparr>completed := True, completed_at := Some ''t9''\<rparr> # b)\<rparr>),
        [CompletedTask (description t)])"
proof -
  have "TaskLine False ''2'' ''b'' \<in>
          set (snd (todo_main ''t0'' [''todo.py'', ''list''] \<lparr>todo_file = Stored [\<lparr>task_id = 1, description = ''a'', completed = False, created_at = ''t0'', completed_at = None\<rparr>, \<lparr>task_id = 2, description = ''b'', completed = False, created_at = ''t0'', completed_at = None\<rparr>], read_only = False\<rparr>))"
    by code_simp
  from complete_listed_id[OF _ _ this, of "[\<lparr>task_id = 1, description = ''a'', completed = False, created_at = ''t0'', completed_at = None\<rparr>, \<lparr>task_id = 2, description = ''b'', completed = False, created_at = ''t0'', completed_at = None\<rparr>]" "''t9''"] show ?thesis by (simp add: load_todos_def)
qed

theorem delete_add_duplicate_id_witness:
  "\<exists>fs' log ts'. todo_session [(''t1'', [''todo.py'', ''delete'', py_str_int (int 1)]), (''t2'', [''todo.py'', ''add'', ''c''])]
                   \<lparr>todo_file = Stored [\<lparr>task_id = 1, description = ''a'', completed = False, created_at = ''t0'', completed_at = None\<rparr>, \<lparr>task_id = 2, description = ''b'', completed = False, created_at = ''t0'', completed_at = None\<rparr>], read_only = False\<rparr> = (Inr fs', log) \<and>
                 todo_file fs' = Stored ts' \<and> \<not> distinct (map task_id ts')"
  by (rule delete_add_duplicate_id[of _ "[\<lparr>task_id = 1, description = ''a'', completed = False, created_at = ''t0'', completed_at = None\<rparr>, \<lparr>task_id = 2, description = ''b'', completed = False, created_at = ''t0'', completed_at = None\<rparr>]" 2]) (simp_all add: upt_rec)

theorem todo_not_found_keeps_file_witness:
  "todo_main ''t'' [''todo.py'', ''delete'', ''7''] \<lparr>todo_file = Stored [\<lparr>task_id = 1, description = ''a'', completed = False, created_at = ''t0'', completed_at = None\<rparr>], read_only = True\<rparr> =
     (Inr \<lparr>todo_file = Stored [\<lparr>task_id = 1, description = ''a'', completed = False, created_at = ''t0'', completed_at = None\<rparr>], read_only = True\<rparr>, [TaskNotFound ''7''])"
proof -
  have i: "py_int ''7'' = Inr 7" and s: "py_str_int 7 = ''7''" by code_simp+
  from todo_not_found_keeps_file[OF _ i, of "\<lparr>todo_file = Stored [\<lparr>task_id = 1, description = ''a'', completed = False, created_at = ''t0'', completed_at = None\<rparr>], read_only = True\<rparr>" "[\<lparr>task_id = 1, description = ''a'', completed = False, created_at = ''t0'', completed_at = None\<rparr>]" "''delete''"]
  show ?thesis by (simp add: load_todos_def s)
qed

theorem todo_unreadable_witness:
  "todo_main ''t'' [''todo.py'', ''help''] \<lparr>todo_file = Unreadable, read_only = False\<rparr> = (Inl OSError, [])"
  using todo_unreadable[of "\<lparr>todo_file = Unreadable, read_only = False\<rparr>" "''t''" "[''todo.py'', ''help'']"]
  by simp

end
