(* ===== verification/Organizer.thy ===== *)
theory Organizer
  imports Prelude "HOL-Library.AList"
begin

text \<open>
  The file organizer (src/outputs/05-file-organizer-script/organizer.py): \<open>FileOrganizer\<close>
  moves every regular, non-hidden file of a directory into a sub-directory named after the
  category of its extension, renaming it \<open>stem_1.ext\<close>, \<open>stem_2.ext\<close>, \<dots> when the name is
  taken, and prints a summary.

  The file system is an association list from paths (lists of names) to nodes, in the order
  \<open>iterdir\<close> lists them, together with the paths on which the operating system refuses an
  operation. \<open>Path.exists\<close>, \<open>is_file\<close>, \<open>is_dir\<close>, \<open>iterdir\<close>,
  \<open>mkdir(parents=True, exist_ok=True)\<close> and \<open>shutil.move\<close> are operations on it; the
  latter two raise \<open>OSError\<close>. \<open>shutil.move\<close> is \<open>os.rename\<close> on one file system:
  into an existing directory it moves under the source's name, and onto an existing file it
  replaces that file (POSIX), so only the rename loop keeps a file from being overwritten. The rename loop \<open>while destination.exists()\<close> is a
  \<open>partial_function\<close> in the option monad, \<open>None\<close> standing for a loop that does not end;
  the lemmas show it always ends. The printed lines are the messages of \<open>org_msg\<close>.
\<close>

type_synonym opath = "string list"

datatype node = OFile string | ODir

record ofs =
  onodes :: "(opath \<times> node) list"
  odenied :: "opath set"

definition oexists :: "ofs \<Rightarrow> opath \<Rightarrow> bool" where
  "oexists fs p \<longleftrightarrow> map_of (onodes fs) p \<noteq> None"

definition is_dir :: "ofs \<Rightarrow> opath \<Rightarrow> bool" where
  "is_dir fs p \<longleftrightarrow> map_of (onodes fs) p = Some ODir"

definition is_file :: "ofs \<Rightarrow> opath \<Rightarrow> bool" where
  "is_file fs p \<longleftrightarrow> (case map_of (onodes fs) p of Some (OFile _) \<Rightarrow> True | _ \<Rightarrow> False)"

text \<open>\<open>Path.iterdir()\<close>: the names of the entries directly below a directory.\<close>

definition iterdir :: "ofs \<Rightarrow> opath \<Rightarrow> string list" where
  "iterdir fs d = map (\<lambda>(q, _). last q) (filter (\<lambda>(q, _). q \<noteq> [] \<and> butlast q = d) (onodes fs))"

text \<open>\<open>Path.mkdir(parents=True, exist_ok=True)\<close>: every missing ancestor is created in turn;
  an ancestor that exists as a file, or a refused one, raises.\<close>

definition mkdir_step :: "opath \<Rightarrow> py_error + ofs \<Rightarrow> py_error + ofs" where
  "mkdir_step a r =
     (case r of
        Inl e \<Rightarrow> Inl e
      | Inr fs \<Rightarrow>
          if is_dir fs a then Inr fs
          else if oexists fs a \<or> a \<in> odenied fs then Inl OSError
          else Inr (fs\<lparr>onodes := onodes fs @ [(a, ODir)]\<rparr>))"

definition mkdir_parents :: "ofs \<Rightarrow> opath \<Rightarrow> py_error + ofs" where
  "mkdir_parents fs p = fold mkdir_step (map (\<lambda>n. take n p) [1..<Suc (length p)]) (Inr fs)"

text \<open>\<open>os.rename(a, b)\<close> of a regular file on POSIX: an existing regular file at \<open>b\<close>
  is silently replaced; a directory at \<open>b\<close>, a parent of \<open>b\<close> that is not a directory, a
  missing source or a refused path raises.\<close>

definition os_rename :: "ofs \<Rightarrow> opath \<Rightarrow> opath \<Rightarrow> py_error + ofs" where
  "os_rename fs a b =
     (case map_of (onodes fs) a of
        Some (OFile c) \<Rightarrow>
          if \<not> is_dir fs (butlast b) \<or> is_dir fs b \<or> a \<in> odenied fs \<or> b \<in> odenied fs then Inl OSError
          else Inr (fs\<lparr>onodes := filter (\<lambda>(q, _). q \<noteq> a \<and> q \<noteq> b) (onodes fs) @ [(b, OFile c)]\<rparr>)
      | _ \<Rightarrow> Inl OSError)"

text \<open>\<open>shutil.move(a, b)\<close>: into \<open>b\<close> when \<open>b\<close> is a directory (raising when the name is
  taken there), otherwise a rename to \<open>b\<close>, which overwrites an existing file.\<close>

definition omove :: "ofs \<Rightarrow> opath \<Rightarrow> opath \<Rightarrow> py_error + ofs" where
  "omove fs a b =
     (if is_dir fs b then
        (let b' = b @ [last a] in if oexists fs b' then Inl OSError else os_rename fs a b')
      else os_rename fs a b)"

text \<open>\<open>self.file_types\<close> (lines 10--21), in the insertion order of the dict.\<close>

definition file_types :: "(string \<times> string list) list" where
  "file_types =
     [(''Images'', [''.jpg'', ''.jpeg'', ''.png'', ''.gif'', ''.bmp'', ''.svg'', ''.webp'', ''.ico'']),
      (''Documents'', [''.pdf'', ''.doc'', ''.docx'', ''.txt'', ''.rtf'', ''.odt'', ''.pages'']),
      (''Spreadsheets'', [''.xls'', ''.xlsx'', ''.csv'', ''.ods'', ''.numbers'']),
      (''Presentations'', [''.ppt'', ''.pptx'', ''.odp'', ''.key'']),
      (''Videos'', [''.mp4'', ''.avi'', ''.mkv'', ''.mov'', ''.wmv'', ''.flv'', ''.webm'', ''.m4v'']),
      (''Audio'', [''.mp3'', ''.wav'', ''.flac'', ''.aac'', ''.ogg'', ''.wma'', ''.m4a'']),
      (''Archives'', [''.zip'', ''.rar'', ''.7z'', ''.tar'', ''.gz'', ''.bz2'', ''.xz'']),
      (''Code'', [''.py'', ''.js'', ''.html'', ''.css'', ''.java'', ''.cpp'', ''.c'', ''.php'', ''.rb'', ''.go'', ''.rs'']),
      (''Executables'', [''.exe'', ''.msi'', ''.deb'', ''.rpm'', ''.dmg'', ''.pkg'', ''.app'']),
      (''Fonts'', [''.ttf'', ''.otf'', ''.woff'', ''.woff2'', ''.eot''])]"

text \<open>\<open>get_file_category\<close> (lines 24--32): the first category listing the lower-cased suffix.\<close>

definition get_file_category :: "string \<Rightarrow> string" where
  "get_file_category name =
     (let extension = py_lower (py_suffix name)
      in case find (\<lambda>(c, exts). extension \<in> set exts) file_types of
           Some (c, _) \<Rightarrow> c
         | None \<Rightarrow> ''Others'')"

text \<open>The candidate \<open>category_folder / f"{stem}_{counter}{suffix}"\<close> of line 95.\<close>

definition candidate :: "opath \<Rightarrow> string \<Rightarrow> nat \<Rightarrow> opath" where
  "candidate folder name k = folder @ [py_stem name @ ''_'' @ py_str_int (int k) @ py_suffix name]"

text \<open>The rename loop (lines 90--96): while the destination exists, try the next candidate.\<close>

partial_function (option) free_destination :: "ofs \<Rightarrow> opath \<Rightarrow> string \<Rightarrow> nat \<Rightarrow> opath \<Rightarrow> opath option" where
  "free_destination fs folder name counter destination =
     (if oexists fs destination
      then free_destination fs folder name (counter + 1) (candidate folder name counter)
      else Some destination)"

declare free_destination.simps [code]

datatype org_msg =
    DirMissing opath
  | NotADir opath
  | Scanning opath
  | ModeLine bool
  | NoFiles
  | CreatedFolder opath
  | CategoryHeader string nat
  | WouldMove string string
  | Moved string string
  | MoveError string py_error
  | SummaryHeader bool
  | TotalOrganized nat
  | CategoryCount string nat
  | RunWithoutDryRun
  | NoneOrganized
  | MainError py_error

type_synonym org_stats = "(string \<times> nat) list"

text \<open>\<open>self.stats[category] += 1\<close> on a \<open>defaultdict(int)\<close>.\<close>

definition stats_inc :: "string \<Rightarrow> org_stats \<Rightarrow> org_stats" where
  "stats_inc c st = AList.update c (case map_of st c of None \<Rightarrow> 1 | Some n \<Rightarrow> n + 1) st"

text \<open>\<open>categorized_files[category].append(file_path)\<close> on a \<open>defaultdict(list)\<close>: a new
  category is added at the end, in order of first appearance.\<close>

fun add_to_group :: "'k \<Rightarrow> 'v \<Rightarrow> ('k \<times> 'v list) list \<Rightarrow> ('k \<times> 'v list) list" where
  "add_to_group k v [] = [(k, [v])]"
| "add_to_group k v ((k', vs) # g) =
     (if k = k' then (k', vs @ [v]) # g else (k', vs) # add_to_group k v g)"

definition categorize :: "string list \<Rightarrow> (string \<times> string list) list" where
  "categorize names = fold (\<lambda>n g. add_to_group (get_file_category n) n g) names []"

text \<open>The inner loop over the files of one category (lines 82--103): a dry run only reports;
  otherwise the file is moved to the first free destination, an exception of the move is
  reported and the loop goes on.\<close>

fun move_files ::
  "bool \<Rightarrow> opath \<Rightarrow> string \<Rightarrow> opath \<Rightarrow> string list \<Rightarrow> ofs \<times> org_stats \<times> org_msg list \<Rightarrow>
     (ofs \<times> org_stats \<times> org_msg list) option" where
  "move_files dry src c folder [] acc = Some acc"
| "move_files dry src c folder (n # ns) (fs, st, log) =
     (if dry then move_files dry src c folder ns (fs, st, log @ [WouldMove n c])
      else
        (case free_destination fs folder n 1 (folder @ [n]) of
           None \<Rightarrow> None
         | Some d \<Rightarrow>
             (case omove fs (src @ [n]) d of
                Inl e \<Rightarrow> move_files dry src c folder ns (fs, st, log @ [MoveError n e])
              | Inr fs' \<Rightarrow> move_files dry src c folder ns (fs', stats_inc c st, log @ [Moved n c]))))"

type_synonym org_result = "((py_error \<times> ofs) + ofs \<times> org_stats) \<times> org_msg list"

text \<open>The outer loop over the categories (lines 74--103), with \<open>create_folder_if_not_exists\<close>
  (lines 34--38), whose exception ends \<open>organize_directory\<close>.\<close>

fun organize_categories ::
  "bool \<Rightarrow> opath \<Rightarrow> (string \<times> string list) list \<Rightarrow> (ofs \<times> org_stats) \<times> org_msg list \<Rightarrow> org_result option" where
  "organize_categories dry src [] (s, log) = Some (Inr s, log)"
| "organize_categories dry src ((c, files) # cs) ((fs, st), log) =
     (let folder = src @ [c]
      in case (if dry \<or> oexists fs folder then Inr (fs, [])
               else (case mkdir_parents fs folder of
                       Inl e \<Rightarrow> Inl e
                     | Inr fs' \<Rightarrow> Inr (fs', [CreatedFolder folder]))) of
           Inl e \<Rightarrow> Some (Inl (e, fs), log)
         | Inr (fs1, l1) \<Rightarrow>
             (case move_files dry src c folder files (fs1, st, log @ l1 @ [CategoryHeader c (length files)]) of
                None \<Rightarrow> None
              | Some (fs2, st2, log2) \<Rightarrow> organize_categories dry src cs ((fs2, st2), log2)))"

text \<open>\<open>print_summary\<close> (lines 107--122).\<close>

definition print_summary :: "bool \<Rightarrow> org_stats \<Rightarrow> org_msg list" where
  "print_summary dry st =
     SummaryHeader dry #
       (if \<not> dry \<and> st \<noteq> [] then
          TotalOrganized (sum_list (map snd st)) # map (\<lambda>(c, n). CategoryCount c n) (sort_key fst st)
        else if dry then [RunWithoutDryRun]
        else [NoneOrganized])"

text \<open>\<open>organize_directory\<close> (lines 40--105).\<close>

definition organize_directory :: "bool \<Rightarrow> opath \<Rightarrow> ofs \<Rightarrow> org_result option" where
  "organize_directory dry src fs =
     (if \<not> oexists fs src then Some (Inr (fs, []), [DirMissing src])
      else if \<not> is_dir fs src then Some (Inr (fs, []), [NotADir src])
      else
        (let names = filter (\<lambda>n. is_file fs (src @ [n]) \<and> \<not> py_startswith n ''.'') (iterdir fs src);
             header = [Scanning src, ModeLine dry]
         in if names = [] then Some (Inr (fs, []), header @ [NoFiles])
            else
              (case organize_categories dry src (categorize names) ((fs, []), header) of
                 None \<Rightarrow> None
               | Some (Inl err, log) \<Rightarrow> Some (Inl err, log)
               | Some (Inr (fs', st), log) \<Rightarrow> Some (Inr (fs', st), log @ print_summary dry st))))"

text \<open>\<open>main\<close> (lines 151--158): an exception of \<open>organize_directory\<close> is printed.\<close>

definition organizer_main :: "bool \<Rightarrow> opath \<Rightarrow> ofs \<Rightarrow> (ofs \<times> org_msg list) option" where
  "organizer_main dry src fs =
     (case organize_directory dry src fs of
        None \<Rightarrow> None
      | Some (Inl (e, fs'), log) \<Rightarrow> Some (fs', log @ [MainError e])
      | Some (Inr (fs', st), log) \<Rightarrow> Some (fs', log))"

text \<open>The contents of the regular files of the store, as a multiset is compared.\<close>

text \<open>The store a run ends with, whether it returned or raised.\<close>

fun result_store :: "org_result \<Rightarrow> ofs" where
  "result_store (Inl (e, fs), log) = fs"
| "result_store (Inr (fs, st), log) = fs"

definition store_wf :: "ofs \<Rightarrow> bool" where
  "store_wf fs \<longleftrightarrow> distinct (map fst (onodes fs))"

definition file_contents :: "ofs \<Rightarrow> string list" where
  "file_contents fs = concat (map (\<lambda>(q, n). case n of OFile c \<Rightarrow> [c] | ODir \<Rightarrow> []) (onodes fs))"

lemma py_str_int_inj: "py_str_int i = py_str_int j \<Longrightarrow> i = j"
  by (metis Inr_inject py_int_py_str_int)

lemma candidate_inj: "inj (candidate folder name)"
  by (rule injI) (auto simp: candidate_def dest!: py_str_int_inj)

lemma oexists_iff: "oexists fs p \<longleftrightarrow> p \<in> fst ` set (onodes fs)"
  by (simp add: oexists_def map_of_eq_None_iff)

lemma candidates_taken_bounded: "\<exists>K. \<forall>k\<ge>K. \<not> oexists fs (candidate folder name k)"
proof -
  have "{k. oexists fs (candidate folder name k)} = candidate folder name -` (fst ` set (onodes fs))"
    by (auto simp: oexists_iff)
  then have "finite {k. oexists fs (candidate folder name k)}"
    using finite_vimageI[OF _ candidate_inj] by simp
  then obtain m where "\<forall>k\<in>{k. oexists fs (candidate folder name k)}. k \<le> m"
    using finite_nat_set_iff_bounded_le by blast
  then show ?thesis by (intro exI[of _ "Suc m"]) auto
qed

lemma free_destination_bounded:
  assumes "\<forall>k\<ge>K. \<not> oexists fs (candidate folder name k)"
  shows "\<exists>d. free_destination fs folder name c dest = Some d \<and> \<not> oexists fs d \<and>
             (d = dest \<or> (\<exists>k\<ge>c. d = candidate folder name k))"
proof (induction "K - c" arbitrary: c dest rule: less_induct)
  case less
  show ?case
  proof (cases "oexists fs dest")
    case False
    then show ?thesis by (simp add: free_destination.simps)
  next
    case True
    then have eq: "free_destination fs folder name c dest =
                     free_destination fs folder name (c + 1) (candidate folder name c)"
      by (simp add: free_destination.simps)
    show ?thesis
    proof (cases "K \<le> c")
      case True
      then have "\<not> oexists fs (candidate folder name c)" using assms by simp
      then show ?thesis using eq by (auto simp: free_destination.simps)
    next
      case False
      then have "K - (c + 1) < K - c" by simp
      from less[OF this, of "candidate folder name c"] show ?thesis
        using eq by (auto intro: Suc_leD)
    qed
  qed
qed

lemma fold_mkdir_step_Inl: "fold mkdir_step as (Inl e) = Inl e"
  by (induction as) (simp_all add: mkdir_step_def)

lemma mkdir_step_Inr:
  "store_wf fs \<Longrightarrow> mkdir_step a (Inr fs) = Inr fs' \<Longrightarrow>
     store_wf fs' \<and> file_contents fs' = file_contents fs \<and> odenied fs' = odenied fs"
  by (auto simp: mkdir_step_def store_wf_def file_contents_def oexists_iff split: if_splits)

lemma fold_mkdir_step_Inr:
  "store_wf fs \<Longrightarrow> fold mkdir_step as (Inr fs) = Inr fs' \<Longrightarrow>
     store_wf fs' \<and> file_contents fs' = file_contents fs \<and> odenied fs' = odenied fs"
proof (induction as arbitrary: fs)
  case (Cons a as)
  show ?case
  proof (cases "mkdir_step a (Inr fs)")
    case (Inl e)
    then show ?thesis using Cons.prems by (simp add: fold_mkdir_step_Inl)
  next
    case (Inr fs1)
    then have "store_wf fs1 \<and> file_contents fs1 = file_contents fs \<and> odenied fs1 = odenied fs"
      using mkdir_step_Inr[OF Cons.prems(1)] by blast
    then show ?thesis using Cons.IH[of fs1] Cons.prems(2) Inr by simp
  qed
qed simp

lemma mkdir_parents_Inr:
  "store_wf fs \<Longrightarrow> mkdir_parents fs p = Inr fs' \<Longrightarrow>
     store_wf fs' \<and> file_contents fs' = file_contents fs \<and> odenied fs' = odenied fs"
  unfolding mkdir_parents_def by (rule fold_mkdir_step_Inr)

lemma distinct_map_of_split:
  assumes "distinct (map fst xs)" and "map_of xs a = Some v"
  shows "\<exists>ys zs. xs = ys @ (a, v) # zs \<and> a \<notin> fst ` set ys \<and> a \<notin> fst ` set zs"
proof -
  have "(a, v) \<in> set xs" using assms(2) by (rule map_of_SomeD)
  then obtain ys zs where xs: "xs = ys @ (a, v) # zs" by (meson split_list)
  then show ?thesis using assms(1) by auto
qed

lemma omove_free:
  "\<not> oexists fs b \<Longrightarrow> omove fs a b = os_rename fs a b"
  by (simp add: omove_def is_dir_def oexists_def)

lemma omove_Inr:
  assumes "store_wf fs" and "\<not> oexists fs b" and "omove fs a b = Inr fs'"
  shows "store_wf fs' \<and> mset (file_contents fs') = mset (file_contents fs) \<and> odenied fs' = odenied fs \<and>
         is_file fs a"
proof -
  have r: "os_rename fs a b = Inr fs'" using assms(3) omove_free[OF assms(2)] by simp
  obtain c where c: "map_of (onodes fs) a = Some (OFile c)"
    and fs': "fs' = fs\<lparr>onodes := filter (\<lambda>(q, _). q \<noteq> a \<and> q \<noteq> b) (onodes fs) @ [(b, OFile c)]\<rparr>"
    using r by (auto simp: os_rename_def split: option.splits node.splits if_splits)
  obtain ys zs where sp: "onodes fs = ys @ (a, OFile c) # zs" "a \<notin> fst ` set ys" "a \<notin> fst ` set zs"
    using distinct_map_of_split[OF assms(1)[unfolded store_wf_def] c] by blast
  have bn: "b \<notin> fst ` set (onodes fs)" using assms(2) by (simp add: oexists_iff)
  have "filter (\<lambda>(q, _). q \<noteq> a \<and> q \<noteq> b) ys = ys" "filter (\<lambda>(q, _). q \<noteq> a \<and> q \<noteq> b) zs = zs"
    using sp bn by (force simp: filter_id_conv)+
  then have f: "filter (\<lambda>(q, _). q \<noteq> a \<and> q \<noteq> b) (onodes fs) = ys @ zs"
    using sp(1) by simp
  have "b \<notin> fst ` set (ys @ zs)" using bn sp(1) by auto
  then show ?thesis using assms(1) sp f fs' c
    by (auto simp: store_wf_def file_contents_def is_file_def)
qed

lemma free_destination_Some:
  "\<exists>d. free_destination fs folder name c dest = Some d \<and> \<not> oexists fs d \<and>
       (d = dest \<or> (\<exists>k\<ge>c. d = candidate folder name k))"
  using candidates_taken_bounded[of fs folder name] free_destination_bounded by blast

lemma free_destination_free:
  "free_destination fs folder name c dest = Some d \<Longrightarrow> \<not> oexists fs d"
  using free_destination_Some[of fs folder name c dest] by auto

lemma move_files_Some: "\<exists>r. move_files dry src c folder ns acc = Some r"
proof (induction ns arbitrary: acc)
  case (Cons n ns)
  obtain fs st log where acc: "acc = (fs, st, log)" by (cases acc) auto
  obtain d where "free_destination fs folder n 1 (folder @ [n]) = Some d"
    using free_destination_Some by blast
  then show ?case using Cons acc by (auto split: sum.splits)
qed (metis move_files.simps(1) prod_cases3)

definition preserves :: "ofs \<Rightarrow> ofs \<Rightarrow> bool" where
  "preserves fs fs' \<longleftrightarrow>
     store_wf fs' \<and> mset (file_contents fs') = mset (file_contents fs) \<and> odenied fs' = odenied fs"

lemma preserves_refl: "store_wf fs \<Longrightarrow> preserves fs fs"
  by (simp add: preserves_def)

lemma preserves_trans: "preserves fs fs1 \<Longrightarrow> preserves fs1 fs2 \<Longrightarrow> preserves fs fs2"
  by (simp add: preserves_def)

lemma move_files_preserves:
  "store_wf fs \<Longrightarrow> move_files dry src c folder ns (fs, st, log) = Some (fs', st', log') \<Longrightarrow>
     preserves fs fs'"
proof (induction ns arbitrary: fs st log)
  case Nil
  then show ?case by (simp add: preserves_refl)
next
  case (Cons n ns)
  show ?case
  proof (cases dry)
    case True
    then show ?thesis using Cons by simp
  next
    case False
    then obtain d where d: "free_destination fs folder n 1 (folder @ [n]) = Some d"
      using Cons.prems by (auto split: option.splits)
    show ?thesis
    proof (cases "omove fs (src @ [n]) d")
      case (Inl e)
      then show ?thesis using Cons False d by simp
    next
      case (Inr fs1)
      then have p1: "preserves fs fs1"
        using omove_Inr[OF Cons.prems(1) free_destination_free[OF d]] by (simp add: preserves_def)
      then have "store_wf fs1" by (simp add: preserves_def)
      then show ?thesis using Cons.IH[of fs1] Cons.prems(2) False d Inr p1
        by (auto intro: preserves_trans)
    qed
  qed
qed

lemma organize_categories_Some: "\<exists>r. organize_categories dry src cs s = Some r"
proof (induction cs arbitrary: s)
  case Nil
  then show ?case by (metis organize_categories.simps(1) surj_pair)
next
  case (Cons cf cs)
  obtain c files where cf: "cf = (c, files)" by fastforce
  obtain fs st log where s: "s = ((fs, st), log)" by (metis surj_pair)
  let ?pre = "if dry \<or> oexists fs (src @ [c]) then Inr (fs, [])
              else (case mkdir_parents fs (src @ [c]) of Inl e \<Rightarrow> Inl e
                    | Inr fs' \<Rightarrow> Inr (fs', [CreatedFolder (src @ [c])]))"
  show ?case
  proof (cases ?pre)
    case (Inl e)
    then show ?thesis using cf s by (simp add: Let_def)
  next
    case (Inr p)
    obtain fs1 l1 where p: "p = (fs1, l1)" by fastforce
    obtain fs2 st2 log2 where m: "move_files dry src c (src @ [c]) files
        (fs1, st, log @ l1 @ [CategoryHeader c (length files)]) = Some (fs2, st2, log2)"
      using move_files_Some by (metis surj_pair)
    show ?thesis using Cons.IH[of "((fs2, st2), log2)"] cf s Inr p m by (simp add: Let_def)
  qed
qed

lemma organize_categories_preserves:
  "store_wf fs \<Longrightarrow> organize_categories dry src cs ((fs, st), log) = Some r \<Longrightarrow>
     preserves fs (result_store r)"
proof (induction cs arbitrary: fs st log)
  case Nil
  then show ?case by (auto simp: preserves_refl)
next
  case (Cons cf cs)
  obtain c files where cf: "cf = (c, files)" by fastforce
  let ?pre = "if dry \<or> oexists fs (src @ [c]) then Inr (fs, [])
              else (case mkdir_parents fs (src @ [c]) of Inl e \<Rightarrow> Inl e
                    | Inr fs' \<Rightarrow> Inr (fs', [CreatedFolder (src @ [c])]))"
  show ?case
  proof (cases ?pre)
    case (Inl e)
    then show ?thesis using Cons.prems cf by (auto simp: preserves_refl)
  next
    case (Inr p)
    obtain fs1 l1 where p: "p = (fs1, l1)" by fastforce
    have p1: "preserves fs fs1"
      using Inr p Cons.prems(1) mkdir_parents_Inr[OF Cons.prems(1)]
      by (auto simp: preserves_def split: if_splits sum.splits)
    obtain fs2 st2 log2 where m: "move_files dry src c (src @ [c]) files
        (fs1, st, log @ l1 @ [CategoryHeader c (length files)]) = Some (fs2, st2, log2)"
      using move_files_Some by (metis surj_pair)
    have p2: "preserves fs1 fs2"
      using move_files_preserves[OF _ m] p1 by (simp add: preserves_def)
    have "organize_categories dry src cs ((fs2, st2), log2) = Some r"
      using Cons.prems(2) cf Inr p m by (simp add: Let_def)
    then have "preserves fs2 (result_store r)"
      using Cons.IH[of fs2 st2 log2] p2 by (simp add: preserves_def)
    then show ?thesis using p1 p2 by (blast intro: preserves_trans)
  qed
qed

lemma organize_directory_Some: "\<exists>r. organize_directory dry src fs = Some r"
proof -
  let ?names = "filter (\<lambda>n. is_file fs (src @ [n]) \<and> \<not> py_startswith n ''.'') (iterdir fs src)"
  obtain r where "organize_categories dry src (categorize ?names) ((fs, []), [Scanning src, ModeLine dry]) = Some r"
    using organize_categories_Some by blast
  then show ?thesis by (auto simp: organize_directory_def Let_def split: sum.splits prod.splits)
qed

lemma organize_directory_preserves:
  assumes "store_wf fs" and "organize_directory dry src fs = Some r"
  shows "preserves fs (result_store r)"
proof -
  let ?names = "filter (\<lambda>n. is_file fs (src @ [n]) \<and> \<not> py_startswith n ''.'') (iterdir fs src)"
  obtain r0 where r0: "organize_categories dry src (categorize ?names) ((fs, []), [Scanning src, ModeLine dry]) = Some r0"
    using organize_categories_Some by blast
  have "preserves fs (result_store r0)" by (rule organize_categories_preserves[OF assms(1) r0])
  then show ?thesis using assms r0
    by (auto simp: organize_directory_def Let_def preserves_refl split: if_splits sum.splits prod.splits)
qed

lemma move_files_dry:
  "move_files True src c folder ns (fs, st, log) = Some (fs, st, log @ map (\<lambda>n. WouldMove n c) ns)"
  by (induction ns arbitrary: log) simp_all

lemma organize_categories_dry:
  "organize_categories True src cs ((fs, st), log) =
     Some (Inr (fs, st), log @ concat (map (\<lambda>(c, ns). CategoryHeader c (length ns) # map (\<lambda>n. WouldMove n c) ns) cs))"
  by (induction cs arbitrary: log) (auto simp: move_files_dry)

lemma add_to_group_mset:
  "mset (concat (map snd (add_to_group k v g))) = mset (concat (map snd g)) + {#v#}"
  by (induction k v g rule: add_to_group.induct) simp_all

lemma add_to_group_keys:
  "\<forall>(c, ns)\<in>set g. \<forall>n\<in>set ns. P c n \<Longrightarrow> P k v \<Longrightarrow>
     \<forall>(c, ns)\<in>set (add_to_group k v g). \<forall>n\<in>set ns. P c n"
  by (induction k v g rule: add_to_group.induct) auto

lemma fold_add_to_group_mset:
  "mset (concat (map snd (fold (\<lambda>n g. add_to_group (get_file_category n) n g) names g))) =
     mset (concat (map snd g)) + mset names"
  by (induction names arbitrary: g) (simp_all add: add_to_group_mset)

lemma fold_add_to_group_keys:
  "\<forall>(c, ns)\<in>set g. \<forall>n\<in>set ns. c = get_file_category n \<Longrightarrow>
     \<forall>(c, ns)\<in>set (fold (\<lambda>n g. add_to_group (get_file_category n) n g) names g). \<forall>n\<in>set ns. c = get_file_category n"
proof (induction names arbitrary: g)
  case (Cons n names)
  show ?case
    using Cons.IH add_to_group_keys[OF Cons.prems, where k = "get_file_category n" and v = n] by simp
qed simp

lemma categorize_mset: "mset (concat (map snd (categorize names))) = mset names"
  using fold_add_to_group_mset[of names "[]"] by (simp add: categorize_def)

lemma categorize_category: "(c, ns) \<in> set (categorize names) \<Longrightarrow> n \<in> set ns \<Longrightarrow> c = get_file_category n"
  using fold_add_to_group_keys[of "[]" names] by (fastforce simp: categorize_def)

lemma is_dir_oexists: "is_dir fs p \<Longrightarrow> oexists fs p"
  by (simp add: is_dir_def oexists_def)

lemma distinct_concat_snd_unique:
  "distinct (concat (map snd xs)) \<Longrightarrow> x \<in> set xs \<Longrightarrow> y \<in> set xs \<Longrightarrow>
     e \<in> set (snd x) \<Longrightarrow> e \<in> set (snd y) \<Longrightarrow> x = y"
  by (induction xs) auto

lemma file_types_disjoint: "distinct (concat (map snd file_types))"
  by code_simp

lemma file_types_unique:
  "(c, exts) \<in> set file_types \<Longrightarrow> (c', exts') \<in> set file_types \<Longrightarrow> e \<in> set exts \<Longrightarrow> e \<in> set exts' \<Longrightarrow>
     c = c'"
  using distinct_concat_snd_unique[OF file_types_disjoint, of "(c, exts)" "(c', exts')" e] by simp

lemma others_not_in_file_types: "''Others'' \<notin> fst ` set file_types"
  by code_simp

lemma mkdir_step_keeps:
  "oexists fs p \<Longrightarrow> mkdir_step a (Inr fs) = Inr fs' \<Longrightarrow> map_of (onodes fs') p = map_of (onodes fs) p"
  by (auto simp: mkdir_step_def oexists_def map_of_append split: if_splits option.splits)

lemma fold_mkdir_step_keeps:
  "oexists fs p \<Longrightarrow> fold mkdir_step as (Inr fs) = Inr fs' \<Longrightarrow> map_of (onodes fs') p = map_of (onodes fs) p"
proof (induction as arbitrary: fs)
  case (Cons a as)
  show ?case
  proof (cases "mkdir_step a (Inr fs)")
    case (Inl e)
    then show ?thesis using Cons.prems by (simp add: fold_mkdir_step_Inl)
  next
    case (Inr fs1)
    then have "map_of (onodes fs1) p = map_of (onodes fs) p" using mkdir_step_keeps[OF Cons.prems(1)] by blast
    moreover then have "oexists fs1 p" using Cons.prems(1) by (simp add: oexists_def)
    ultimately show ?thesis using Cons.IH[of fs1] Cons.prems(2) Inr by simp
  qed
qed simp

lemma map_of_filter_keep: "P p \<Longrightarrow> map_of (filter (\<lambda>(q, _). P q) xs) p = map_of xs p"
  by (induction xs) auto

lemma omove_keeps:
  assumes "omove fs a b = Inr fs'" and "a \<noteq> p" and "oexists fs p" and "\<not> oexists fs b"
  shows "map_of (onodes fs') p = map_of (onodes fs) p"
proof -
  obtain c where fs': "fs' = fs\<lparr>onodes := filter (\<lambda>(q, _). q \<noteq> a \<and> q \<noteq> b) (onodes fs) @ [(b, OFile c)]\<rparr>"
    using assms(1) omove_free[OF assms(4)]
    by (auto simp: os_rename_def split: option.splits node.splits if_splits)
  have pb: "p \<noteq> b" using assms(3,4) by auto
  have "map_of (filter (\<lambda>(q, _). q \<noteq> a \<and> q \<noteq> b) (onodes fs)) p = map_of (onodes fs) p"
    by (rule map_of_filter_keep[where P = "\<lambda>q. q \<noteq> a \<and> q \<noteq> b"]) (use assms(2) pb in simp)
  then show ?thesis using fs' assms(3) by (auto simp: oexists_def map_of_append)
qed

lemma free_destination_parent:
  "free_destination fs folder name c (folder @ [name]) = Some d \<Longrightarrow> butlast d = folder"
  using free_destination_Some[of fs folder name c "folder @ [name]"] by (auto simp: candidate_def)

lemma move_files_keeps:
  assumes "map_of (onodes fs) p = Some (OFile x)" and "\<forall>n\<in>set files. src @ [n] = p \<longrightarrow> folder = p"
    and "move_files False src c folder files (fs, st, log) = Some (fs', st', log')"
  shows "map_of (onodes fs') p = Some (OFile x) \<and> set log \<subseteq> set log' \<and>
         (\<forall>n\<in>set files. src @ [n] = p \<longrightarrow> MoveError n OSError \<in> set log')"
  using assms
proof (induction files arbitrary: fs st log)
  case (Cons n ns)
  obtain d where d: "free_destination fs folder n 1 (folder @ [n]) = Some d"
    using free_destination_Some by blast
  have bd: "butlast d = folder" by (rule free_destination_parent[OF d])
  have fr: "\<not> oexists fs d" by (rule free_destination_free[OF d])
  have ex: "oexists fs p" using Cons.prems(1) by (simp add: oexists_def)
  show ?case
  proof (cases "omove fs (src @ [n]) d")
    case (Inl e)
    then have "src @ [n] = p \<Longrightarrow> e = OSError"
      using Cons.prems(2) bd Cons.prems(1) by (auto simp: omove_free[OF fr] os_rename_def is_dir_def split: if_splits)
    then show ?thesis using Cons.IH[OF Cons.prems(1), of st "log @ [MoveError n e]"] Cons.prems(2,3) d Inl
      by auto
  next
    case (Inr fs1)
    have "src @ [n] \<noteq> p"
    proof
      assume "src @ [n] = p"
      then have "folder = p" using Cons.prems(2) by simp
      then show False using Inr bd Cons.prems(1)
        by (auto simp: omove_free[OF fr] os_rename_def is_dir_def split: if_splits option.splits node.splits)
    qed
    then have "map_of (onodes fs1) p = Some (OFile x)"
      using omove_keeps[OF Inr _ ex fr] Cons.prems(1) by simp
    then show ?thesis using Cons.IH[of fs1 "stats_inc c st" "log @ [Moved n c]"] Cons.prems(2,3) d Inr
      \<open>src @ [n] \<noteq> p\<close> by auto
  qed
qed simp

lemma organize_categories_keeps:
  assumes "map_of (onodes fs) p = Some (OFile x)"
    and "\<forall>(c, files)\<in>set cs. \<forall>n\<in>set files. src @ [n] = p \<longrightarrow> src @ [c] = p"
    and "organize_categories False src cs ((fs, st), log) = Some r"
  shows "map_of (onodes (result_store r)) p = Some (OFile x) \<and> set log \<subseteq> set (snd r) \<and>
         (isl (fst r) \<or> (\<forall>(c, files)\<in>set cs. \<forall>n\<in>set files. src @ [n] = p \<longrightarrow> MoveError n OSError \<in> set (snd r)))"
  using assms
proof (induction cs arbitrary: fs st log)
  case Nil
  then show ?case by auto
next
  case (Cons cf cs)
  obtain c files where cf: "cf = (c, files)" by fastforce
  have ex: "oexists fs p" using Cons.prems(1) by (simp add: oexists_def)
  let ?pre = "if False \<or> oexists fs (src @ [c]) then Inr (fs, [])
              else (case mkdir_parents fs (src @ [c]) of Inl e \<Rightarrow> Inl e
                    | Inr fs' \<Rightarrow> Inr (fs', [CreatedFolder (src @ [c])]))"
  show ?case
  proof (cases ?pre)
    case (Inl e)
    then show ?thesis using Cons.prems cf by auto
  next
    case (Inr pr)
    obtain fs1 l1 where pr: "pr = (fs1, l1)" by fastforce
    have k1: "map_of (onodes fs1) p = Some (OFile x)"
    proof (cases "oexists fs (src @ [c])")
      case True
      then show ?thesis using Inr pr Cons.prems(1) by simp
    next
      case False
      then have "mkdir_parents fs (src @ [c]) = Inr fs1" using Inr pr by (auto split: sum.splits)
      then show ?thesis
        using fold_mkdir_step_keeps[OF ex] Cons.prems(1) unfolding mkdir_parents_def by metis
    qed
    obtain fs2 st2 log2 where m: "move_files False src c (src @ [c]) files
        (fs1, st, log @ l1 @ [CategoryHeader c (length files)]) = Some (fs2, st2, log2)"
      using move_files_Some by (metis surj_pair)
    have mk: "map_of (onodes fs2) p = Some (OFile x) \<and>
              set (log @ l1 @ [CategoryHeader c (length files)]) \<subseteq> set log2 \<and>
              (\<forall>n\<in>set files. src @ [n] = p \<longrightarrow> MoveError n OSError \<in> set log2)"
      using move_files_keeps[OF k1 _ m] Cons.prems(2) cf by auto
    have r: "organize_categories False src cs ((fs2, st2), log2) = Some r"
      using Cons.prems(3) cf Inr pr m by (simp add: Let_def)
    have "map_of (onodes (result_store r)) p = Some (OFile x) \<and> set log2 \<subseteq> set (snd r) \<and>
         (isl (fst r) \<or> (\<forall>(c, files)\<in>set cs. \<forall>n\<in>set files. src @ [n] = p \<longrightarrow> MoveError n OSError \<in> set (snd r)))"
      using Cons.IH[of fs2 st2 log2] mk r Cons.prems(2) by auto
    then show ?thesis using mk cf by auto
  qed
qed

lemma iterdir_mem: "d @ [n] \<in> fst ` set (onodes fs) \<Longrightarrow> n \<in> set (iterdir fs d)"
  by (force simp: iterdir_def)

lemma others_category: "get_file_category ''Others'' = ''Others''"
  by code_simp

lemma free_destination_at:
  assumes "c \<le> k" and "\<forall>j. c \<le> j \<and> j < k \<longrightarrow> oexists fs (candidate folder name j)"
    and "\<not> oexists fs (candidate folder name k)" and "oexists fs dest"
  shows "free_destination fs folder name c dest = Some (candidate folder name k)"
  using assms
proof (induction "k - c" arbitrary: c dest rule: less_induct)
  case less
  have eq: "free_destination fs folder name c dest =
              free_destination fs folder name (c + 1) (candidate folder name c)"
    using less.prems(4) by (simp add: free_destination.simps)
  show ?case
  proof (cases "c = k")
    case True
    then show ?thesis using eq less.prems(3) by (simp add: free_destination.simps)
  next
    case False
    then have ck: "c < k" using less.prems(1) by simp
    then have "oexists fs (candidate folder name c)" using less.prems(2) by simp
    moreover have "k - (c + 1) < k - c" using ck by simp
    ultimately show ?thesis using less.hyps[of "c + 1" "candidate folder name c"] less.prems(2,3) ck eq
      by simp
  qed
qed

text \<open>C31: the category of a file is the one category whose extension list contains its
  lower-cased suffix (the lists are disjoint, so the first match of the loop is the only one),
  and \<open>Others\<close> exactly when no list contains it.\<close>

theorem get_file_category_iff:
  "get_file_category name = c \<longleftrightarrow>
     (\<exists>exts. (c, exts) \<in> set file_types \<and> py_lower (py_suffix name) \<in> set exts) \<or>
     (c = ''Others'' \<and> (\<forall>(c', exts)\<in>set file_types. py_lower (py_suffix name) \<notin> set exts))"
proof (cases "find (\<lambda>(c, exts). py_lower (py_suffix name) \<in> set exts) file_types")
  case None
  then have g: "get_file_category name = ''Others''" by (simp add: get_file_category_def)
  have "\<forall>(c', exts)\<in>set file_types. py_lower (py_suffix name) \<notin> set exts"
    using None by (auto simp: find_None_iff)
  then show ?thesis using g by blast
next
  case (Some ce)
  obtain c0 ex0 where ce: "ce = (c0, ex0)" by fastforce
  then have c0: "(c0, ex0) \<in> set file_types" "py_lower (py_suffix name) \<in> set ex0"
    using Some by (auto simp: find_Some_iff dest: nth_mem)
  have g: "get_file_category name = c0" using Some ce by (simp add: get_file_category_def)
  show ?thesis
  proof
    assume "get_file_category name = c"
    then show "(\<exists>exts. (c, exts) \<in> set file_types \<and> py_lower (py_suffix name) \<in> set exts) \<or>
     (c = ''Others'' \<and> (\<forall>(c', exts)\<in>set file_types. py_lower (py_suffix name) \<notin> set exts))"
      using g c0 by blast
  next
    assume "(\<exists>exts. (c, exts) \<in> set file_types \<and> py_lower (py_suffix name) \<in> set exts) \<or>
     (c = ''Others'' \<and> (\<forall>(c', exts)\<in>set file_types. py_lower (py_suffix name) \<notin> set exts))"
    then show "get_file_category name = c"
      using g c0 file_types_unique[OF c0(1) _ c0(2)] by fastforce
  qed
qed

text \<open>C32: the organizer always returns: in particular the loop \<open>while destination.exists()\<close>
  ends for every directory, since the candidate names \<open>stem_k.ext\<close> are pairwise distinct
  (\<open>int(str(k)) == k\<close>) and only finitely many paths exist.\<close>

theorem organizer_main_returns: "\<exists>fs' log. organizer_main dry src fs = Some (fs', log)"
  using organize_directory_Some[of dry src fs]
  by (auto simp: organizer_main_def split: option.splits sum.splits prod.splits)

text \<open>C33: the rename loop picks the first free name: the file's own name in the category
  folder when it is free, and otherwise \<open>stem_k.ext\<close> for the least \<open>k \<ge> 1\<close> not taken.\<close>

theorem free_destination_first:
  "free_destination fs folder name 1 (folder @ [name]) =
     Some (if oexists fs (folder @ [name])
           then candidate folder name (LEAST k. 1 \<le> k \<and> \<not> oexists fs (candidate folder name k))
           else folder @ [name])"
proof (cases "oexists fs (folder @ [name])")
  case False
  then show ?thesis by (simp add: free_destination.simps)
next
  case True
  obtain K where K: "\<forall>k\<ge>K. \<not> oexists fs (candidate folder name k)"
    using candidates_taken_bounded by blast
  let ?P = "\<lambda>k. 1 \<le> k \<and> \<not> oexists fs (candidate folder name k)"
  have "?P (max 1 K)" using K by simp
  then have l: "?P (LEAST k. ?P k)" by (rule LeastI)
  have a: "\<forall>j. 1 \<le> j \<and> j < (LEAST k. ?P k) \<longrightarrow> oexists fs (candidate folder name j)"
  proof (intro allI impI)
    fix j assume j: "1 \<le> j \<and> j < (LEAST k. ?P k)"
    then have "\<not> ?P j" by (intro not_less_Least) simp
    then show "oexists fs (candidate folder name j)" using j by simp
  qed
  have "free_destination fs folder name 1 (folder @ [name]) = Some (candidate folder name (LEAST k. ?P k))"
    by (rule free_destination_at[OF l[THEN conjunct1] a l[THEN conjunct2] True])
  then show ?thesis using True by simp
qed

text \<open>C34: organizing never loses or duplicates a file: whether the run completes or ends with
  an exception, the store keeps one entry per path and holds the same multiset of file
  contents as before (a move only ever goes to a free destination).\<close>

theorem organizer_preserves_files:
  "store_wf fs \<Longrightarrow> organizer_main dry src fs = Some (fs', log) \<Longrightarrow>
     store_wf fs' \<and> mset (file_contents fs') = mset (file_contents fs)"
proof -
  assume wf: "store_wf fs" and m: "organizer_main dry src fs = Some (fs', log)"
  obtain r where r: "organize_directory dry src fs = Some r"
    using organize_directory_Some by blast
  have "fs' = result_store r"
    using m r by (auto simp: organizer_main_def split: sum.splits prod.splits)
  then show ?thesis using organize_directory_preserves[OF wf r] by (simp add: preserves_def)
qed

text \<open>C35: a dry run changes nothing and reports every regular, non-hidden file of the
  directory with the category it would be moved to.\<close>

theorem organizer_dry_run:
  assumes "is_dir fs src" and "n \<in> set (iterdir fs src)" and "is_file fs (src @ [n])"
    and "\<not> py_startswith n ''.''"
  shows "\<exists>log. organizer_main True src fs = Some (fs, log) \<and> WouldMove n (get_file_category n) \<in> set log"
proof -
  let ?names = "filter (\<lambda>n. is_file fs (src @ [n]) \<and> \<not> py_startswith n ''.'') (iterdir fs src)"
  have n: "n \<in> set ?names" using assms(2-4) by simp
  have "set (concat (map snd (categorize ?names))) = set ?names"
    using arg_cong[OF categorize_mset[of ?names], of set_mset] by simp
  then have "n \<in> set (concat (map snd (categorize ?names)))" using n by blast
  then obtain c ns where cn: "(c, ns) \<in> set (categorize ?names)" "n \<in> set ns" by auto
  then have "c = get_file_category n" by (rule categorize_category)
  then have w: "WouldMove n (get_file_category n) \<in>
      set (concat (map (\<lambda>(c, ns). CategoryHeader c (length ns) # map (\<lambda>n. WouldMove n c) ns) (categorize ?names)))"
    using cn by (auto intro!: bexI[OF _ cn(1)])
  define names where "names = ?names"
  have "n \<in> set names" using n by (simp only: names_def)
  then have ne: "names \<noteq> []" by auto
  have "organize_directory True src fs =
          Some (Inr (fs, []), [Scanning src, ModeLine True] @
            concat (map (\<lambda>(c, ns). CategoryHeader c (length ns) # map (\<lambda>n. WouldMove n c) ns) (categorize names)) @
            print_summary True [])"
    unfolding organize_directory_def Let_def names_def[symmetric]
    using ne assms(1) is_dir_oexists[OF assms(1)] by (simp add: organize_categories_dry)
  then show ?thesis using w unfolding names_def by (simp add: organizer_main_def)
qed

text \<open>C36 (defect): a regular file named \<open>Others\<close> (no suffix, so of category \<open>Others\<close>) sits
  where the folder \<open>Others\<close> must go. The folder "exists", so it is not created, and every
  move into it fails; the file is never moved, and its failed move is reported (unless an
  earlier exception ended the run).\<close>

theorem others_named_file_stays:
  assumes "is_dir fs src" and "map_of (onodes fs) (src @ [''Others'']) = Some (OFile x)"
    and "organizer_main False src fs = Some (fs', log)"
  shows "map_of (onodes fs') (src @ [''Others'']) = Some (OFile x) \<and>
         (MoveError ''Others'' OSError \<in> set log \<or> (\<exists>e. MainError e \<in> set log))"
proof -
  let ?p = "src @ [''Others'']"
  define names where "names = filter (\<lambda>n. is_file fs (src @ [n]) \<and> \<not> py_startswith n ''.'') (iterdir fs src)"
  have "?p \<in> fst ` set (onodes fs)" using assms(2) by (metis map_of_SomeD fst_conv image_eqI)
  then have "''Others'' \<in> set (iterdir fs src)" by (rule iterdir_mem)
  moreover have "is_file fs ?p" using assms(2) by (simp add: is_file_def)
  moreover have "\<not> py_startswith ''Others'' ''.''" by (simp add: py_startswith_def)
  ultimately have o: "''Others'' \<in> set names" by (simp add: names_def)
  then have ne: "names \<noteq> []" by auto
  have "set (concat (map snd (categorize names))) = set names"
    using arg_cong[OF categorize_mset[of names], of set_mset] by simp
  then have "''Others'' \<in> set (concat (map snd (categorize names)))" using o by blast
  then obtain c0 f0 where g: "(c0, f0) \<in> set (categorize names)" "''Others'' \<in> set f0" by auto
  have cond: "\<forall>(c, files)\<in>set (categorize names). \<forall>n\<in>set files. src @ [n] = ?p \<longrightarrow> src @ [c] = ?p"
    using categorize_category others_category by fastforce
  obtain r where r: "organize_categories False src (categorize names) ((fs, []), [Scanning src, ModeLine False]) = Some r"
    using organize_categories_Some by blast
  have k: "map_of (onodes (result_store r)) ?p = Some (OFile x) \<and>
           (isl (fst r) \<or> MoveError ''Others'' OSError \<in> set (snd r))"
    using organize_categories_keeps[OF assms(2) cond r] g by fastforce
  have od: "organize_directory False src fs =
              (case r of (Inl err, l) \<Rightarrow> Some (Inl err, l)
               | (Inr (fs2, st), l) \<Rightarrow> Some (Inr (fs2, st), l @ print_summary False st))"
    unfolding organize_directory_def Let_def names_def[symmetric]
    using ne r assms(1) is_dir_oexists[OF assms(1)] by (simp split: prod.splits sum.splits)
  show ?thesis
    using assms(3) od k by (auto simp: organizer_main_def split: prod.splits sum.splits)
qed

text \<open>Witnesses: a directory \<open>d\<close> holding \<open>a.jpg\<close> (while \<open>Images/a.jpg\<close> exists already),
  a file \<open>Others\<close> and \<open>x.tar.gz\<close>.\<close>

theorem get_file_category_iff_witness: "get_file_category ''x.tar.GZ'' = ''Archives''"
proof -
  have "(''Archives'', snd (file_types ! 6)) \<in> set file_types \<and>
        py_lower (py_suffix ''x.tar.GZ'') \<in> set (snd (file_types ! 6))"
    by code_simp
  then show ?thesis using get_file_category_iff[of "''x.tar.GZ''" "''Archives''"] by blast
qed

theorem organizer_preserves_files_witness:
  "case organizer_main False [''d''] \<lparr>onodes = [([''d''], ODir), ([''d'', ''a.jpg''], OFile ''A''), ([''d'', ''Images''], ODir), ([''d'', ''Images'', ''a.jpg''], OFile ''old''), ([''d'', ''Others''], OFile ''O''), ([''d'', ''x.tar.gz''], OFile ''X'')], odenied = {}\<rparr> of
     None \<Rightarrow> False
   | Some (fs', log) \<Rightarrow> store_wf fs' \<and> mset (file_contents fs') = mset (file_contents \<lparr>onodes = [([''d''], ODir), ([''d'', ''a.jpg''], OFile ''A''), ([''d'', ''Images''], ODir), ([''d'', ''Images'', ''a.jpg''], OFile ''old''), ([''d'', ''Others''], OFile ''O''), ([''d'', ''x.tar.gz''], OFile ''X'')], odenied = {}\<rparr>)"
proof -
  have wf: "store_wf \<lparr>onodes = [([''d''], ODir), ([''d'', ''a.jpg''], OFile ''A''), ([''d'', ''Images''], ODir), ([''d'', ''Images'', ''a.jpg''], OFile ''old''), ([''d'', ''Others''], OFile ''O''), ([''d'', ''x.tar.gz''], OFile ''X'')], odenied = {}\<rparr>" by code_simp
  obtain fs' log where m: "organizer_main False [''d''] \<lparr>onodes = [([''d''], ODir), ([''d'', ''a.jpg''], OFile ''A''), ([''d'', ''Images''], ODir), ([''d'', ''Images'', ''a.jpg''], OFile ''old''), ([''d'', ''Others''], OFile ''O''), ([''d'', ''x.tar.gz''], OFile ''X'')], odenied = {}\<rparr> = Some (fs', log)"
  proof -
    have "organizer_main False [''d''] \<lparr>onodes = [([''d''], ODir), ([''d'', ''a.jpg''], OFile ''A''), ([''d'', ''Images''], ODir), ([''d'', ''Images'', ''a.jpg''], OFile ''old''), ([''d'', ''Others''], OFile ''O''), ([''d'', ''x.tar.gz''], OFile ''X'')], odenied = {}\<rparr> \<noteq> None" by code_simp
    then show ?thesis using that by fastforce
  qed
  show ?thesis using organizer_preserves_files[OF wf m] m by simp
qed

theorem organizer_dry_run_witness:
  "\<exists>log. organizer_main True [''d''] \<lparr>onodes = [([''d''], ODir), ([''d'', ''a.jpg''], OFile ''A''), ([''d'', ''Images''], ODir), ([''d'', ''Images'', ''a.jpg''], OFile ''old''), ([''d'', ''Others''], OFile ''O''), ([''d'', ''x.tar.gz''], OFile ''X'')], odenied = {}\<rparr> = Some (\<lparr>onodes = [([''d''], ODir), ([''d'', ''a.jpg''], OFile ''A''), ([''d'', ''Images''], ODir), ([''d'', ''Images'', ''a.jpg''], OFile ''old''), ([''d'', ''Others''], OFile ''O''), ([''d'', ''x.tar.gz''], OFile ''X'')], odenied = {}\<rparr>, log) \<and> WouldMove ''a.jpg'' ''Images'' \<in> set log"
proof -
  have h: "is_dir \<lparr>onodes = [([''d''], ODir), ([''d'', ''a.jpg''], OFile ''A''), ([''d'', ''Images''], ODir), ([''d'', ''Images'', ''a.jpg''], OFile ''old''), ([''d'', ''Others''], OFile ''O''), ([''d'', ''x.tar.gz''], OFile ''X'')], odenied = {}\<rparr> [''d'']" "''a.jpg'' \<in> set (iterdir \<lparr>onodes = [([''d''], ODir), ([''d'', ''a.jpg''], OFile ''A''), ([''d'', ''Images''], ODir), ([''d'', ''Images'', ''a.jpg''], OFile ''old''), ([''d'', ''Others''], OFile ''O''), ([''d'', ''x.tar.gz''], OFile ''X'')], odenied = {}\<rparr> [''d''])" "is_file \<lparr>onodes = [([''d''], ODir), ([''d'', ''a.jpg''], OFile ''A''), ([''d'', ''Images''], ODir), ([''d'', ''Images'', ''a.jpg''], OFile ''old''), ([''d'', ''Others''], OFile ''O''), ([''d'', ''x.tar.gz''], OFile ''X'')], odenied = {}\<rparr> [''d'', ''a.jpg'']"
    "\<not> py_startswith ''a.jpg'' ''.''" "get_file_category ''a.jpg'' = ''Images''"
    by code_simp+
  from organizer_dry_run[OF h(1,2), simplified, OF h(3,4)] show ?thesis by (simp add: h(5))
qed

theorem others_named_file_stays_witness:
  "case organizer_main False [''d''] \<lparr>onodes = [([''d''], ODir), ([''d'', ''a.jpg''], OFile ''A''), ([''d'', ''Images''], ODir), ([''d'', ''Images'', ''a.jpg''], OFile ''old''), ([''d'', ''Others''], OFile ''O''), ([''d'', ''x.tar.gz''], OFile ''X'')], odenied = {}\<rparr> of
     None \<Rightarrow> False
   | Some (fs', log) \<Rightarrow> map_of (onodes fs') [''d'', ''Others''] = Some (OFile ''O'') \<and>
       (MoveError ''Others'' OSError \<in> set log \<or> (\<exists>e. MainError e \<in> set log))"
proof -
  have h: "is_dir \<lparr>onodes = [([''d''], ODir), ([''d'', ''a.jpg''], OFile ''A''), ([''d'', ''Images''], ODir), ([''d'', ''Images'', ''a.jpg''], OFile ''old''), ([''d'', ''Others''], OFile ''O''), ([''d'', ''x.tar.gz''], OFile ''X'')], odenied = {}\<rparr> [''d'']" "map_of (onodes \<lparr>onodes = [([''d''], ODir), ([''d'', ''a.jpg''], OFile ''A''), ([''d'', ''Images''], ODir), ([''d'', ''Images'', ''a.jpg''], OFile ''old''), ([''d'', ''Others''], OFile ''O''), ([''d'', ''x.tar.gz''], OFile ''X'')], odenied = {}\<rparr>) ([''d''] @ [''Others'']) = Some (OFile ''O'')"
    by code_simp+
  obtain fs' log where m: "organizer_main False [''d''] \<lparr>onodes = [([''d''], ODir), ([''d'', ''a.jpg''], OFile ''A''), ([''d'', ''Images''], ODir), ([''d'', ''Images'', ''a.jpg''], OFile ''old''), ([''d'', ''Others''], OFile ''O''), ([''d'', ''x.tar.gz''], OFile ''X'')], odenied = {}\<rparr> = Some (fs', log)"
  proof -
    have "organizer_main False [''d''] \<lparr>onodes = [([''d''], ODir), ([''d'', ''a.jpg''], OFile ''A''), ([''d'', ''Images''], ODir), ([''d'', ''Images'', ''a.jpg''], OFile ''old''), ([''d'', ''Others''], OFile ''O''), ([''d'', ''x.tar.gz''], OFile ''X'')], odenied = {}\<rparr> \<noteq> None" by code_simp
    then show ?thesis using that by fastforce
  qed
  show ?thesis using others_named_file_stays[OF h m] m by simp
qed

end
