(* ===== verification/App.thy ===== *)
theory App
  imports Main
begin

text \<open>
  The Litestar application (src/outputs/01-litestar-hello-world/app.py): two \<open>GET\<close>
  handlers returning constant JSON objects, registered in \<open>Litestar(route_handlers=...)\<close>.
  A handler is a route record (method, path, the returned dict as an association list); the
  dispatch of the Litestar library, which the source only calls, is modelled from its
  documented behaviour: the handler registered for the method and the exact path answers;
  \<open>OPTIONS\<close> on a registered path is answered by the handler Litestar generates itself
  (\<open>204\<close>, listing the allowed methods); a path with no handler is \<open>404\<close>, a path whose
  handlers do not accept the method is \<open>405\<close>. Path normalisation (trailing slashes) is
  not modelled.
\<close>

datatype http_method = GET | HEAD | POST | PUT | PATCH | DELETE | OPTIONS

record route =
  route_method :: http_method
  route_path :: string
  route_body :: "(string \<times> string) list"

text \<open>\<open>@get("/") async def hello_world()\<close> (lines 4--6).\<close>

definition hello_world :: route where
  "hello_world = \<lparr>route_method = GET, route_path = ''/'', route_body = [(''message'', ''Hello, World!'')]\<rparr>"

text \<open>\<open>@get("/health") async def health_check()\<close> (lines 9--11).\<close>

definition health_check :: route where
  "health_check = \<lparr>route_method = GET, route_path = ''/health'', route_body = [(''status'', ''healthy'')]\<rparr>"

text \<open>\<open>app = Litestar(route_handlers=[hello_world, health_check])\<close> (line 14).\<close>

definition app :: "route list" where
  "app = [hello_world, health_check]"

datatype response = Ok "(string \<times> string) list" | NoContent "http_method list" | NotFound | MethodNotAllowed

definition handle :: "route list \<Rightarrow> http_method \<Rightarrow> string \<Rightarrow> response" where
  "handle routes m p =
     (case find (\<lambda>r. route_path r = p \<and> route_method r = m) routes of
        Some r \<Rightarrow> Ok (route_body r)
      | None \<Rightarrow>
          if list_ex (\<lambda>r. route_path r = p) routes then
            (if m = OPTIONS
             then NoContent (map route_method (filter (\<lambda>r. route_path r = p) routes) @ [OPTIONS])
             else MethodNotAllowed)
          else NotFound)"

end
