(* ===== verification/Spec2Isabelle.thy ===== *)
theory Spec2Isabelle
  imports Render Todo Organizer App
begin

text \<open>
  \<^bold>\<open>Verification development of the repository's four Python programs\<close>: the
  Markdown blog generator (src/outputs/06-markdown-blog-generator/blog_generator.py), the
  todo command-line tool (src/outputs/03-todo-cli-tool/todo.py), the file organizer
  (src/outputs/05-file-organizer-script/organizer.py) and the Litestar application
  (src/outputs/01-litestar-hello-world/app.py). They share no code; the development shares
  the model of Python's built-ins (\<open>Prelude\<close>) between them.

  \<^bold>\<open>The blog generator.\<close> \<open>BlogGenerator.generate_blog\<close> creates the output directory, then
  \<open>process_posts\<close> reads every \<open>*.md\<close> file of the source directory, splits it with
  \<open>parse_post_metadata\<close> into a metadata dict and a body, converts the body with the
  \<open>markdown\<close> package, derives a slug from the title with \<open>generate_slug\<close>, collects the
  post dicts and sorts them by date, newest first. When posts were collected,
  \<open>generate_post_pages\<close>, \<open>generate_index_page\<close> and \<open>generate_css\<close> write one page per
  post, the index page and the stylesheet.

  \<^bold>\<open>Theories.\<close>
  \<^item> \<open>Prelude\<close>: the Python string built-ins the code calls (\<open>str.strip\<close>, \<open>split\<close>,
    \<open>split(sep, 1)\<close>, \<open>find\<close>, \<open>index\<close>, \<open>startswith\<close>, \<open>endswith\<close>, \<open>join\<close>,
    \<open>lower\<close>, \<open>in\<close>) over \<open>string\<close>, with their exceptions as values of \<open>py_error\<close>,
    \<open>int()\<close> and \<open>str()\<close> on integers, \<open>PurePath.stem\<close> and \<open>suffix\<close>, and the
    lemmas the components share about them (split/join round trip, the first occurrence
    found by \<open>find\<close>, strip idempotence, \<open>int(str(i)) == i\<close>).
  \<^item> \<open>Frontmatter\<close>: \<open>parse_post_metadata\<close> (lines 16--45). The dict is an association
    list updated by \<open>AList.update\<close> (Python dicts keep insertion order); values are
    \<open>mvalue\<close> (a string, or the list of tags). The \<open>try/except ValueError\<close> is the
    \<open>Inl ValueError\<close> branch of \<open>py_index\<close>. Lemmas: the behaviour of each branch (C1--C3),
    totality and well-formedness of every returned dict (C4, C5), the effect of one header
    line (C6), and that no returned string value other than the default date begins or ends
    with a quote (C7).
  \<^item> \<open>Slug\<close>: \<open>generate_slug\<close> (lines 47--51), the two regular-expression substitutions
    as a filter and a run-collapsing function. Lemmas: idempotence and the exact set of
    fixpoints (C8, C9).
  \<^item> \<open>Posts\<close>: the post dict as a record, \<open>process_posts\<close> (lines 53--100) with its early
    returns, the per-file \<open>try/except Exception\<close> (a failed file is logged and skipped),
    and \<open>list.sort(key, reverse=True)\<close>, modelled as CPython implements it (stable, so
    \<open>rev (sort_key key (rev xs))\<close>). Lemmas: the characterisation of the sort as the unique
    stable descending sort by the date string (C10); independence of the files (C11, C12);
    the only failure causes of an assembled post and its fields (C13, C14).
  \<^item> \<open>Render\<close>: the output methods and the driver \<open>generate_blog\<close> (lines 102--411) over an
    explicit file store: \<open>mkdir(parents=True, exist_ok=True)\<close> raises on a refused path
    or when a prefix of the path is a regular file, \<open>write_text\<close> raises on a refused
    path, a missing parent or a directory at the path. An exception from a write
    propagates out of \<open>generate_blog\<close> (the code catches none there), modelled by
    \<open>run_step\<close> threading a sum value; the printed messages form an event log. Lemmas: the
    excerpt is at most 200 characters, free of tags and computed from the first 200
    characters of the HTML (C15, C16), the two early exits (C17, C18), the pages, index and
    stylesheet written by a successful run (C19--C21), that every index link resolves to a
    written page (C22), and that one refused page write aborts the run (C23).

  \<^item> \<open>Todo\<close>: \<open>TodoManager\<close> and \<open>main\<close> of todo.py. The JSON file is an abstract value
    (missing, unreadable, not JSON, or a stored task list) with a read-only flag; each
    invocation of the tool is \<open>todo_main\<close>, successive invocations are \<open>todo_session\<close>,
    and \<open>todo_reachable\<close> is the inductive set of reachable file states. The inductive
    relation \<open>todo_change\<close> is the abstract specification of one change of the stored list.
    Lemmas: the behaviour of \<open>add\<close> (C24), the refinement of every session by
    \<open>todo_change\<close> steps (C25), the invariant of reachable states by rule induction (C26),
    the round trip from a listed id to \<open>complete\<close> (C27), the duplicate ids produced by
    delete and add (C28), and the error paths (C29, C30).
  \<^item> \<open>Organizer\<close>: \<open>FileOrganizer\<close> and \<open>main\<close> of organizer.py over a store of paths and
    nodes in \<open>iterdir\<close> order. The rename loop \<open>while destination.exists()\<close> is the
    \<open>partial_function (option)\<close> \<open>free_destination\<close>; it is proved to return on every
    store (C32), because the candidate names are injective in the counter and the store is
    finite, so no fuel bound is needed. \<open>shutil.move\<close> is modelled as CPython runs it on
    one file system: into an existing directory under the source's name (raising when that
    name is taken), otherwise \<open>os.rename\<close>, which replaces an existing regular file. Lemmas:
    the category of a file (C31), that the loop yields the first free name (C33), that no
    run loses or overwrites a stored file, because every move goes to that free name (C34),
    the dry run (C35), and the file named \<open>Others\<close> that blocks its own folder (C36).
  \<^item> \<open>App\<close>: the two handlers and the route table of app.py, with Litestar's dispatch
    (404 for an unknown path, 405 for a method the path does not register, and the automatic
    204 answer to \<open>OPTIONS\<close> listing the allowed methods). It documents the routing; no
    claim is made about it, the handlers being constant responses.

  \<^bold>\<open>Parameters and limits.\<close> The \<open>markdown\<close> converter is a parameter returning a string
  or an exception; the Jinja2 templates and the CSS text are parameters of \<open>renderer\<close>
  (they are constant text in the code); the clock (\<open>datetime.now()\<close>) is a parameter
  (\<open>today\<close>, \<open>now\<close>); the directory listings of \<open>glob\<close> and \<open>iterdir\<close> are in the
  order the file system yields them. JSON encoding is not modelled: \<open>json.dump\<close> and
  \<open>json.load\<close> are taken to be inverse on the task lists the todo tool writes. Characters
  are Isabelle's 8-bit \<open>char\<close>: \<open>lower()\<close>, \<open>int()\<close>, \<open>isspace\<close> and the classes of
  the regular expressions are modelled on ASCII. Every recursive definition is structural or
  has a measure, except the rename loop, whose termination is a theorem.

  \<^bold>\<open>Not modelled.\<close> The command-line wiring with \<open>argparse\<close> (blog generator, organizer),
  \<open>KeyboardInterrupt\<close>, and the external libraries themselves (markdown, Jinja2, the
  internals of Litestar); the stray triple quote at line 425 of blog_generator.py, which makes
  that file a syntax error (recorded as a finding: the model is of lines 1--424).
\<close>

end
